(* ===== verification/Bcm_Prelude.thy ===== *)
theory Bcm_Prelude
  imports Main "HOL-Library.Word" "HOL-Library.Char_ord" "HOL-Library.List_Lexorder"
begin

text \<open>
  The prelude of the development: names for the machine types of the server, the pieces of the
  C++ and Boost string library that several components call (\<open>boost::split\<close>,
  \<open>std::getline\<close>, \<open>strcspn\<close>, \<open>std::to_string\<close>, \<open>std::stoul\<close>,
  \<open>std::stoi\<close>, the \<open>ctype\<close> predicates in the C locale), reading and writing one bit
  of a byte vector, and the generic lemmas on them. A \<open>std::string\<close> is a \<^typ>\<open>string\<close>:
  its characters are bytes, ordered as unsigned bytes, which is how \<open>std::string\<close>
  compares.
\<close>

unbundle bit_operations_syntax

section \<open>Machine types and collections\<close>

type_synonym u8 = "8 word"
type_synonym u32 = "32 word"
type_synonym u64 = "64 word"

text \<open>\<open>inv_pres\<close> collects the preservation lemmas of the components' invariants and
  \<open>frame\<close> the equations saying what an operation leaves alone.\<close>

named_theorems inv_pres "an operation keeps its component's invariant"
named_theorems frame "what an operation leaves unchanged"

text \<open>A thrown C++ exception, a hardware trap and an out-of-bounds access are values. The
  constructor tells which (\<open>NoneAccess\<close>: an empty \<open>boost::optional\<close> is dereferenced); \<open>ThrowString\<close> is a thrown \<open>std::string\<close>, which no
  \<open>catch (std::exception&)\<close> handler takes.\<close>

datatype cpp_error = ThrowString string | ThrowStd | DivideByZero | OutOfBounds | NoneAccess

text \<open>\<open>try { r } catch (std::exception&) { h }\<close>: only \<open>std::exception\<close> and
  its subclasses are caught.\<close>

fun catch_std :: "cpp_error + 'a \<Rightarrow> (cpp_error + 'a) \<Rightarrow> cpp_error + 'a" where
  "catch_std (Inl ThrowStd) h = h"
| "catch_std r h = r"

lemma catch_std_Inr [simp]: "catch_std (Inr x) h = Inr x"
  by simp

text \<open>The answer of a data access object: \<open>ERRORCODE_SUCCESS\<close>,
  \<open>ERRORCODE_NO_SUCH_DATA\<close>, \<open>ERRORCODE_CAS_FAIL\<close>, or any other code.\<close>

datatype dao_code = Dao_Success | Dao_NoSuchData | Dao_AlreadyExisted | Dao_CasFail | Dao_Error

section \<open>Bytes and characters\<close>

definition byte_of :: "char \<Rightarrow> u8" where
  "byte_of c = word_of_nat (of_char c)"

definition char_of_byte :: "u8 \<Rightarrow> char" where
  "char_of_byte w = char_of (unat w)"

lemma unat_byte_of: "unat (byte_of c) = of_char c"
proof -
  have "(of_char c :: nat) < 256" by (rule nat_of_char_less_256)
  then show ?thesis by (simp add: byte_of_def unat_of_nat)
qed

lemma char_of_byte_of [simp]: "char_of_byte (byte_of c) = c"
  by (simp add: char_of_byte_def unat_byte_of)

lemma byte_of_char_of_byte [simp]: "byte_of (char_of_byte w) = w"
proof (rule word_unat_eq_iff [THEN iffD2])
  have "unat w < 256" using unsigned_less [of w, where ?'a = nat] by simp
  then show "unat (byte_of (char_of_byte w)) = unat w"
    by (simp add: unat_byte_of char_of_byte_def)
qed

lemma byte_of_inj [simp]: "byte_of c = byte_of d \<longleftrightarrow> c = d"
  by (metis char_of_byte_of)

lemma map_char_byte [simp]: "map char_of_byte (map byte_of s) = s"
  by (simp add: comp_def map_idI)

lemma map_byte_char [simp]: "map byte_of (map char_of_byte bs) = bs"
  by (simp add: comp_def map_idI)

section \<open>Splitting and scanning strings\<close>

text \<open>\<open>boost::split(v, s, is_any_of(d))\<close> with one delimiter and no token compression:
  adjacent delimiters give empty tokens, and the empty string gives one empty token.\<close>

fun split_on :: "char \<Rightarrow> string \<Rightarrow> string list" where
  "split_on d [] = [[]]"
| "split_on d (c # cs) =
     (case split_on d cs of
        [] \<Rightarrow> [[]]
      | t # ts \<Rightarrow> if c = d then [] # t # ts else (c # t) # ts)"

lemma split_on_not_Nil [simp]: "split_on d s \<noteq> []"
  by (induction s) (auto split: list.splits)

lemma split_on_Cons:
  "split_on d (c # cs) =
    (if c = d then [] # split_on d cs else (c # hd (split_on d cs)) # tl (split_on d cs))"
  using split_on_not_Nil [of d cs] by (simp split: list.splits)

declare split_on.simps(2) [simp del]

lemma split_on_single [simp]: "d \<notin> set s \<Longrightarrow> split_on d s = [s]"
  by (induction s) (auto simp: split_on_Cons)

lemma split_on_append [simp]: "d \<notin> set a \<Longrightarrow> split_on d (a @ d # b) = a # split_on d b"
  by (induction a) (auto simp: split_on_Cons)

lemma split_on_snoc: "d \<notin> set m \<Longrightarrow> split_on d (n @ d # m) = split_on d n @ [m]"
  by (induction n) (auto simp: split_on_Cons)

text \<open>Putting the delimiter back between the tokens rebuilds the string.\<close>

fun join_with :: "char \<Rightarrow> string list \<Rightarrow> string" where
  "join_with d [] = []"
| "join_with d [t] = t"
| "join_with d (t # ts) = t @ d # join_with d ts"

lemma join_with_Cons: "ts \<noteq> [] \<Longrightarrow> join_with d (t # ts) = t @ d # join_with d ts"
  by (cases ts) auto

lemma join_split_on: "join_with d (split_on d s) = s"
proof (induction s)
  case Nil
  show ?case by simp
next
  case (Cons c s)
  obtain t ts where s: "split_on d s = t # ts" by (cases "split_on d s") auto
  show ?case
  proof (cases "c = d")
    case True
    with Cons show ?thesis by (simp add: join_with_Cons split_on_Cons)
  next
    case False
    with Cons s show ?thesis by (cases ts) (auto simp: split_on_Cons)
  qed
qed

lemma split_on_no_delim: "t \<in> set (split_on d s) \<Longrightarrow> d \<notin> set t"
proof (induction s arbitrary: t)
  case Nil
  then show ?case by simp
next
  case (Cons c s)
  obtain u us where s: "split_on d s = u # us" by (cases "split_on d s") auto
  with Cons show ?case by (auto simp: split_on_Cons split: if_splits)
qed

lemma length_split_on: "length (split_on d s) = Suc (count_list s d)"
  by (induction s) (auto simp: split_on_Cons)

text \<open>\<open>while (std::getline(iss, p, d))\<close>: the tokens between delimiters, without a last
  empty one, since reading at the end of the stream fails.\<close>

definition getline_all :: "char \<Rightarrow> string \<Rightarrow> string list" where
  "getline_all d s =
     (let ts = split_on d s in if last ts = [] then butlast ts else ts)"

text \<open>\<open>strcspn(s, reject)\<close>: the length of the prefix free of the characters of
  \<open>reject\<close>.\<close>

definition strcspn :: "string \<Rightarrow> string \<Rightarrow> nat" where
  "strcspn s reject = length (takeWhile (\<lambda>c. c \<notin> set reject) s)"

lemma take_strcspn: "take (strcspn s r) s = takeWhile (\<lambda>c. c \<notin> set r) s"
  unfolding strcspn_def by (rule takeWhile_eq_take [symmetric])

lemma drop_strcspn: "drop (strcspn s r) s = dropWhile (\<lambda>c. c \<notin> set r) s"
  unfolding strcspn_def by (rule dropWhile_eq_drop [symmetric])

definition starts_with :: "string \<Rightarrow> string \<Rightarrow> bool" where
  "starts_with s p \<longleftrightarrow> take (length p) s = p"

lemma starts_with_append [simp]: "starts_with (p @ s) p"
  by (simp add: starts_with_def)

text \<open>\<open>s.find(pat) != npos\<close>.\<close>

definition has_substring :: "string \<Rightarrow> string \<Rightarrow> bool" where
  "has_substring pat s = list_ex (\<lambda>k. take (length pat) (drop k s) = pat) [0..<Suc (length s)]"

section \<open>Character classes of the C locale\<close>

definition is_digit :: "char \<Rightarrow> bool" where
  "is_digit c \<longleftrightarrow> CHR ''0'' \<le> c \<and> c \<le> CHR ''9''"

definition is_lower :: "char \<Rightarrow> bool" where
  "is_lower c \<longleftrightarrow> CHR ''a'' \<le> c \<and> c \<le> CHR ''z''"

definition is_upper :: "char \<Rightarrow> bool" where
  "is_upper c \<longleftrightarrow> CHR ''A'' \<le> c \<and> c \<le> CHR ''Z''"

definition is_alnum :: "char \<Rightarrow> bool" where
  "is_alnum c \<longleftrightarrow> is_digit c \<or> is_lower c \<or> is_upper c"

definition is_space :: "char \<Rightarrow> bool" where
  "is_space c \<longleftrightarrow> c = CHR '' '' \<or> CHR 0x09 \<le> c \<and> c \<le> CHR 0x0D"

definition to_lower :: "char \<Rightarrow> char" where
  "to_lower c = (if is_upper c then char_of (of_char c + 32 :: nat) else c)"

text \<open>\<open>c - 'x'\<close> for a character \<open>c\<close> not below \<open>x\<close>.\<close>

definition char_diff :: "char \<Rightarrow> char \<Rightarrow> nat" where
  "char_diff c x = of_char c - of_char x"

section \<open>Decimal numbers\<close>

text \<open>\<open>std::to_string\<close> of an unsigned value.\<close>

fun to_dec :: "nat \<Rightarrow> string" where
  "to_dec n = (if n < 10 then [char_of (48 + n)]
     else to_dec (n div 10) @ [char_of (48 + n mod 10)])"

declare to_dec.simps [simp del]

definition dec_val :: "string \<Rightarrow> nat" where
  "dec_val s = foldl (\<lambda>n c. 10 * n + char_diff c (CHR ''0'')) 0 s"

lemma dec_val_append_digit:
  "dec_val (s @ [c]) = 10 * dec_val s + char_diff c (CHR ''0'')"
  by (simp add: dec_val_def)

lemma of_char_digit: "d < 10 \<Longrightarrow> of_char (char_of (48 + d) :: char) = (48 + d :: nat)"
  by simp

lemma char_diff_digit: "d < 10 \<Longrightarrow> char_diff (char_of (48 + d :: nat)) (CHR ''0'') = d"
  using of_char_digit [of d] by (simp add: char_diff_def)

lemma is_digit_digit: "d < 10 \<Longrightarrow> is_digit (char_of (48 + d :: nat))"
  by (simp add: is_digit_def less_eq_char_def)

lemma dec_val_to_dec [simp]: "dec_val (to_dec n) = n"
proof (induction n rule: to_dec.induct)
  case (1 n)
  show ?case
  proof (cases "n < 10")
    case True
    then show ?thesis
      by (simp add: to_dec.simps [of n] dec_val_def char_diff_digit)
  next
    case False
    have "char_diff (char_of (48 + n mod 10)) (CHR ''0'') = n mod 10"
      by (rule char_diff_digit) simp
    with 1 False show ?thesis
      by (simp add: to_dec.simps [of n] dec_val_append_digit)
  qed
qed

lemma to_dec_digits: "c \<in> set (to_dec n) \<Longrightarrow> is_digit c"
proof (induction n rule: to_dec.induct)
  case (1 n)
  show ?case
  proof (cases "n < 10")
    case True
    with 1 show ?thesis by (simp add: to_dec.simps [of n] is_digit_digit)
  next
    case False
    with 1 show ?thesis
      using is_digit_digit [of "n mod 10"] by (auto simp: to_dec.simps [of n])
  qed
qed

lemma to_dec_not_Nil [simp]: "to_dec n \<noteq> []"
  by (subst to_dec.simps) simp

lemma to_dec_inj: "to_dec m = to_dec n \<longleftrightarrow> m = n"
  by (metis dec_val_to_dec)

text \<open>The scan that \<open>strtoul\<close> and \<open>strtol\<close> share in base 10: white space, an
  optional sign, digits. What follows the digits is ignored.\<close>

definition scan_number :: "string \<Rightarrow> bool \<times> string" where
  "scan_number s =
     (let t = dropWhile is_space s;
          neg = (t \<noteq> [] \<and> hd t = CHR ''-'');
          u = (if t \<noteq> [] \<and> (hd t = CHR ''-'' \<or> hd t = CHR ''+'') then tl t else t)
      in (neg, takeWhile is_digit u))"

text \<open>\<open>std::stoul\<close> on a 64-bit \<open>unsigned long\<close>: \<open>None\<close> when it throws
  (\<open>invalid_argument\<close> or \<open>out_of_range\<close>). A minus sign negates modulo \<open>2 ^ 64\<close>.\<close>

definition stoul :: "string \<Rightarrow> nat option" where
  "stoul s =
     (let (neg, ds) = scan_number s; v = dec_val ds
      in if ds = [] \<or> v \<ge> 2 ^ 64 then None
         else Some (if neg then (2 ^ 64 - v) mod 2 ^ 64 else v))"

text \<open>\<open>std::stoi\<close>: \<open>None\<close> when it throws.\<close>

definition stoi :: "string \<Rightarrow> int option" where
  "stoi s =
     (let (neg, ds) = scan_number s; v = (if neg then - int (dec_val ds) else int (dec_val ds))
      in if ds = [] \<or> v < - (2 ^ 31) \<or> v \<ge> 2 ^ 31 then None else Some v)"

lemma digit_not_space: "is_digit c \<Longrightarrow> \<not> is_space c"
  by (auto simp: is_digit_def is_space_def less_eq_char_def)

lemma digit_not_sign: "is_digit c \<Longrightarrow> c \<noteq> CHR ''-'' \<and> c \<noteq> CHR ''+''"
  by (auto simp: is_digit_def less_eq_char_def)

lemma scan_number_digits:
  assumes "ds \<noteq> []" and "\<And>c. c \<in> set ds \<Longrightarrow> is_digit c"
  shows "scan_number ds = (False, ds)"
proof -
  obtain c cs where ds: "ds = c # cs" using assms(1) by (cases ds) auto
  with assms(2) have "is_digit c" by simp
  then have "\<not> is_space c" and "c \<noteq> CHR ''-'' \<and> c \<noteq> CHR ''+''"
    by (simp_all add: digit_not_space digit_not_sign)
  moreover have "takeWhile is_digit ds = ds" using assms(2) by (simp add: takeWhile_eq_all_conv)
  ultimately show ?thesis by (simp add: scan_number_def ds Let_def)
qed

lemma scan_number_to_dec [simp]: "scan_number (to_dec n) = (False, to_dec n)"
  by (rule scan_number_digits) (auto dest: to_dec_digits)

lemma stoul_to_dec [simp]: "n < 2 ^ 64 \<Longrightarrow> stoul (to_dec n) = Some n"
  by (simp add: stoul_def)

lemma stoi_to_dec: "n < 2 ^ 31 \<Longrightarrow> stoi (to_dec n) = Some (int n)"
  by (simp add: stoi_def Let_def)

end
