(* ===== verification/Codec.thy ===== *)
theory Codec
  imports Bcm_Prelude
begin

text \<open>
  The text encodings of \<open>src/crypto\<close>: \<open>HexEncoder\<close>, \<open>UrlEncoder\<close>,
  \<open>AnyBase\<close> and \<open>Base64\<close>. The first three are closed programs; \<open>Base64\<close>
  wraps Boost.Beast's codec, which is a parameter here (\<open>enc\<close>, \<open>dec\<close> and
  \<open>decoded_size\<close>). The lemmas show the round trips, which inputs raise, and what the
  URL-safe mode of \<open>Base64::decode\<close> does to unpadded input.
\<close>

unbundle bit_operations_syntax

section \<open>HexEncoder\<close>

definition hexmapLower :: string where
  "hexmapLower = ''0123456789abcdef''"

definition hexmapUpper :: string where
  "hexmapUpper = ''0123456789ABCDEF''"

definition HexEncoder_encode :: "string \<Rightarrow> bool \<Rightarrow> string \<Rightarrow> string" where
  "HexEncoder_encode raw bLowerCase prefix =
     (let hexmap = (if \<not> bLowerCase then hexmapUpper else hexmapLower);
          hexstr = concat (map (\<lambda>c.
            [hexmap ! unat (drop_bit 4 (byte_of c AND 0xF0)), hexmap ! unat (byte_of c AND 0x0F)]) raw)
      in prefix @ hexstr)"

definition hex_part :: "char \<Rightarrow> u8 option" where
  "hex_part c =
     (if CHR ''0'' \<le> c \<and> c \<le> CHR ''9'' then Some (byte_of c - byte_of (CHR ''0''))
      else if CHR ''a'' \<le> c \<and> c \<le> CHR ''f'' then Some (byte_of c - byte_of (CHR ''a'') + 0x0A)
      else if CHR ''A'' \<le> c \<and> c \<le> CHR ''F'' then Some (byte_of c - byte_of (CHR ''A'') + 0x0A)
      else None)"

text \<open>The loop of \<open>HexEncoder::decode\<close>: \<open>i\<close> is the index of the next character,
  \<open>b\<close> the half-built byte \<open>rawByte\<close>, \<open>raw\<close> the output buffer.\<close>

fun hex_decode_loop :: "string \<Rightarrow> nat \<Rightarrow> u8 \<Rightarrow> string \<Rightarrow> string option" where
  "hex_decode_loop [] i b raw = Some raw"
| "hex_decode_loop (c # cs) i b raw =
     (case hex_part c of
        None \<Rightarrow> None
      | Some part \<Rightarrow>
          (let b' = push_bit 4 b OR part
           in if odd i then hex_decode_loop cs (Suc i) 0 (raw[i div 2 := char_of_byte b'])
              else hex_decode_loop cs (Suc i) b' raw))"

definition HexEncoder_decode :: "string \<Rightarrow> bool \<Rightarrow> cpp_error + string" where
  "HexEncoder_decode hexstr bException =
     (case hex_decode_loop hexstr 0 0 (replicate (length hexstr div 2) (CHR '' '')) of
        Some raw \<Rightarrow> Inr raw
      | None \<Rightarrow> if bException then Inl (ThrowString (hexstr @ '' is not a hex string'')) else Inr '''')"

section \<open>UrlEncoder\<close>

definition url_unreserved :: "char \<Rightarrow> bool" where
  "url_unreserved c \<longleftrightarrow>
     is_lower c \<or> is_upper c \<or> is_digit c
     \<or> c = CHR ''-'' \<or> c = CHR ''_'' \<or> c = CHR ''.'' \<or> c = CHR ''~''"

definition UrlEncoder_encode :: "string \<Rightarrow> string" where
  "UrlEncoder_encode url =
     concat (map (\<lambda>c. if url_unreserved c then [c] else HexEncoder_encode [c] False ''%'') url)"

fun UrlEncoder_decode :: "string \<Rightarrow> cpp_error + string" where
  "UrlEncoder_decode [] = Inr []"
| "UrlEncoder_decode (c # cs) =
     (if c = CHR ''%'' \<and> 2 \<le> length cs
      then (let hexStr = take 2 cs in
            case catch_std (HexEncoder_decode hexStr True) (Inr (''%'' @ hexStr)) of
              Inl e \<Rightarrow> Inl e
            | Inr out \<Rightarrow> map_sum id ((@) out) (UrlEncoder_decode (drop 2 cs)))
      else map_sum id ((#) c) (UrlEncoder_decode cs))"

section \<open>AnyBase\<close>

definition kNumberSymbol :: string where
  "kNumberSymbol = ''0123456789'' @ ''abcdefghij'' @ ''klmnopqrst'' @
     ''uvwxyzABCD'' @ ''EFGHIJKLMN'' @ ''OPQRSTUVWX'' @ ''YZ''"

definition kMaxBase :: int where
  "kMaxBase = int (length kNumberSymbol)"

text \<open>The \<open>do ... while (num > 0)\<close> loop of \<open>AnyBase::encode\<close> with \<open>vtmp\<close>
  reversed as it grows. \<open>base\<close> is converted to \<open>uint64_t\<close> by the usual arithmetic
  conversions. \<open>None\<close>: the loop never ends. \<open>Inl\<close>: a division by zero, or a read
  past the end of the symbol table.\<close>

partial_function (option) any_encode_loop :: "u64 \<Rightarrow> u64 \<Rightarrow> string \<Rightarrow> (cpp_error + string) option" where
  "any_encode_loop num b acc =
     (if b = 0 then Some (Inl DivideByZero)
      else if length kNumberSymbol \<le> unat (num mod b) then Some (Inl OutOfBounds)
      else if 0 < num div b
           then any_encode_loop (num div b) b (kNumberSymbol ! unat (num mod b) # acc)
           else Some (Inr (kNumberSymbol ! unat (num mod b) # acc)))"

text \<open>The result: \<open>Inr None\<close> is \<open>return false\<close>, \<open>Inr (Some s)\<close> is
  \<open>encoded = s; return true\<close>.\<close>

definition AnyBase_encode :: "u64 \<Rightarrow> int \<Rightarrow> (cpp_error + string option) option" where
  "AnyBase_encode num base =
     (if kMaxBase < base then Some (Inr None)
      else map_option (map_sum id Some) (any_encode_loop num (word_of_int base) []))"

definition any_digit :: "char \<Rightarrow> int option" where
  "any_digit c =
     (if CHR ''0'' \<le> c \<and> c \<le> CHR ''9'' then Some (int (char_diff c (CHR ''0'')))
      else if CHR ''a'' \<le> c \<and> c \<le> CHR ''z'' then Some (int (char_diff c (CHR ''a'')) + 10)
      else if CHR ''A'' \<le> c \<and> c \<le> CHR ''Z'' then Some (int (char_diff c (CHR ''A'')) + 36)
      else None)"

fun any_decode_loop :: "string \<Rightarrow> u64 \<Rightarrow> u64 \<Rightarrow> u64 option" where
  "any_decode_loop [] b num = Some num"
| "any_decode_loop (c # cs) b num =
     (case any_digit c of
        None \<Rightarrow> None
      | Some tmp \<Rightarrow> any_decode_loop cs b (num * b + word_of_int tmp))"

definition AnyBase_decode :: "string \<Rightarrow> int \<Rightarrow> u64 option" where
  "AnyBase_decode encoded base =
     (if kMaxBase < base then None else any_decode_loop encoded (word_of_int base) 0)"

section \<open>Base64\<close>

text \<open>\<open>boost::algorithm::replace_all\<close> of one character, \<open>trim_if\<close> on \<open>'='\<close>
  and \<open>replace_all_copy\<close> of \<open>"\r\n"\<close> by nothing.\<close>

definition replace_char :: "char \<Rightarrow> char \<Rightarrow> string \<Rightarrow> string" where
  "replace_char a b s = map (\<lambda>c. if c = a then b else c) s"

definition trim_eq :: "string \<Rightarrow> string" where
  "trim_eq s = rev (dropWhile (\<lambda>c. c = CHR ''='') (rev (dropWhile (\<lambda>c. c = CHR ''='') s)))"

fun remove_crlf :: "string \<Rightarrow> string" where
  "remove_crlf (c # d # cs) =
     (if c = CHR 0x0D \<and> d = CHR 0x0A then remove_crlf cs else c # remove_crlf (d # cs))"
| "remove_crlf s = s"

definition Base64_encode :: "(string \<Rightarrow> string) \<Rightarrow> string \<Rightarrow> bool \<Rightarrow> string" where
  "Base64_encode enc target url_safe =
     (if target = [] then ''''
      else let result = enc target
           in if url_safe then trim_eq (replace_char (CHR ''/'') (CHR ''_'')
                                 (replace_char (CHR ''+'') (CHR ''-'') result))
              else result)"

definition b64_std :: "string \<Rightarrow> string" where
  "b64_std s = replace_char (CHR ''_'') (CHR ''/'') (replace_char (CHR ''-'') (CHR ''+'') s)"

definition Base64_decode :: "(string \<Rightarrow> string) \<Rightarrow> (nat \<Rightarrow> nat) \<Rightarrow> string \<Rightarrow> bool \<Rightarrow> string" where
  "Base64_decode dec decoded_size target url_safe =
     (let t0 = remove_crlf target
      in if t0 = [] then ''''
         else let t1 = (if url_safe then b64_std t0 else t0);
                  app1 = (if url_safe then length t1 mod 4 else 0);
                  realTarget = t1 @ replicate app1 (CHR ''='');
                  appendSize = (if app1 = 0
                                then length (takeWhile (\<lambda>c. c = CHR ''='') (rev realTarget))
                                else app1);
                  decodeSize = (int (decoded_size (length realTarget)) - int appendSize) mod 2 ^ 64;
                  decoded = dec realTarget
              in if decodeSize \<noteq> int (length decoded) then '''' else decoded)"

definition Base64_check :: "(string \<Rightarrow> string) \<Rightarrow> (nat \<Rightarrow> nat) \<Rightarrow> string \<Rightarrow> bool \<Rightarrow> bool" where
  "Base64_check dec decoded_size target url_safe =
     (if target = [] then True else Base64_decode dec decoded_size target url_safe \<noteq> [])"

section \<open>Hexadecimal: lemmas\<close>

lemma length_hexmap [simp]: "length hexmapLower = 16" "length hexmapUpper = 16"
  by (simp_all add: hexmapLower_def hexmapUpper_def)

lemma hex_part_hexmap:
  "n < 16 \<Longrightarrow> hex_part ((if l then hexmapLower else hexmapUpper) ! n) = Some (word_of_nat n)"
proof -
  have "\<forall>n \<in> set [0..<16]. hex_part (hexmapLower ! n) = Some (word_of_nat n)
      \<and> hex_part (hexmapUpper ! n) = Some (word_of_nat n)"
    by code_simp
  then show "n < 16 \<Longrightarrow> ?thesis" by simp
qed

lemma nibble_low: "b AND 0x0F = take_bit 4 (b :: u8)"
proof -
  have "(0x0F :: u8) = mask 4" by (simp add: mask_eq_exp_minus_1)
  then show ?thesis by (simp add: take_bit_eq_mask)
qed

lemma nibble_high: "drop_bit 4 b AND 0x0F = drop_bit 4 (b :: u8)"
  unfolding nibble_low by (rule bit_eqI) (auto simp: bit_simps dest: bit_imp_le_length)

lemma unat_nibble_high: "unat (drop_bit 4 (b :: u8)) < 16"
  using unsigned_less [of b, where ?'a = nat] by (simp add: drop_bit_eq_div unat_div_distrib)

lemma unat_nibble_low: "unat (take_bit 4 (b :: u8)) < 16"
  by (simp add: take_bit_eq_mod unat_mod_distrib)

lemma nibbles_join: "push_bit 4 (drop_bit 4 b) OR take_bit 4 b = (b :: u8)"
  by (rule bit_eqI) (auto simp: bit_simps)

lemma hex_decode_loop_encode:
  assumes "length raw = length pre + length s"
  shows "hex_decode_loop (HexEncoder_encode s l []) (2 * length pre) 0 (pre @ drop (length pre) raw)
       = Some (pre @ s)"
  using assms
proof (induction s arbitrary: pre raw)
  case Nil
  then show ?case by (simp add: HexEncoder_encode_def)
next
  case (Cons c s)
  let ?b = "byte_of c" and ?raw = "(pre @ [c]) @ drop (length (pre @ [c])) raw"
  have upd: "(pre @ drop (length pre) raw)[length pre := c] = ?raw"
    using Cons.prems by (cases "drop (length pre) raw")
      (auto simp: list_update_append drop_Suc tl_drop [symmetric] dest!: arg_cong [of _ _ length])
  have IH: "hex_decode_loop (HexEncoder_encode s l []) (2 * length (pre @ [c])) 0 ?raw
      = Some ((pre @ [c]) @ s)"
    by (rule Cons.IH) (use Cons.prems in simp)
  define hm where "hm = (if \<not> l then hexmapUpper else hexmapLower)"
  have hi: "hex_part (hm ! unat (drop_bit 4 (?b AND 0xF0))) = Some (drop_bit 4 ?b)"
    using hex_part_hexmap [OF unat_nibble_high, of l ?b]
    by (simp add: nibble_high hm_def split: if_splits)
  have lo: "hex_part (hm ! unat (?b AND 0x0F)) = Some (take_bit 4 ?b)"
    using hex_part_hexmap [OF unat_nibble_low, of l ?b]
    by (simp add: nibble_low hm_def split: if_splits)
  have "HexEncoder_encode (c # s) l [] =
      hm ! unat (drop_bit 4 (?b AND 0xF0)) # hm ! unat (?b AND 0x0F) # HexEncoder_encode s l []"
    by (simp add: HexEncoder_encode_def Let_def hm_def)
  then show ?case
    using IH upd by (simp only: hex_decode_loop.simps hi lo) (simp add: nibbles_join)
qed

lemma hex_encode_prefix: "HexEncoder_encode s l p = p @ HexEncoder_encode s l []"
  by (simp add: HexEncoder_encode_def Let_def)

lemma length_hex_encode [simp]: "length (HexEncoder_encode s l []) = 2 * length s"
  by (induction s) (simp_all add: HexEncoder_encode_def Let_def)

lemma hex_decode_encode: "HexEncoder_decode (HexEncoder_encode raw l []) e = Inr raw"
  using hex_decode_loop_encode [of "replicate (length raw) (CHR '' '')" "[]" raw l]
  by (simp add: HexEncoder_decode_def)

text \<open>\<open>HexEncoder::decode\<close> succeeds exactly on strings of hexadecimal digits.\<close>

lemma hex_decode_loop_None:
  "hex_decode_loop cs i b raw = None \<longleftrightarrow> (\<exists>c \<in> set cs. hex_part c = None)"
  by (induction cs arbitrary: i b raw) (auto simp: Let_def split: option.splits)

lemma hex_decode_raises:
  "HexEncoder_decode s True = Inl (ThrowString (s @ '' is not a hex string''))
     \<longleftrightarrow> (\<exists>c \<in> set s. hex_part c = None)"
  using hex_decode_loop_None [of s 0 0 "replicate (length s div 2) (CHR '' '')"]
  by (auto simp: HexEncoder_decode_def split: option.splits)

lemma hex_decode_no_std: "HexEncoder_decode s e \<noteq> Inl ThrowStd"
  by (simp add: HexEncoder_decode_def split: option.splits)

lemma hex_decode_catch [simp]: "catch_std (HexEncoder_decode s e) h = HexEncoder_decode s e"
  using hex_decode_no_std [of s e] by (cases "(HexEncoder_decode s e, h)" rule: catch_std.cases) auto

text \<open>Hexadecimal round trip: for every byte string, in either letter case and in either
  error mode, \<open>HexEncoder::decode\<close> gives back what \<open>HexEncoder::encode\<close> (with the
  default empty prefix) was given.\<close>

lemma hex_roundtrip:
  "HexEncoder_decode (HexEncoder_encode raw bLowerCase []) bException = Inr raw"
  by (rule hex_decode_encode)

section \<open>URL encoding: lemmas\<close>

lemma percent_reserved [simp]: "\<not> url_unreserved (CHR ''%'')"
  by (simp add: url_unreserved_def is_lower_def is_upper_def is_digit_def less_eq_char_def)

lemma url_encode_Cons:
  "UrlEncoder_encode (c # cs) =
     (if url_unreserved c then [c] else CHR ''%'' # HexEncoder_encode [c] False []) @ UrlEncoder_encode cs"
  using hex_encode_prefix [of "[c]" False "''%''"] by (simp add: UrlEncoder_encode_def)

lemma url_decode_escape:
  "length h = 2 \<Longrightarrow> UrlEncoder_decode (CHR ''%'' # h @ cs) =
     (case HexEncoder_decode h True of
        Inl e \<Rightarrow> Inl e
      | Inr out \<Rightarrow> map_sum id ((@) out) (UrlEncoder_decode cs))"
  by (simp add: Let_def split: sum.split)

lemma url_decode_encode: "UrlEncoder_decode (UrlEncoder_encode s) = Inr s"
proof (induction s)
  case Nil
  show ?case by (simp add: UrlEncoder_encode_def)
next
  case (Cons c s)
  show ?case
  proof (cases "url_unreserved c")
    case True
    then have "c \<noteq> CHR ''%''" by auto
    with True Cons show ?thesis by (simp add: url_encode_Cons)
  next
    case False
    have "length (HexEncoder_encode [c] False []) = 2" by simp
    from url_decode_escape [OF this] False Cons show ?thesis
      by (simp add: url_encode_Cons hex_decode_encode del: UrlEncoder_decode.simps)
  qed
qed

text \<open>URL round trip: \<open>UrlEncoder::decode\<close> inverts \<open>UrlEncoder::encode\<close> on every
  byte string, and never raises on an encoded one.\<close>

lemma url_roundtrip: "UrlEncoder_decode (UrlEncoder_encode url) = Inr url"
  by (rule url_decode_encode)

text \<open>A string has a bad escape when some percent sign that the scan stops at is followed by at
  least two characters of which one of the next two is not a hexadecimal digit.\<close>

fun bad_escape :: "string \<Rightarrow> bool" where
  "bad_escape [] = False"
| "bad_escape (c # cs) =
     (if c = CHR ''%'' \<and> 2 \<le> length cs
      then (\<exists>d \<in> set (take 2 cs). hex_part d = None) \<or> bad_escape (drop 2 cs)
      else bad_escape cs)"

lemma hex_decode_Inr_iff:
  "(\<exists>r. HexEncoder_decode s True = Inr r) \<longleftrightarrow> \<not> (\<exists>c \<in> set s. hex_part c = None)"
  using hex_decode_loop_None [of s 0 0 "replicate (length s div 2) (CHR '' '')"]
  by (auto simp: HexEncoder_decode_def split: option.splits)

text \<open>\<open>UrlEncoder::decode\<close> raises on exactly the strings with a bad escape, and what it
  raises is the \<open>std::string\<close> thrown by \<open>HexEncoder::decode\<close>: the handler that should
  put the escape back unchanged takes \<open>std::exception\<close> only and never runs.\<close>

lemma url_decode_bad_iff:
  "bad_escape url \<longleftrightarrow>
     (\<exists>h. UrlEncoder_decode url = Inl (ThrowString (h @ '' is not a hex string'')))"
proof (induction url rule: UrlEncoder_decode.induct)
  case 1
  show ?case by simp
next
  case (2 c cs)
  show ?case
  proof (cases "c = CHR ''%'' \<and> 2 \<le> length cs")
    case False
    with 2 show ?thesis by (cases "UrlEncoder_decode cs") auto
  next
    case True
    show ?thesis
    proof (cases "\<exists>d \<in> set (take 2 cs). hex_part d = None")
      case bad: True
      then have "HexEncoder_decode (take 2 cs) True
          = Inl (ThrowString (take 2 cs @ '' is not a hex string''))"
        by (simp only: hex_decode_raises)
      with True bad show ?thesis by auto
    next
      case False
      then obtain r where "HexEncoder_decode (take 2 cs) True = Inr r"
        by (auto simp only: hex_decode_Inr_iff [symmetric])
      with True False 2 show ?thesis by (cases "UrlEncoder_decode (drop 2 cs)") auto
    qed
  qed
qed

section \<open>Numbers in any base: lemmas\<close>

lemma length_kNumberSymbol [simp]: "length kNumberSymbol = 62"
  by (simp add: kNumberSymbol_def)

lemma kMaxBase_eq [simp]: "kMaxBase = 62"
  by (simp add: kMaxBase_def)

lemma any_digit_symbol: "n < 62 \<Longrightarrow> any_digit (kNumberSymbol ! n) = Some (int n)"
proof -
  have "\<forall>n \<in> set [0..<62]. any_digit (kNumberSymbol ! n) = Some (int n)"
    by code_simp
  then show "n < 62 \<Longrightarrow> ?thesis" by simp
qed

text \<open>The digits of a number, least significant first, and their value.\<close>

fun base_digits :: "nat \<Rightarrow> nat \<Rightarrow> nat list" where
  "base_digits n b = (if n < b \<or> b < 2 then [n] else n mod b # base_digits (n div b) b)"

declare base_digits.simps [simp del]

lemma base_digits_less: "2 \<le> b \<Longrightarrow> d \<in> set (base_digits n b) \<Longrightarrow> d < b"
proof (induction n b rule: base_digits.induct)
  case (1 n b)
  then show ?case
    by (cases "n < b") (auto simp: base_digits.simps [of n b])
qed

lemma unat_word_base: "2 \<le> b \<Longrightarrow> b \<le> 62 \<Longrightarrow> unat (word_of_int b :: u64) = nat b"
  by (simp add: unsigned_of_int take_bit_int_eq_self)

lemma any_encode_loop_digits:
  assumes "unat b = k" and "2 \<le> k" and "k \<le> 62"
  shows "any_encode_loop num b acc
     = Some (Inr (rev (map ((!) kNumberSymbol) (base_digits (unat num) k)) @ acc))"
proof (induction "unat num" arbitrary: num acc rule: less_induct)
  case less
  have b0: "b \<noteq> 0" using assms by auto
  have m: "unat (num mod b) = unat num mod k" and d: "unat (num div b) = unat num div k"
    by (simp_all add: unat_mod_distrib unat_div_distrib assms(1))
  have ml: "unat num mod k < 62" using assms(2,3) by (simp add: order_less_le_trans [of _ k])
  show ?case
  proof (cases "unat num < k")
    case True
    then have "num div b = 0" using d by (simp add: word_unat_eq_iff)
    with True b0 ml show ?thesis
      by (simp add: any_encode_loop.simps [of num b acc] base_digits.simps [of "unat num" k] m)
  next
    case False
    then have pos: "0 < unat num div k" using assms(2) by (simp add: div_greater_zero_iff)
    then have "0 < num div b" using d by (simp add: word_less_nat_alt)
    moreover have "unat (num div b) < unat num"
      using d pos assms(2) False by (simp add: div_less_dividend)
    ultimately show ?thesis
      using b0 ml False assms(2) less [of "num div b"]
      by (simp add: any_encode_loop.simps [of num b acc] base_digits.simps [of "unat num" k] m d)
  qed
qed

lemma any_decode_loop_append:
  "any_decode_loop (cs @ ds) b n =
     (case any_decode_loop cs b n of None \<Rightarrow> None | Some m \<Rightarrow> any_decode_loop ds b m)"
  by (induction cs arbitrary: n) (auto split: option.splits)

lemma any_decode_digits:
  "2 \<le> k \<Longrightarrow> k \<le> 62 \<Longrightarrow>
   any_decode_loop (rev (map ((!) kNumberSymbol) (base_digits n k))) (of_nat k) 0
     = Some (of_nat n)"
proof (induction n k rule: base_digits.induct)
  case (1 n k)
  show ?case
  proof (cases "n < k")
    case True
    with 1 show ?thesis by (simp add: base_digits.simps [of n k] any_digit_symbol)
  next
    case False
    have "n mod k < 62" using 1 by (simp add: order_less_le_trans [of _ k])
    moreover have "of_nat (n div k) * of_nat k + (of_nat (n mod k) :: u64) = of_nat n"
      by (metis div_mult_mod_eq of_nat_add of_nat_mult)
    ultimately show ?thesis
      using False 1
      by (simp add: base_digits.simps [of n k] any_decode_loop_append any_digit_symbol)
  qed
qed

text \<open>Round trip in any base: for a base between 2 and 62 \<open>AnyBase::encode\<close> returns, and
  \<open>AnyBase::decode\<close> in the same base gives the number back, for all 64-bit numbers.\<close>

lemma anybase_roundtrip:
  assumes "2 \<le> base" and "base \<le> 62"
  shows "\<exists>s. AnyBase_encode num base = Some (Inr (Some s)) \<and> AnyBase_decode s base = Some num"
proof -
  let ?k = "nat base" and ?b = "word_of_int base :: u64"
  let ?s = "rev (map ((!) kNumberSymbol) (base_digits (unat num) ?k))"
  have k: "unat ?b = ?k" using assms by (rule unat_word_base)
  have "2 \<le> ?k" and "?k \<le> 62" using assms by simp_all
  then have "any_encode_loop num ?b [] = Some (Inr ?s)"
    using any_encode_loop_digits [OF k, of num "[]"] by simp
  moreover have "any_decode_loop ?s ?b 0 = Some num"
    using any_decode_digits [OF \<open>2 \<le> ?k\<close> \<open>?k \<le> 62\<close>, of "unat num"] assms by simp
  ultimately show ?thesis
    using assms by (simp add: AnyBase_encode_def AnyBase_decode_def)
qed

theorem anybase_roundtrip_witness:
  "\<exists>s. AnyBase_encode 255 16 = Some (Inr (Some s)) \<and> AnyBase_decode s 16 = Some 255"
  by (rule anybase_roundtrip) simp_all

text \<open>Outside that range the function is not total: base 1 never returns on a positive number, and
  base 0 traps.\<close>

lemma any_encode_base0: "AnyBase_encode num 0 = Some (Inl DivideByZero)"
  by (simp add: AnyBase_encode_def any_encode_loop.simps)

section \<open>Base64 in URL-safe mode: lemmas\<close>

definition b64_char :: "char \<Rightarrow> bool" where
  "b64_char c \<longleftrightarrow> is_alnum c \<or> c = CHR ''+'' \<or> c = CHR ''/''"

definition b64url_char :: "char \<Rightarrow> bool" where
  "b64url_char c \<longleftrightarrow> is_alnum c \<or> c = CHR ''-'' \<or> c = CHR ''_''"

lemma remove_crlf_id: "(\<And>c. c \<in> set s \<Longrightarrow> c \<noteq> CHR 0x0D) \<Longrightarrow> remove_crlf s = s"
  by (induction s rule: remove_crlf.induct) auto

lemma b64url_not_cr: "b64url_char c \<Longrightarrow> c \<noteq> CHR 0x0D"
  by (auto simp: b64url_char_def is_alnum_def is_digit_def is_lower_def is_upper_def less_eq_char_def)

lemma b64_not_eq: "b64_char c \<Longrightarrow> c \<noteq> CHR ''=''"
  by (auto simp: b64_char_def is_alnum_def is_digit_def is_lower_def is_upper_def less_eq_char_def)

lemma b64_std_map:
  "b64_std s = map (\<lambda>c. if c = CHR ''-'' then CHR ''+'' else if c = CHR ''_'' then CHR ''/'' else c) s"
  by (simp add: b64_std_def replace_char_def)

lemma b64url_to_b64:
  "(\<And>c. c \<in> set s \<Longrightarrow> b64url_char c) \<Longrightarrow> d \<in> set (b64_std s) \<Longrightarrow> b64_char d"
  unfolding b64_std_map by (force simp: b64url_char_def b64_char_def split: if_splits)

lemma takeWhile_rev_none: "(\<And>d. d \<in> set t \<Longrightarrow> d \<noteq> CHR ''='') \<Longrightarrow> takeWhile (\<lambda>c. c = CHR ''='') (rev t) = []"
  by (cases t rule: rev_cases) auto

lemma length_b64_std [simp]: "length (b64_std s) = length s"
  by (simp add: b64_std_def replace_char_def)

lemma Base64_decode_url:
  assumes "remove_crlf target = target" and "target \<noteq> []" and "length target = 4 * k + r" and "r < 4"
    and "takeWhile (\<lambda>c. c = CHR ''='') (rev (b64_std target)) = []"
  shows "Base64_decode dec decoded_size target True =
    (let d = dec (b64_std target @ replicate r (CHR ''=''))
     in if (int (decoded_size (4 * k + r + r)) - int r) mod 2 ^ 64 \<noteq> int (length d) then [] else d)"
  using assms by (simp add: Base64_decode_def Let_def)

lemma decode_size_unpadded:
  fixes k r :: nat
  assumes "r < 4" and "k < 2 ^ 60"
  shows "(int ((4 * k + r + r) div 4 * 3) - int r) mod 2 ^ 64 = int (3 * k + (r - 1))
     \<longleftrightarrow> r = 0 \<or> r = 2"
proof -
  have kb: "3 * int k + 4 < 2 ^ 64" using assms(2) by simp
  consider "r = 0" | "r = 1" | "r = 2" | "r = 3" using assms(1) by linarith
  then show ?thesis
  proof cases
    case 2
    have "(3 * int k - 1) mod 2 ^ 64 \<noteq> 3 * int k"
      using kb by (cases "k = 0") (simp_all add: mod_pos_pos_trivial)
    moreover have "(4 * k + 1 + 1) div 4 * 3 = 3 * k" by presburger
    ultimately show ?thesis using 2 by (simp add: mult.commute)
  next
    case 4
    have "(4 * k + 3 + 3) div 4 * 3 = 3 * k + 3" by presburger
    with 4 kb show ?thesis by (simp add: mod_pos_pos_trivial)
  next
    case 3
    have "(4 * k + 2 + 2) div 4 * 3 = 3 * k + 3" by presburger
    with 3 kb show ?thesis by (simp add: mod_pos_pos_trivial)
  qed (use kb in \<open>simp add: mod_pos_pos_trivial\<close>)
qed

text \<open>\<open>Base64::decode\<close> in URL-safe mode on unpadded input. Beast's \<open>decoded_size(n)\<close>
  is \<open>n / 4 * 3\<close>, and its decoder reads up to the padding and returns three bytes for each
  four characters and one byte less than the characters left over. The code then accepts unpadded
  input of a length that is 0 or 2 modulo 4; on a length that is 3 modulo 4, which encodes a
  message of length 2 modulo 3, it appends three pad characters in place of one and answers with
  the empty string, its value for a malformed input.\<close>

lemma base64_url_unpadded:
  assumes decoded_size: "\<And>n. decoded_size n = n div 4 * 3"
    and dec_length: "\<And>s n. (\<And>c. c \<in> set s \<Longrightarrow> b64_char c) \<Longrightarrow>
      length (dec (s @ replicate n (CHR ''=''))) = 3 * (length s div 4) + (length s mod 4 - 1)"
    and url: "\<And>c. c \<in> set target \<Longrightarrow> b64url_char c"
    and small: "target \<noteq> []" "length target < 2 ^ 60"
  shows "Base64_decode dec decoded_size target True =
    (if length target mod 4 = 0 \<or> length target mod 4 = 2
     then dec (b64_std target @ replicate (length target mod 4) (CHR ''=''))
     else [])"
proof -
  define t where "t = b64_std target"
  define r where "r = length target mod 4"
  define k where "k = length target div 4"
  have len: "length t = 4 * k + r" and r4: "r < 4"
    by (simp_all add: t_def r_def k_def)
  have b64: "b64_char c" if "c \<in> set t" for c
    using that url b64url_to_b64 unfolding t_def by blast
  have dl: "length (dec (t @ replicate r (CHR ''=''))) = 3 * k + (r - 1)"
    using dec_length [of t r] b64 r4 by (simp add: len)
  have nocr: "remove_crlf target = target" using url by (intro remove_crlf_id b64url_not_cr)
  have app: "takeWhile (\<lambda>c. c = CHR ''='') (rev t) = []"
    using takeWhile_rev_none [of t] b64 b64_not_eq by blast
  have "Base64_decode dec decoded_size target True =
    (if (int ((4 * k + r + r) div 4 * 3) - int r) mod 2 ^ 64 \<noteq> int (3 * k + (r - 1)) then []
     else dec (t @ replicate r (CHR ''='')))"
    using small(1) nocr app dl len r4 unfolding t_def
    by (simp add: Base64_decode_url decoded_size)
  also have "\<dots> = (if r = 0 \<or> r = 2 then dec (t @ replicate r (CHR ''='')) else [])"
    using decode_size_unpadded [OF r4, of k] small(2) by (simp add: k_def)
  finally show ?thesis by (simp add: t_def r_def)
qed

text \<open>A decoder with the documented lengths, for the witness.\<close>

definition demo_dec :: "string \<Rightarrow> string" where
  "demo_dec t = (let m = length (takeWhile (\<lambda>c. c \<noteq> CHR ''='') t)
     in replicate (3 * (m div 4) + (m mod 4 - 1)) (CHR ''x''))"

lemma length_demo_dec:
  assumes "\<And>c. c \<in> set s \<Longrightarrow> b64_char c"
  shows "length (demo_dec (s @ replicate n (CHR ''=''))) = 3 * (length s div 4) + (length s mod 4 - 1)"
proof -
  have "takeWhile (\<lambda>c. c \<noteq> CHR ''='') (s @ replicate n (CHR ''='')) = s"
    using assms b64_not_eq by (subst takeWhile_append2) (auto simp: takeWhile_replicate)
  then show ?thesis by (simp add: demo_dec_def Let_def)
qed

lemma demo_dec_YQ: "demo_dec (b64_std ''YQ'' @ ''=='') = ''x''"
  by code_simp

theorem base64_url_unpadded_witness:
  "Base64_decode demo_dec (\<lambda>n. n div 4 * 3) ''YWI'' True = []
   \<and> Base64_decode demo_dec (\<lambda>n. n div 4 * 3) ''YQ'' True = ''x''"
proof -
  have url: "b64url_char c" if "c \<in> set ''YWI'' \<or> c \<in> set ''YQ''" for c
    using that by (auto simp: b64url_char_def is_alnum_def is_upper_def less_eq_char_def)
  have "Base64_decode demo_dec (\<lambda>n. n div 4 * 3) ''YWI'' True = []"
    by (subst base64_url_unpadded [of "\<lambda>n. n div 4 * 3" demo_dec])
      (auto simp: length_demo_dec url)
  moreover have "Base64_decode demo_dec (\<lambda>n. n div 4 * 3) ''YQ'' True = ''x''"
    by (subst base64_url_unpadded [of "\<lambda>n. n div 4 * 3" demo_dec])
      (auto simp: length_demo_dec url demo_dec_YQ)
  ultimately show ?thesis ..
qed

end
