(* ===== verification/Bit_Vector.thy ===== *)
theory Bit_Vector
  imports Bcm_Prelude
begin

text \<open>
  One bit of a \<open>std::vector<uint8_t>\<close>, the way \<open>BloomFilters\<close> and
  \<open>BaseFeatures\<close> address it: bit \<open>i\<close> is bit \<open>7 & i\<close> of byte \<open>i >> 3\<close>.
  The three expressions of the source are definitions here, and the lemmas say that they read and
  write an array of bits.
\<close>

definition bv_index :: "u32 \<Rightarrow> nat" where
  "bv_index i = unat (drop_bit 3 i)"

definition bv_mask :: "u32 \<Rightarrow> u8" where
  "bv_mask i = push_bit (unat (7 AND i)) 1"

definition bv_test :: "u8 list \<Rightarrow> u32 \<Rightarrow> bool" where
  "bv_test bs i \<longleftrightarrow> bs ! bv_index i AND bv_mask i \<noteq> 0"

definition bv_set :: "u8 list \<Rightarrow> u32 \<Rightarrow> u8 list" where
  "bv_set bs i = bs[bv_index i := bs ! bv_index i OR bv_mask i]"

definition bv_clear :: "u8 list \<Rightarrow> u32 \<Rightarrow> u8 list" where
  "bv_clear bs i = bs[bv_index i := bs ! bv_index i AND NOT (bv_mask i)]"

section \<open>The position of a bit\<close>

lemma bv_index_eq: "bv_index i = unat i div 8"
  by (simp add: bv_index_def drop_bit_eq_div unat_div_distrib)

lemma unat_and_7: "unat (7 AND i :: u32) = unat i mod 8"
proof -
  have "(7 :: u32) = mask 3" by (simp add: mask_eq_exp_minus_1)
  then have "7 AND i = take_bit 3 i" by (simp add: take_bit_eq_mask and.commute)
  then show ?thesis by (simp add: take_bit_eq_mod unat_mod_distrib)
qed

lemma bv_mask_eq: "bv_mask i = push_bit (unat i mod 8) 1"
  by (simp add: bv_mask_def unat_and_7)

lemma bit_bv_mask: "bit (bv_mask i) n \<longleftrightarrow> n = unat i mod 8"
proof -
  have "unat i mod 8 < 8" by simp
  then show ?thesis unfolding bv_mask_eq push_bit_of_1 by (auto simp: bit_exp_iff)
qed

lemma bv_test_eq: "bv_test bs i \<longleftrightarrow> bit (bs ! (unat i div 8)) (unat i mod 8)"
proof -
  have "x AND bv_mask i = 0 \<longleftrightarrow> \<not> bit x (unat i mod 8)" for x
    unfolding bit_eq_iff [where ?'a = u8] bit_and_iff bit_bv_mask
    by (auto dest!: spec [of _ "unat i mod 8"])
  then show ?thesis by (simp add: bv_test_def bv_index_eq)
qed

lemma bv_pos_inj: "unat i div 8 = unat j div 8 \<Longrightarrow> unat i mod 8 = unat j mod 8 \<Longrightarrow> i = (j :: u32)"
  by (metis div_mult_mod_eq word_unat_eq_iff)

section \<open>Reading after writing\<close>

lemma length_bv_set [simp]: "length (bv_set bs i) = length bs"
  by (simp add: bv_set_def)

lemma length_bv_clear [simp]: "length (bv_clear bs i) = length bs"
  by (simp add: bv_clear_def)

lemma bv_test_set:
  assumes "unat i div 8 < length bs" and "unat j div 8 < length bs"
  shows "bv_test (bv_set bs i) j \<longleftrightarrow> j = i \<or> bv_test bs j"
proof (cases "unat i div 8 = unat j div 8")
  case True
  with assms show ?thesis
    by (auto simp: bv_test_eq bv_set_def bv_index_eq bit_or_iff bit_bv_mask
        dest: bv_pos_inj [of j i, OF sym])
next
  case False
  then show ?thesis by (auto simp: bv_test_eq bv_set_def bv_index_eq)
qed

lemma bv_test_clear:
  assumes "unat i div 8 < length bs" and "unat j div 8 < length bs"
  shows "bv_test (bv_clear bs i) j \<longleftrightarrow> j \<noteq> i \<and> bv_test bs j"
proof (cases "unat i div 8 = unat j div 8")
  case True
  with assms show ?thesis
    by (auto simp: bv_test_eq bv_clear_def bv_index_eq bit_and_iff bit_not_iff bit_bv_mask
        dest: bv_pos_inj [of j i, OF sym])
next
  case False
  then show ?thesis by (auto simp: bv_test_eq bv_clear_def bv_index_eq)
qed

lemma bv_in_range: "unat i < length bs * 8 \<Longrightarrow> unat i div 8 < length bs"
  by (simp add: less_mult_imp_div_less)

section \<open>Bit arrays\<close>

text \<open>What the users of a bit array rely on: inside its range, a bit reads as it was last written, and no
  write changes another bit or the range.\<close>

locale bit_array =
  fixes valid :: "'a \<Rightarrow> 'i \<Rightarrow> bool"
    and test :: "'a \<Rightarrow> 'i \<Rightarrow> bool"
    and setb :: "'a \<Rightarrow> 'i \<Rightarrow> 'a"
    and clearb :: "'a \<Rightarrow> 'i \<Rightarrow> 'a"
  assumes valid_set: "valid (setb a i) j = valid a j"
    and valid_clear: "valid (clearb a i) j = valid a j"
    and test_set: "valid a i \<Longrightarrow> valid a j \<Longrightarrow> test (setb a i) j \<longleftrightarrow> j = i \<or> test a j"
    and test_clear: "valid a i \<Longrightarrow> valid a j \<Longrightarrow> test (clearb a i) j \<longleftrightarrow> j \<noteq> i \<and> test a j"
begin

lemma valid_fold: "valid (fold (\<lambda>i a. setb a i) is a) j = valid a j"
  by (induction "is" arbitrary: a) (simp_all add: valid_set)

lemma test_fold:
  "\<forall>i \<in> set is. valid a i \<Longrightarrow> valid a j \<Longrightarrow> test (fold (\<lambda>i a. setb a i) is a) j \<longleftrightarrow> j \<in> set is \<or> test a j"
  by (induction "is" arbitrary: a) (auto simp: valid_set test_set)

text \<open>A list of writes: each bit reads as its last write, or as before.\<close>

lemma test_writes:
  "\<forall>(i, b) \<in> set ws. valid a i \<Longrightarrow> valid a j \<Longrightarrow>
   test (fold (\<lambda>(i, b) a. if b then setb a i else clearb a i) ws a) j
     = (case map_of (rev ws) j of Some b \<Rightarrow> b | None \<Rightarrow> test a j)"
proof (induction ws arbitrary: a)
  case (Cons w ws)
  obtain i b where w: "w = (i, b)" by (cases w)
  let ?a = "if b then setb a i else clearb a i"
  from Cons.prems w have v: "valid a i" "valid a j" "\<forall>(i, b) \<in> set ws. valid ?a i" "valid ?a j"
    by (auto simp: valid_set valid_clear)
  have "test ?a j = (if j = i then b else test a j)" using v(1,2) by (simp add: test_set test_clear)
  with Cons.IH [OF v(3,4)] show ?case by (cases b; cases "map_of (rev ws) j") (auto simp: w map_add_def)
qed simp

end

definition bv_valid :: "u8 list \<Rightarrow> u32 \<Rightarrow> bool" where
  "bv_valid bs i \<longleftrightarrow> unat i < length bs * 8"

interpretation bv: bit_array bv_valid bv_test bv_set bv_clear
  by unfold_locales (auto simp: bv_valid_def bv_test_set bv_test_clear bv_in_range)

lemma bv_test_zero: "bv_valid bs i \<Longrightarrow> \<forall>b \<in> set bs. b = 0 \<Longrightarrow> \<not> bv_test bs i"
proof -
  assume v: "bv_valid bs i" and all: "\<forall>b \<in> set bs. b = 0"
  then have "bs ! (unat i div 8) \<in> set bs" using bv_in_range [of i bs] by (intro nth_mem) (simp add: bv_valid_def)
  with all have "bs ! (unat i div 8) = 0" by blast
  then show ?thesis by (simp add: bv_test_eq)
qed

lemma bv_test_ones: "bv_valid bs i \<Longrightarrow> \<forall>b \<in> set bs. b = 0xFF \<Longrightarrow> bv_test bs i"
proof -
  assume v: "bv_valid bs i" and all: "\<forall>b \<in> set bs. b = 0xFF"
  then have "bs ! (unat i div 8) \<in> set bs" using bv_in_range [of i bs] by (intro nth_mem) (simp add: bv_valid_def)
  with all have "bs ! (unat i div 8) = 0xFF" by blast
  also have "(0xFF :: u8) = mask 8" by (simp add: mask_eq_exp_minus_1)
  finally show ?thesis by (simp add: bv_test_eq bit_mask_iff)
qed

end
