(* ===== verification/Std_Map.thy ===== *)
theory Std_Map
  imports Bcm_Prelude
begin

text \<open>
  \<open>std::map\<close> where the program depends on its order: an association list sorted by strictly
  increasing keys, which is what an iteration from \<open>begin()\<close> to \<open>end()\<close> visits.
  \<open>sm_put\<close> is \<open>m[k] = v\<close>, \<open>sm_emplace\<close> is \<open>m.emplace(k, v)\<close> (no effect when
  the key is there), \<open>sm_del\<close> is \<open>m.erase(k)\<close>, \<open>find\<close> is \<^const>\<open>map_of\<close>,
  and \<open>sm_lower_bound\<close> and \<open>sm_upper_bound\<close> return the rest of the sequence from the
  iterator on. The locale \<open>std_map\<close> is the interface its users rely on.
\<close>

section \<open>The container\<close>

fun sm_put :: "'k::linorder \<Rightarrow> 'v \<Rightarrow> ('k \<times> 'v) list \<Rightarrow> ('k \<times> 'v) list" where
  "sm_put k v [] = [(k, v)]"
| "sm_put k v (e # m) =
     (if fst e < k then e # sm_put k v m
      else if fst e = k then (k, v) # m
      else (k, v) # e # m)"

definition sm_emplace :: "'k::linorder \<Rightarrow> 'v \<Rightarrow> ('k \<times> 'v) list \<Rightarrow> ('k \<times> 'v) list" where
  "sm_emplace k v m = (case map_of m k of None \<Rightarrow> sm_put k v m | Some _ \<Rightarrow> m)"

definition sm_del :: "'k \<Rightarrow> ('k \<times> 'v) list \<Rightarrow> ('k \<times> 'v) list" where
  "sm_del k m = filter (\<lambda>e. fst e \<noteq> k) m"

definition sm_lower_bound :: "'k::linorder \<Rightarrow> ('k \<times> 'v) list \<Rightarrow> ('k \<times> 'v) list" where
  "sm_lower_bound k m = dropWhile (\<lambda>e. fst e < k) m"

definition sm_upper_bound :: "'k::linorder \<Rightarrow> ('k \<times> 'v) list \<Rightarrow> ('k \<times> 'v) list" where
  "sm_upper_bound k m = dropWhile (\<lambda>e. fst e \<le> k) m"

definition sm_ok :: "('k::linorder \<times> 'v) list \<Rightarrow> bool" where
  "sm_ok m \<longleftrightarrow> sorted_wrt (<) (map fst m)"

section \<open>Laws of the container\<close>

lemma sm_ok_Nil [simp]: "sm_ok []"
  by (simp add: sm_ok_def)

lemma sm_ok_Cons: "sm_ok (e # m) \<longleftrightarrow> (\<forall>k \<in> fst ` set m. fst e < k) \<and> sm_ok m"
  by (simp add: sm_ok_def)

lemma sm_ok_distinct: "sm_ok m \<Longrightarrow> distinct (map fst m)"
  by (simp add: sm_ok_def strict_sorted_iff)

lemma fst_set_sm_put: "fst ` set (sm_put k v m) = insert k (fst ` set m)"
  by (induction m) auto

lemma sm_ok_put [simp]: "sm_ok m \<Longrightarrow> sm_ok (sm_put k v m)"
proof (induction m)
  case Nil
  show ?case by (simp add: sm_ok_Cons)
next
  case (Cons e m)
  then show ?case by (fastforce simp: sm_ok_Cons fst_set_sm_put)
qed

lemma map_of_sm_put [simp]: "map_of (sm_put k v m) = (map_of m)(k \<mapsto> v)"
  by (induction m) (auto simp: fun_eq_iff)

lemma map_of_sm_emplace:
  "map_of (sm_emplace k v m) = (map_of m)(k \<mapsto> (case map_of m k of None \<Rightarrow> v | Some w \<Rightarrow> w))"
  by (auto simp: sm_emplace_def fun_eq_iff split: option.splits)

lemma sm_ok_emplace [simp]: "sm_ok m \<Longrightarrow> sm_ok (sm_emplace k v m)"
  by (simp add: sm_emplace_def split: option.splits)

lemma map_of_sm_del [simp]: "map_of (sm_del k m) = (map_of m)(k := None)"
  by (induction m) (auto simp: sm_del_def fun_eq_iff)

lemma sm_ok_del [simp]: "sm_ok m \<Longrightarrow> sm_ok (sm_del k m)"
proof (induction m)
  case Nil
  show ?case by (simp add: sm_del_def)
next
  case (Cons e m)
  then show ?case by (auto simp: sm_del_def sm_ok_Cons)
qed

section \<open>The interface of a map, and what its clients derive from it\<close>

locale std_map =
  fixes emp :: 'm
    and find :: "'m \<Rightarrow> 'k \<Rightarrow> 'v option"
    and put :: "'k \<Rightarrow> 'v \<Rightarrow> 'm \<Rightarrow> 'm"
    and del :: "'k \<Rightarrow> 'm \<Rightarrow> 'm"
    and ok :: "'m \<Rightarrow> bool"
  assumes find_emp: "find emp = Map.empty"
    and find_put: "find (put k v m) = (find m)(k \<mapsto> v)"
    and find_del: "find (del k m) = (find m)(k := None)"
    and ok_emp: "ok emp"
    and ok_put: "ok m \<Longrightarrow> ok (put k v m)"
    and ok_del: "ok m \<Longrightarrow> ok (del k m)"
begin

lemma find_fold_put:
  "find (fold (\<lambda>k. put k v) ks m) k' = (if k' \<in> set ks then Some v else find m k')"
  by (induction ks arbitrary: m) (auto simp: find_put)

lemma find_fold_del:
  "find (fold del ks m) k' = (if k' \<in> set ks then None else find m k')"
  by (induction ks arbitrary: m) (auto simp: find_del)

lemma find_fold_put_pairs:
  "find (fold (\<lambda>e. put (fst e) (snd e)) es m) = find m ++ map_of (rev es)"
proof (induction es arbitrary: m)
  case Nil
  show ?case by simp
next
  case (Cons e es)
  then show ?case by (simp add: find_put map_add_def fun_eq_iff split: option.splits)
qed

lemma ok_fold_put: "ok m \<Longrightarrow> ok (fold (\<lambda>k. put k v) ks m)"
  by (induction ks arbitrary: m) (auto intro: ok_put)

lemma ok_fold_del: "ok m \<Longrightarrow> ok (fold del ks m)"
  by (induction ks arbitrary: m) (auto intro: ok_del)

lemma fold_del_put:
  "find (fold del ks (fold (\<lambda>k. put k v) ks m)) k' = (if k' \<in> set ks then None else find m k')"
  by (simp add: find_fold_del find_fold_put)

end

interpretation smap: std_map "[]" map_of sm_put sm_del sm_ok
  by unfold_locales (auto simp: fun_eq_iff)

section \<open>Bounds\<close>

lemma sm_lower_bound_sub: "e \<in> set (sm_lower_bound k m) \<Longrightarrow> e \<in> set m"
  by (auto simp: sm_lower_bound_def dest: set_dropWhileD)

lemma sm_upper_bound_sub: "e \<in> set (sm_upper_bound k m) \<Longrightarrow> e \<in> set m"
  by (auto simp: sm_upper_bound_def dest: set_dropWhileD)

lemma sm_lower_bound_eq: "sm_ok m \<Longrightarrow> sm_lower_bound k m = filter (\<lambda>e. k \<le> fst e) m"
proof (induction m)
  case Nil
  show ?case by (simp add: sm_lower_bound_def)
next
  case (Cons e m)
  have "filter (\<lambda>e. k \<le> fst e) m = m" if "k \<le> fst e"
    using Cons.prems that by (force simp: sm_ok_Cons filter_id_conv)
  with Cons show ?case by (auto simp: sm_lower_bound_def sm_ok_Cons)
qed

lemma sm_upper_bound_eq: "sm_ok m \<Longrightarrow> sm_upper_bound k m = filter (\<lambda>e. k < fst e) m"
proof (induction m)
  case Nil
  show ?case by (simp add: sm_upper_bound_def)
next
  case (Cons e m)
  have "filter (\<lambda>e. k < fst e) m = m" if "k < fst e"
    using Cons.prems that by (force simp: sm_ok_Cons filter_id_conv)
  with Cons show ?case by (auto simp: sm_upper_bound_def sm_ok_Cons)
qed

lemma alist_of_map_of: "distinct (map fst m) \<Longrightarrow> map (\<lambda>k. (k, the (map_of m k))) (map fst m) = m"
  by (auto simp: comp_def intro!: map_idI)

text \<open>A sorted map is determined by its lookups.\<close>

lemma sm_ok_ext:
  assumes a: "sm_ok a" and b: "sm_ok b" and eq: "map_of a = map_of b"
  shows "a = b"
proof -
  have "set (map fst a) = set (map fst b)" using eq by (metis dom_map_of_conv_image_fst list.set_map)
  then have "map fst a = map fst b"
    using a b unfolding sm_ok_def by (simp add: strict_sorted_equal)
  then show ?thesis
    using alist_of_map_of [OF sm_ok_distinct [OF a]] alist_of_map_of [OF sm_ok_distinct [OF b]] eq
    by metis
qed

lemma sm_ok_filter: "sm_ok m \<Longrightarrow> sm_ok (filter P m)"
  by (induction m) (auto simp: sm_ok_Cons)

lemma sm_ok_hd_least: "sm_ok m \<Longrightarrow> e \<in> set m \<Longrightarrow> fst (hd m) \<le> fst e"
  by (cases m) (auto simp: sm_ok_Cons)

end
