(* ===== verification/Consistent_Hash.thy ===== *)
theory Consistent_Hash
  imports Std_Map
begin

text \<open>
  \<open>src/utils/consistent_hash.h\<close>: the FNV hash and the ring \<open>UserConsistentFnvHash\<close>
  that spreads groups and users over servers. The ring is the sorted map \<open>server_circle\<close> from
  32-bit positions to server names; the lookup takes the first position not below the key's hash
  and wraps to the first of all. Integers keep their width and wrap. The key \<open>uint64_t\<close> is
  hashed through its bytes in memory, which is little-endian on the platform of the build. The
  shared mutex makes each method one atomic step.
\<close>

unbundle bit_operations_syntax

section \<open>FnvHashFunction\<close>

definition fnv_step :: "u32 \<Rightarrow> u8 \<Rightarrow> u32" where
  "fnv_step uHash b = (uHash XOR ucast b) * 16777619"

definition FnvHashFunction_hash :: "u8 list \<Rightarrow> u32" where
  "FnvHashFunction_hash key =
     (let h0 = foldl fnv_step 0x811C9DC5 key;
          h1 = h0 + push_bit 13 h0;
          h2 = h1 XOR drop_bit 7 h1;
          h3 = h2 + push_bit 3 h2;
          h4 = h3 XOR drop_bit 17 h3
      in h4 + push_bit 5 h4)"

definition le_bytes :: "nat \<Rightarrow> 'a::len word \<Rightarrow> u8 list" where
  "le_bytes n w = map (\<lambda>k. ucast (drop_bit (8 * k) w)) [0..<n]"

definition FnvHashFunction_hash64 :: "u64 \<Rightarrow> u32" where
  "FnvHashFunction_hash64 i64 = FnvHashFunction_hash (le_bytes 8 i64)"

section \<open>UserConsistentFnvHash\<close>

record UserConsistentFnvHash =
  numberOfReplicas :: u32
  server_circle :: "(u32 \<times> string) list"

definition kHashBuf :: nat where
  "kHashBuf = 50"

text \<open>\<open>memcpy(buf + pos, bs, sizeof bs)\<close> inside the buffer.\<close>

definition buf_write :: "u8 list \<Rightarrow> nat \<Rightarrow> u8 list \<Rightarrow> u8 list" where
  "buf_write buf pos bs = take pos buf @ bs @ drop (pos + length bs) buf"

text \<open>\<open>snprintf(hashbuf, 50, "%s", s.c_str())\<close> on a zeroed buffer: at most 49 bytes, up to
  the first NUL.\<close>

definition add_buf :: "string \<Rightarrow> u8 list" where
  "add_buf s =
     (let str = take (kHashBuf - 1) (map byte_of (takeWhile (\<lambda>c. c \<noteq> CHR 0x00) s))
      in str @ replicate (kHashBuf - length str) 0)"

text \<open>One turn of the loop of \<open>AddServer\<close>; the buffer is reused from turn to turn. The
  index goes behind the name, at most at \<open>sizeof(hashbuf) - sizeof(i) = 46\<close>.\<close>

definition add_turn ::
    "string \<Rightarrow> u32 \<Rightarrow> u8 list \<times> (u32 \<times> string) list \<Rightarrow> u8 list \<times> (u32 \<times> string) list" where
  "add_turn s i st =
     (let (buf, circle) = st;
          strLen0 = word_of_nat (length s) :: u32;
          strLen = (if 46 < strLen0 then 46 else strLen0);
          buf' = buf_write buf (unat strLen) (le_bytes 4 i);
          uValue = FnvHashFunction_hash buf'
      in (buf', sm_put uValue s circle))"

definition AddServer :: "string \<Rightarrow> UserConsistentFnvHash \<Rightarrow> UserConsistentFnvHash" where
  "AddServer s h = h\<lparr>server_circle :=
     snd (fold (add_turn s) (map word_of_nat [0..<unat (numberOfReplicas h)])
       (add_buf s, server_circle h))\<rparr>"

text \<open>\<open>RemoveServer\<close> copies the whole name, then the index behind it, with no bound: past
  the buffer's end that is undefined behaviour, \<open>OutOfBounds\<close> here.\<close>

definition remove_turn ::
    "string \<Rightarrow> u32 \<Rightarrow> u8 list \<times> (u32 \<times> string) list \<Rightarrow> u8 list \<times> (u32 \<times> string) list" where
  "remove_turn s i st =
     (let (buf, circle) = st;
          buf' = buf_write buf (length s) (le_bytes 4 i);
          uValue = FnvHashFunction_hash buf'
      in (buf', sm_del uValue circle))"

definition RemoveServer :: "string \<Rightarrow> UserConsistentFnvHash \<Rightarrow> cpp_error + UserConsistentFnvHash" where
  "RemoveServer s h =
     (if kHashBuf < length s \<or> (0 < numberOfReplicas h \<and> kHashBuf - 4 < length s)
      then Inl OutOfBounds
      else Inr (h\<lparr>server_circle :=
        snd (fold (remove_turn s) (map word_of_nat [0..<unat (numberOfReplicas h)])
          (map byte_of s @ replicate (kHashBuf - length s) 0, server_circle h))\<rparr>))"

definition circle_lookup :: "u32 \<Rightarrow> (u32 \<times> string) list \<Rightarrow> string" where
  "circle_lookup hash circle =
     (case circle of
        [] \<Rightarrow> ''''
      | first # _ \<Rightarrow>
          (case sm_lower_bound hash circle of
             [] \<Rightarrow> snd first
           | it # _ \<Rightarrow> snd it))"

definition GetServer :: "u64 \<Rightarrow> UserConsistentFnvHash \<Rightarrow> string" where
  "GetServer dwGroupid h = circle_lookup (FnvHashFunction_hash64 dwGroupid) (server_circle h)"

definition GetServer_str :: "string \<Rightarrow> UserConsistentFnvHash \<Rightarrow> string" where
  "GetServer_str sHashKey h =
     circle_lookup (FnvHashFunction_hash (map byte_of sHashKey)) (server_circle h)"

definition ring_clear :: "UserConsistentFnvHash \<Rightarrow> UserConsistentFnvHash" where
  "ring_clear h = h\<lparr>server_circle := []\<rparr>"

text \<open>The invariant: the circle is a sorted map.\<close>

definition ring_ok :: "UserConsistentFnvHash \<Rightarrow> bool" where
  "ring_ok h \<longleftrightarrow> sm_ok (server_circle h)"

section \<open>The positions a server occupies\<close>

definition index_pos :: "string \<Rightarrow> nat" where
  "index_pos s = unat (min (word_of_nat (length s)) 46 :: u32)"

definition server_positions :: "string \<Rightarrow> u32 \<Rightarrow> u32 list" where
  "server_positions s n =
     map (\<lambda>i. FnvHashFunction_hash (buf_write (add_buf s) (index_pos s)
       (le_bytes 4 (word_of_nat i :: u32)))) [0..<unat n]"

lemma length_le_bytes [simp]: "length (le_bytes n w) = n"
  by (simp add: le_bytes_def)

lemma index_pos_le: "index_pos s \<le> 46"
proof -
  have "unat (min (word_of_nat (length s)) 46 :: u32) \<le> unat (46 :: u32)"
    by (metis min.cobounded2 word_le_nat_alt)
  then show ?thesis by (simp add: index_pos_def)
qed

lemma index_pos_short: "length s \<le> 46 \<Longrightarrow> index_pos s = length s"
proof -
  assume len: "length s \<le> 46"
  then have "unat (word_of_nat (length s) :: u32) = length s"
    by (simp add: unat_of_nat)
  with len show ?thesis by (simp add: index_pos_def min_def word_le_nat_alt)
qed

lemma buf_write_twice [simp]:
  "length a = length b \<Longrightarrow> pos + length b \<le> length buf \<Longrightarrow>
   buf_write (buf_write buf pos a) pos b = buf_write buf pos b"
  by (simp add: buf_write_def)

lemma length_buf_write [simp]:
  "pos + length b \<le> length buf \<Longrightarrow> length (buf_write buf pos b) = length buf"
  by (simp add: buf_write_def)

lemma length_add_buf [simp]: "length (add_buf s) = 50"
  by (simp add: add_buf_def kHashBuf_def Let_def)

text \<open>Overwriting the same four bytes in every turn has the same effect as starting each turn from
  the first buffer.\<close>

lemma fold_turns:
  assumes "\<And>i st. turn i st = (buf_write (fst st) pos (le_bytes 4 (i :: u32)),
      upd (FnvHashFunction_hash (buf_write (fst st) pos (le_bytes 4 i))) (snd st))"
    and "pos + 4 \<le> length buf"
  shows "snd (fold turn is (buf, c))
      = fold upd (map (\<lambda>i. FnvHashFunction_hash (buf_write buf pos (le_bytes 4 i))) is) c"
  using assms(2)
proof (induction "is" arbitrary: buf c)
  case Nil
  show ?case by simp
next
  case (Cons i "is")
  then show ?case by (simp add: assms(1))
qed

lemma AddServer_circle:
  "server_circle (AddServer s h)
     = fold (\<lambda>p. sm_put p s) (server_positions s (numberOfReplicas h)) (server_circle h)"
proof -
  let ?pos = "index_pos s"
  have "add_turn s i st = (buf_write (fst st) ?pos (le_bytes 4 i),
      sm_put (FnvHashFunction_hash (buf_write (fst st) ?pos (le_bytes 4 i))) s (snd st))" for i st
    by (cases st) (auto simp: add_turn_def index_pos_def Let_def min_def not_le)
  from fold_turns [of "add_turn s" ?pos "\<lambda>p. sm_put p s", OF this, of "add_buf s"] index_pos_le [of s]
  show ?thesis by (simp add: AddServer_def server_positions_def comp_def)
qed

lemma remove_buf_eq:
  assumes "length s \<le> 46" and "CHR 0x00 \<notin> set s"
  shows "map byte_of s @ replicate (kHashBuf - length s) 0 = add_buf s"
proof -
  have eq: "takeWhile (\<lambda>c. c \<noteq> CHR 0x00) s = s"
    using assms(2) by (auto simp: takeWhile_eq_all_conv)
  show ?thesis using assms(1) unfolding add_buf_def eq kHashBuf_def Let_def by simp
qed

lemma RemoveServer_circle:
  assumes "length s \<le> 46" and "CHR 0x00 \<notin> set s"
  shows "\<exists>h'. RemoveServer s h = Inr h' \<and> numberOfReplicas h' = numberOfReplicas h
     \<and> server_circle h' = fold sm_del (server_positions s (numberOfReplicas h)) (server_circle h)"
proof -
  have "remove_turn s i st = (buf_write (fst st) (length s) (le_bytes 4 i),
      sm_del (FnvHashFunction_hash (buf_write (fst st) (length s) (le_bytes 4 i))) (snd st))" for i st
    by (cases st) (simp add: remove_turn_def Let_def)
  from fold_turns [of "remove_turn s" "length s" sm_del, OF this, of "add_buf s"] assms(1)
  have turns: "snd (fold (remove_turn s) is (add_buf s, c)) =
      fold sm_del (map (\<lambda>i. FnvHashFunction_hash (buf_write (add_buf s) (length s) (le_bytes 4 i))) is) c"
    for "is" c by simp
  have "index_pos s = length s" using assms(1) by (rule index_pos_short)
  then have "map (\<lambda>i :: u32. FnvHashFunction_hash (buf_write (add_buf s) (length s) (le_bytes 4 i)))
      (map word_of_nat [0..<unat n]) = server_positions s n" for n
    unfolding server_positions_def map_map comp_def by (simp only:)
  moreover have "\<not> (kHashBuf < length s \<or> (0 < numberOfReplicas h \<and> kHashBuf - 4 < length s))"
    using assms(1) by (simp add: kHashBuf_def)
  ultimately show ?thesis
    unfolding RemoveServer_def remove_buf_eq [OF assms] turns by simp
qed

lemma AddServer_replicas [simp, frame]: "numberOfReplicas (AddServer s h) = numberOfReplicas h"
  by (simp add: AddServer_def)

lemma AddServer_ok [inv_pres]: "ring_ok h \<Longrightarrow> ring_ok (AddServer s h)"
  by (simp add: ring_ok_def AddServer_circle smap.ok_fold_put)

lemma fold_sm_del: "fold sm_del ps c = filter (\<lambda>e. fst e \<notin> set ps) c"
  by (induction ps arbitrary: c) (auto simp: sm_del_def intro: filter_cong)

section \<open>The owner of a key\<close>

text \<open>The abstract lookup: the least position not below the hash, or the least of all.\<close>

definition ring_next :: "u32 \<Rightarrow> u32 set \<Rightarrow> u32" where
  "ring_next h P = (if \<exists>p \<in> P. h \<le> p then Min {p \<in> P. h \<le> p} else Min P)"

lemma sm_hd_Min: "sm_ok m \<Longrightarrow> m \<noteq> [] \<Longrightarrow> fst (hd m) = Min (fst ` set m)"
  by (rule Min_eqI [symmetric]) (auto dest: sm_ok_hd_least)

lemma circle_lookup_next:
  assumes ok: "sm_ok c" and ne: "c \<noteq> []"
  shows "map_of c (ring_next h (fst ` set c)) = Some (circle_lookup h c)"
proof -
  define L where "L = filter (\<lambda>e. h \<le> fst e) c"
  have lb: "sm_lower_bound h c = L" unfolding L_def by (rule sm_lower_bound_eq [OF ok])
  have okL: "sm_ok L" unfolding L_def by (rule sm_ok_filter [OF ok])
  have sub: "fst ` set L = {p \<in> fst ` set c. h \<le> p}" by (auto simp: L_def)
  define e where "e = (if L = [] then hd c else hd L)"
  have e: "e \<in> set c" using ne by (auto simp: e_def L_def dest: hd_in_set)
  have "circle_lookup h c = snd e"
    using ne unfolding circle_lookup_def lb e_def by (cases c; cases L) auto
  moreover have "ring_next h (fst ` set c) = fst e"
  proof (cases "L = []")
    case True
    then have "\<not> (\<exists>p \<in> fst ` set c. h \<le> p)" by (auto simp: L_def filter_empty_conv)
    with True sm_hd_Min [OF ok ne] show ?thesis by (simp add: ring_next_def e_def)
  next
    case False
    then have "\<exists>p \<in> fst ` set c. h \<le> p" using sub by (metis (mono_tags) Collect_empty_eq image_is_empty set_empty)
    with False sm_hd_Min [OF okL False] show ?thesis by (simp add: ring_next_def e_def sub)
  qed
  ultimately show ?thesis
    using e sm_ok_distinct [OF ok] by (metis map_of_eq_Some_iff prod.collapse)
qed

lemma sm_lower_bound_Cons:
  "sm_lower_bound h (e # c) = (if fst e < h then sm_lower_bound h c else e # c)"
  by (simp add: sm_lower_bound_def)

lemma lower_bound_put:
  "case sm_lower_bound h (sm_put p s c) of
      [] \<Rightarrow> sm_lower_bound h c = []
    | e # es \<Rightarrow> snd e = s \<or> (\<exists>es'. sm_lower_bound h c = e # es')"
proof (induction c)
  case Nil
  show ?case by (simp add: sm_lower_bound_def)
next
  case (Cons e c)
  have refl: "case L of [] \<Rightarrow> L = [] | f # fs \<Rightarrow> snd f = s \<or> (\<exists>fs'. L = f # fs')"
    for L by (cases L) auto
  consider "fst e < p" | "fst e = p" | "p < fst e" by fastforce
  then show ?case
  proof cases
    case 1
    with Cons show ?thesis by (cases "fst e < h") (auto simp: sm_lower_bound_Cons split: list.splits)
  next
    case 2
    with refl [of "sm_lower_bound h c"] show ?thesis
      by (cases "p < h") (auto simp: sm_lower_bound_Cons split: list.splits)
  next
    case 3
    then have "\<not> fst e < p" and "fst e \<noteq> p" by auto
    with refl [of "sm_lower_bound h (e # c)"] show ?thesis
      by (cases "p < h"; cases "fst e < h") (auto simp: sm_lower_bound_Cons split: list.splits)
  qed
qed

lemma circle_lookup_put:
  assumes "c \<noteq> []"
  shows "circle_lookup h (sm_put p s c) \<in> {s, circle_lookup h c}"
proof -
  obtain e es where c: "c = e # es" using assms by (cases c) auto
  define q where "q = sm_put p s c"
  obtain f fs where p: "sm_put p s c = f # fs" and f: "snd f = s \<or> f = e"
  proof
    show "sm_put p s c = hd q # tl q" and "snd (hd q) = s \<or> hd q = e" by (auto simp: c q_def)
  qed
  show ?thesis
  proof (cases "sm_lower_bound h (sm_put p s c)")
    case Nil
    with lower_bound_put [of h c s p] have "sm_lower_bound h c = []" by simp
    with Nil f show ?thesis by (auto simp: circle_lookup_def c p)
  next
    case (Cons g gs)
    with lower_bound_put [of h c s p] have "snd g = s \<or> (\<exists>es'. sm_lower_bound h c = g # es')"
      by simp
    with Cons show ?thesis by (auto simp: circle_lookup_def c p)
  qed
qed

lemma circle_lookup_fold_put:
  "c \<noteq> [] \<Longrightarrow> circle_lookup h (fold (\<lambda>p. sm_put p s) ps c) \<in> {s, circle_lookup h c}"
proof (induction ps arbitrary: c)
  case Nil
  then show ?case by simp
next
  case (Cons p ps)
  have "sm_put p s c \<noteq> []" by (cases c) auto
  with Cons.IH circle_lookup_put [OF Cons.prems, of h p s] show ?case by fastforce
qed

lemma circle_lookup_filter:
  assumes "\<And>e. e \<in> set c \<Longrightarrow> \<not> Q e \<Longrightarrow> snd e = s" and "circle_lookup h c \<noteq> s"
  shows "circle_lookup h (filter Q c) = circle_lookup h c"
proof (cases "c = []")
  case True
  then show ?thesis by simp
next
  case False
  have lb0: "sm_lower_bound h (filter Q c) = []" if "sm_lower_bound h c = []"
    using that by (induction c) (auto simp: sm_lower_bound_def split: if_splits)
  have lb1: "\<exists>es'. sm_lower_bound h (filter Q c) = e # es'"
    if "sm_lower_bound h c = e # es" and "snd e \<noteq> s" for e es
    using that assms(1) by (induction c) (auto simp: sm_lower_bound_def split: if_splits)
  obtain f fs where c: "c = f # fs" using False by (cases c) auto
  show ?thesis
  proof (cases "sm_lower_bound h c")
    case Nil
    then have "snd f \<noteq> s" using assms(2) by (simp add: circle_lookup_def c)
    then have "Q f" using assms(1) [of f] c by auto
    with Nil lb0 show ?thesis by (simp add: circle_lookup_def c)
  next
    case (Cons e es)
    then have "snd e \<noteq> s" using assms(2) by (simp add: circle_lookup_def c)
    with lb1 Cons obtain es' where e: "sm_lower_bound h (filter Q c) = e # es'" by blast
    then have "filter Q c \<noteq> []" by (auto simp: sm_lower_bound_def)
    with e Cons show ?thesis
      by (cases "filter Q c") (auto simp: circle_lookup_def c)
  qed
qed

section \<open>Properties of the ring\<close>

text \<open>C36. \<open>GetServer\<close> finds the owner of a key on the ring: on a non-empty ring it returns the
  server at the first position clockwise from the key's hash (the least position not below it,
  wrapping to the least of all).\<close>

theorem GetServer_owner:
  assumes "ring_ok h" and "server_circle h \<noteq> []"
  shows "map_of (server_circle h)
      (ring_next (FnvHashFunction_hash64 gid) (fst ` set (server_circle h))) = Some (GetServer gid h)"
  using assms unfolding GetServer_def ring_ok_def by (rule circle_lookup_next)

text \<open>C37. Adding a server moves keys only to it: after \<open>AddServer s\<close> on a non-empty ring every
  key is on the server that had it or on \<open>s\<close>.\<close>

theorem AddServer_monotone:
  assumes "server_circle h \<noteq> []"
  shows "GetServer gid (AddServer s h) = s \<or> GetServer gid (AddServer s h) = GetServer gid h"
  using circle_lookup_fold_put [OF assms] by (fastforce simp: GetServer_def AddServer_circle)


text \<open>\<open>RemoveServer\<close> undoes \<open>AddServer\<close>: if no server sits at a position of \<open>s\<close>,
  its name fits the buffer and has no NUL, then adding \<open>s\<close> and removing it gives the ring back,
  entry for entry.\<close>

lemma RemoveServer_AddServer:
  assumes "ring_ok h" and "length s \<le> 46" and "CHR 0x00 \<notin> set s"
    and "\<And>p. p \<in> set (server_positions s (numberOfReplicas h)) \<Longrightarrow> map_of (server_circle h) p = None"
  shows "RemoveServer s (AddServer s h) = Inr h"
proof -
  let ?ps = "server_positions s (numberOfReplicas h)"
  obtain h' where h': "RemoveServer s (AddServer s h) = Inr h'"
    and n: "numberOfReplicas h' = numberOfReplicas h"
    and c: "server_circle h' = fold sm_del ?ps (fold (\<lambda>p. sm_put p s) ?ps (server_circle h))"
    using RemoveServer_circle [OF assms(2,3), of "AddServer s h"] by (auto simp: AddServer_circle)
  have "server_circle h' = server_circle h"
  proof (rule sm_ok_ext)
    show "map_of (server_circle h') = map_of (server_circle h)"
      using assms(4) unfolding c by (auto simp: fun_eq_iff smap.fold_del_put)
  qed (use assms(1) in \<open>simp_all add: c ring_ok_def smap.ok_fold_del smap.ok_fold_put\<close>)
  with n have "h' = h" by simp
  with h' show ?thesis by simp
qed

section \<open>Witnesses\<close>

text \<open>A ring of two servers with one replica each, at two fixed positions.\<close>

definition demo_ring :: UserConsistentFnvHash where
  "demo_ring = \<lparr>numberOfReplicas = 1, server_circle = [(5, ''a''), (9, ''b'')]\<rparr>"

lemma demo_ring_ok: "ring_ok demo_ring" and demo_ring_ne: "server_circle demo_ring \<noteq> []"
  by (simp_all add: demo_ring_def ring_ok_def sm_ok_def)

lemma demo_positions: "set (server_positions ''c'' 1) \<inter> {5, 9} = {}"
  by code_simp

lemma demo_key: "FnvHashFunction_hash64 1 > 9"
  by code_simp

lemma demo_owner: "GetServer 1 demo_ring = ''a''"
  using demo_key by (auto simp: GetServer_def circle_lookup_def demo_ring_def sm_lower_bound_def)

theorem GetServer_owner_witness:
  "map_of (server_circle demo_ring)
      (ring_next (FnvHashFunction_hash64 1) (fst ` set (server_circle demo_ring))) = Some ''a''"
  using GetServer_owner [OF demo_ring_ok demo_ring_ne, of 1] by (simp add: demo_owner)

theorem AddServer_monotone_witness:
  "GetServer 1 (AddServer ''c'' demo_ring) \<in> {''c'', ''a''}"
  using AddServer_monotone [OF demo_ring_ne, of 1 "''c''"] by (simp add: demo_owner)


theorem RemoveServer_AddServer_witness:
  "RemoveServer ''c'' (AddServer ''c'' demo_ring) = Inr demo_ring"
  by (rule RemoveServer_AddServer [OF demo_ring_ok])
    (use demo_positions in \<open>auto simp: demo_ring_def\<close>)

end
