(* ===== verification/Limiter.thy ===== *)
theory Limiter
  imports Std_Map
begin

text \<open>
  \<open>src/limiters/limiter.h\<close>, \<open>dependency_limiter.cpp\<close> and the window counter that
  \<open>ApiQpsLimiter\<close> and \<open>UserQpsLimiter\<close> share. Times are milliseconds of the steady
  clock and an argument of each operation; \<open>int64_t\<close> counters are \<^typ>\<open>int\<close>, since
  none of them comes near \<open>2 ^ 63\<close>. The locale \<open>ILimiter\<close> is the interface every limiter
  implements, with what its clients rely on.
\<close>

section \<open>Data\<close>

datatype LimitLevel = GOOD | LIMITED

record LimitRule =
  rule_period :: int
  rule_count :: int

definition mk_rule :: "int \<Rightarrow> int \<Rightarrow> LimitRule" where
  "mk_rule p c = \<lparr>rule_period = p, rule_count = c\<rparr>"

record Status =
  startTime :: int
  counter :: int

definition fresh_status :: Status where
  "fresh_status = \<lparr>startTime = 0, counter = 0\<rparr>"

record LimitState =
  ls_id :: string
  ls_keys :: "string list"
  ls_counters :: "(string \<times> int) list"

section \<open>One window counter\<close>

definition window_acquire :: "LimitRule \<Rightarrow> int \<Rightarrow> Status \<Rightarrow> LimitLevel \<times> Status" where
  "window_acquire rule now st =
     (if startTime st = 0 \<or> now - startTime st \<ge> rule_period rule
      then (GOOD, st\<lparr>startTime := now, counter := 1\<rparr>)
      else let st' = st\<lparr>counter := counter st + 1\<rparr>
           in if counter st' \<le> rule_count rule then (GOOD, st') else (LIMITED, st'))"

definition window_limited :: "LimitRule \<Rightarrow> int \<Rightarrow> Status \<Rightarrow> LimitLevel" where
  "window_limited rule now s =
     (if counter s > rule_count rule \<and> now - startTime s < rule_period rule then LIMITED else GOOD)"

text \<open>A sequence of requests at the given times: what each was answered, and the status left.\<close>

fun window_run :: "LimitRule \<Rightarrow> int list \<Rightarrow> Status \<Rightarrow> (int \<times> LimitLevel) list" where
  "window_run rule [] st = []"
| "window_run rule (t # ts) st =
     (let (l, st') = window_acquire rule t st in (t, l) # window_run rule ts st')"

definition granted_in :: "int \<Rightarrow> int \<Rightarrow> (int \<times> LimitLevel) list \<Rightarrow> nat" where
  "granted_in a b r = length (filter (\<lambda>(t, l). a \<le> t \<and> t < b \<and> l = GOOD) r)"

lemma granted_in_Nil [simp]: "granted_in a b [] = 0"
  by (simp add: granted_in_def)

lemma granted_in_Cons [simp]:
  "granted_in a b ((t, l) # r) = (if a \<le> t \<and> t < b \<and> l = GOOD then 1 else 0) + granted_in a b r"
  by (simp add: granted_in_def)

section \<open>How much a window counter grants\<close>

text \<open>\<open>quota\<close> is what a full window grants: the first request is always granted.\<close>

definition quota :: "LimitRule \<Rightarrow> nat" where
  "quota rule = nat (max 1 (rule_count rule))"

lemma granted_late: "\<forall>t \<in> set ts. b \<le> t \<Longrightarrow> granted_in a b (window_run rule ts st) = 0"
  by (induction ts arbitrary: st) (auto simp: split_beta)

text \<open>The three cases of the induction: the current window began in the interval; it began
  before, and the next request lies in the interval; any window.\<close>

lemma granted_window_inside:
  assumes "sorted ts" and "\<forall>t \<in> set ts. startTime st \<le> t"
    and "a \<le> startTime st" and "startTime st \<noteq> 0" and "0 \<le> counter st"
  shows "granted_in a (a + rule_period rule) (window_run rule ts st) \<le> quota rule - nat (counter st)"
  using assms
proof (induction ts arbitrary: st)
  case Nil
  show ?case by simp
next
  case (Cons t ts)
  show ?case
  proof (cases "t - startTime st \<ge> rule_period rule")
    case True
    then have "\<forall>u \<in> set (t # ts). a + rule_period rule \<le> u" using Cons.prems by auto
    then show ?thesis by (simp only: granted_late)
  next
    case False
    let ?st = "st\<lparr>counter := counter st + 1\<rparr>"
    have "granted_in a (a + rule_period rule) (window_run rule ts ?st) \<le> quota rule - nat (counter ?st)"
      by (rule Cons.IH) (use Cons.prems in auto)
    moreover have "0 \<le> counter st" using Cons.prems by simp
    ultimately show ?thesis using False Cons.prems(4) by (auto simp: window_acquire_def quota_def Let_def)
  qed
qed

lemma granted_window_before:
  assumes "sorted ts" and "\<forall>t \<in> set ts. a \<le> t" and "\<forall>t \<in> set ts. 0 < t"
    and "0 \<le> counter st"
  shows "granted_in a (a + rule_period rule) (window_run rule ts st)
    \<le> (if startTime st = 0 then 0 else quota rule - nat (counter st)) + quota rule"
  using assms
proof (induction ts arbitrary: st)
  case Nil
  show ?case by simp
next
  case (Cons t ts)
  show ?case
  proof (cases "startTime st = 0 \<or> t - startTime st \<ge> rule_period rule")
    case True
    let ?st = "st\<lparr>startTime := t, counter := 1\<rparr>"
    have "granted_in a (a + rule_period rule) (window_run rule ts ?st) \<le> quota rule - nat (counter ?st)"
      by (rule granted_window_inside) (use Cons.prems in auto)
    with True show ?thesis by (auto simp: window_acquire_def quota_def Let_def)
  next
    case False
    let ?st = "st\<lparr>counter := counter st + 1\<rparr>"
    have "granted_in a (a + rule_period rule) (window_run rule ts ?st)
      \<le> (if startTime ?st = 0 then 0 else quota rule - nat (counter ?st)) + quota rule"
      by (rule Cons.IH) (use Cons.prems in auto)
    moreover have "0 \<le> counter st" using Cons.prems by simp
    ultimately show ?thesis using False by (auto simp: window_acquire_def quota_def Let_def)
  qed
qed

lemma granted_window:
  assumes "sorted ts" and "\<forall>t \<in> set ts. 0 < t" and "0 \<le> counter st"
  shows "granted_in a (a + rule_period rule) (window_run rule ts st) \<le> 2 * quota rule"
  using assms
proof (induction ts arbitrary: st)
  case Nil
  show ?case by simp
next
  case (Cons t ts)
  show ?case
  proof (cases "a \<le> t")
    case True
    then have "granted_in a (a + rule_period rule) (window_run rule (t # ts) st)
      \<le> (if startTime st = 0 then 0 else quota rule - nat (counter st)) + quota rule"
      by (intro granted_window_before) (use Cons.prems in auto)
    then show ?thesis by (auto split: if_splits)
  next
    case False
    have "0 \<le> counter (snd (window_acquire rule t st))"
      using Cons.prems by (simp add: window_acquire_def Let_def)
    with False Cons show ?thesis by (simp add: split_beta)
  qed
qed

section \<open>DependencyLimiter\<close>

text \<open>The loop over \<open>m_dependencies\<close>: whether one of them is limited for the id; a probe can
  trap.\<close>

fun dependency_scan :: "(string \<Rightarrow> cpp_error + LimitLevel) list \<Rightarrow> string \<Rightarrow> cpp_error + bool" where
  "dependency_scan [] i = Inr False"
| "dependency_scan (d # ds) i =
     (case d i of
        Inl e \<Rightarrow> Inl e
      | Inr l \<Rightarrow> if LIMITED = l then Inr True else dependency_scan ds i)"

definition DependencyLimiter_acquireAccess ::
    "(string \<Rightarrow> cpp_error + LimitLevel) list \<Rightarrow> (string \<Rightarrow> 's \<Rightarrow> cpp_error + LimitLevel \<times> 's)
      \<Rightarrow> string \<Rightarrow> 's \<Rightarrow> cpp_error + LimitLevel \<times> 's" where
  "DependencyLimiter_acquireAccess m_dependencies m_limiter_acquire i s =
     (case dependency_scan m_dependencies i of
        Inl e \<Rightarrow> Inl e
      | Inr True \<Rightarrow> Inr (LIMITED, s)
      | Inr False \<Rightarrow> m_limiter_acquire i s)"

definition DependencyLimiter_limited :: "(string \<Rightarrow> cpp_error + LimitLevel) \<Rightarrow> string \<Rightarrow> cpp_error + LimitLevel" where
  "DependencyLimiter_limited m_limiter_limited i = m_limiter_limited i"

lemma dependency_scan_limited:
  assumes "\<forall>d \<in> set ds. \<exists>l. d i = Inr l"
  shows "dependency_scan ds i = Inr (\<exists>d \<in> set ds. d i = Inr LIMITED)"
  using assms by (induction ds) (auto split: sum.splits)

section \<open>The interface of a limiter\<close>

text \<open>An environment \<open>e\<close> carries what a call reads from outside: the clock, a reply of Redis.
  \<open>adm\<close> says which environments the laws cover and \<open>inv\<close> is the limiter's invariant.\<close>

locale ILimiter =
  fixes acquire :: "'e \<Rightarrow> string \<Rightarrow> 's \<Rightarrow> cpp_error + LimitLevel \<times> 's"
    and limited :: "'e \<Rightarrow> string \<Rightarrow> 's \<Rightarrow> cpp_error + LimitLevel"
    and adm :: "'e \<Rightarrow> bool"
    and inv :: "'s \<Rightarrow> bool"
  assumes acquire_total: "inv s \<Longrightarrow> adm e \<Longrightarrow> \<exists>l s'. acquire e i s = Inr (l, s') \<and> inv s'"
    and limited_total: "inv s \<Longrightarrow> adm e \<Longrightarrow> \<exists>l. limited e i s = Inr l"
    and limited_acquire: "inv s \<Longrightarrow> adm e \<Longrightarrow> limited e i s = Inr LIMITED \<Longrightarrow>
      \<exists>s'. acquire e i s = Inr (LIMITED, s')"
    and limited_other: "acquire e i s = Inr (l, s') \<Longrightarrow> j \<noteq> i \<Longrightarrow>
      limited e' j s' = limited e' j s"
begin

text \<open>A sequence of requests, each with its environment and id; \<open>None\<close> when one traps.\<close>

primrec serve :: "('e \<times> string) list \<Rightarrow> 's \<Rightarrow> 's option" where
  "serve [] s = Some s"
| "serve (r # rs) s =
     (case acquire (fst r) (snd r) s of Inl _ \<Rightarrow> None | Inr (l, s') \<Rightarrow> serve rs s')"

lemma serve_total:
  "inv s \<Longrightarrow> \<forall>r \<in> set rs. adm (fst r) \<Longrightarrow> \<exists>s'. serve rs s = Some s' \<and> inv s'"
proof (induction rs arbitrary: s)
  case Nil
  then show ?case by simp
next
  case (Cons r rs)
  then obtain l s' where "acquire (fst r) (snd r) s = Inr (l, s')" "inv s'"
    using acquire_total by (metis list.set_intros(1))
  with Cons show ?case by simp
qed

text \<open>Requests of other ids never make an id limited, nor free it.\<close>

lemma serve_other:
  "serve rs s = Some s' \<Longrightarrow> \<forall>r \<in> set rs. snd r \<noteq> j \<Longrightarrow> limited e j s' = limited e j s"
proof (induction rs arbitrary: s)
  case Nil
  then show ?case by simp
next
  case (Cons r rs)
  from Cons.prems obtain l t where a: "acquire (fst r) (snd r) s = Inr (l, t)" "serve rs t = Some s'"
    by (auto split: sum.splits prod.splits)
  with Cons have "limited e j s' = limited e j t" by simp
  also have "\<dots> = limited e j s" using limited_other [OF a(1), of j e] Cons.prems(2) by auto
  finally show ?case .
qed

end

text \<open>A limiter that depends on another one, over the pair of their states.\<close>

locale dependent_limiter =
  inner: ILimiter acq lim adm inv +
  dep: ILimiter dacq dlim adm dinv
  for acq :: "'e \<Rightarrow> string \<Rightarrow> 's \<Rightarrow> cpp_error + LimitLevel \<times> 's"
    and lim :: "'e \<Rightarrow> string \<Rightarrow> 's \<Rightarrow> cpp_error + LimitLevel"
    and adm :: "'e \<Rightarrow> bool" and inv :: "'s \<Rightarrow> bool"
    and dacq :: "'e \<Rightarrow> string \<Rightarrow> 'd \<Rightarrow> cpp_error + LimitLevel \<times> 'd"
    and dlim :: "'e \<Rightarrow> string \<Rightarrow> 'd \<Rightarrow> cpp_error + LimitLevel"
    and dinv :: "'d \<Rightarrow> bool"
begin

definition dep_acquire :: "'e \<Rightarrow> string \<Rightarrow> 's \<times> 'd \<Rightarrow> cpp_error + LimitLevel \<times> 's \<times> 'd" where
  "dep_acquire e i p =
     map_sum id (\<lambda>(l, s). (l, s, snd p))
       (DependencyLimiter_acquireAccess [\<lambda>j. dlim e j (snd p)] (acq e) i (fst p))"

definition dep_limited :: "'e \<Rightarrow> string \<Rightarrow> 's \<times> 'd \<Rightarrow> cpp_error + LimitLevel" where
  "dep_limited e i p = DependencyLimiter_limited (\<lambda>j. lim e j (fst p)) i"

lemma dep_acquire_cases:
  assumes "dinv d" and "adm e"
  shows "dep_acquire e i (s, d) =
    (if dlim e i d = Inr LIMITED then Inr (LIMITED, s, d)
     else map_sum id (\<lambda>(l, s'). (l, s', d)) (acq e i s))"
proof -
  obtain l where "dlim e i d = Inr l" using dep.limited_total [OF assms] by blast
  then show ?thesis
    by (cases l) (simp_all add: dep_acquire_def DependencyLimiter_acquireAccess_def)
qed

lemma dep_acquire_other:
  assumes "dep_acquire e i p = Inr (l, p')"
  shows "snd p' = snd p \<and> (fst p' = fst p \<or> acq e i (fst p) = Inr (l, fst p'))"
  using assms
  by (auto simp: dep_acquire_def DependencyLimiter_acquireAccess_def map_sum_def
      split: sum.splits bool.splits)

end

sublocale dependent_limiter \<subseteq> comb: ILimiter dep_acquire dep_limited adm "\<lambda>p. inv (fst p) \<and> dinv (snd p)"
proof (unfold_locales, goal_cases)
  case (1 p e i)
  obtain l s' where "acq e i (fst p) = Inr (l, s')" "inv s'"
    using inner.acquire_total 1 by blast
  then show ?case
    using 1 dep_acquire_cases [of "snd p" e i "fst p"] by (cases p) auto
next
  case (2 p e i)
  then show ?case using inner.limited_total by (simp add: dep_limited_def DependencyLimiter_limited_def)
next
  case (3 p e i)
  then have "lim e i (fst p) = Inr LIMITED"
    by (simp add: dep_limited_def DependencyLimiter_limited_def)
  then obtain s' where "acq e i (fst p) = Inr (LIMITED, s')"
    using inner.limited_acquire 3 by blast
  then show ?case using 3 dep_acquire_cases [of "snd p" e i "fst p"] by (cases p) auto
next
  case (4 e i p l p' j e')
  then show ?case
    using dep_acquire_other [OF 4(1)] inner.limited_other [of e i "fst p" l "fst p'" j e']
    by (auto simp: dep_limited_def DependencyLimiter_limited_def)
qed

end
