(* ===== verification/Api_Matcher.thy ===== *)
theory Api_Matcher
  imports Bcm_Prelude
begin

text \<open>
  \<open>src/common/api.h\<close>, \<open>src/limiters/api_matcher.cpp\<close> and
  \<open>src/limiters/limiter_globals.cpp\<close>: an API is an HTTP verb and a path; a pattern is a
  path in which a segment that begins with a colon stands for any segment. A verb is given by
  its name in the HTTP standard, which is what \<open>http::to_string\<close> prints. The sets of APIs
  and of patterns use \<open>std::greater\<close>; the set of patterns, whose order decides which
  pattern a request is charged to, is kept as a descending list.
\<close>

section \<open>Api\<close>

type_synonym verb = string

record Api =
  api_method :: verb
  api_name :: string

definition mk_api :: "verb \<Rightarrow> string \<Rightarrow> Api" where
  "mk_api m n = \<lparr>api_method = m, api_name = n\<rparr>"

definition api_to_string :: "Api \<Rightarrow> string" where
  "api_to_string api =
     (if api_name api = [] then []
      else api_name api @ ''/'' @ map to_lower (api_method api))"

section \<open>ApiMatcher\<close>

definition matchInternal :: "string \<Rightarrow> string \<Rightarrow> bool" where
  "matchInternal pattern target =
     (if pattern \<noteq> [] \<and> hd pattern = CHR '':'' then True else pattern = target)"

fun match_segments :: "string list \<Rightarrow> string list \<Rightarrow> bool" where
  "match_segments (p # ps) (t # ts) = (if \<not> matchInternal p t then False else match_segments ps ts)"
| "match_segments _ _ = True"

definition match_name :: "string \<Rightarrow> string \<Rightarrow> bool" where
  "match_name pattern target =
     (let patterns = split_on (CHR ''/'') pattern;
          targets = split_on (CHR ''/'') target
      in if length patterns \<noteq> length targets then False
         else match_segments patterns targets)"

definition match_api :: "Api \<Rightarrow> Api \<Rightarrow> bool" where
  "match_api pattern target =
     (if api_method pattern \<noteq> api_method target then False
      else match_name (api_name pattern) (api_name target))"

text \<open>The loop of \<open>matchAndFetch\<close>: \<open>None\<close> is the return of false, otherwise the last
  index whose pattern segment is the key, or the number of segments.\<close>

fun fetch_loop :: "string \<Rightarrow> nat \<Rightarrow> string list \<Rightarrow> string list \<Rightarrow> nat \<Rightarrow> nat option" where
  "fetch_loop key i (p # ps) (t # ts) matchIndex =
     (if \<not> matchInternal p t then None
      else fetch_loop key (Suc i) ps ts (if p = key then i else matchIndex))"
| "fetch_loop key i _ _ matchIndex = Some matchIndex"

text \<open>The result and the new content of the reference argument \<open>value\<close>.\<close>

definition matchAndFetch_name :: "string \<Rightarrow> string \<Rightarrow> string \<Rightarrow> string \<Rightarrow> bool \<times> string" where
  "matchAndFetch_name pattern target key val =
     (let patterns = split_on (CHR ''/'') pattern;
          targets = split_on (CHR ''/'') target
      in if length patterns \<noteq> length targets then (False, val)
         else (case fetch_loop key 0 patterns targets (length patterns) of
                 None \<Rightarrow> (False, val)
               | Some matchIndex \<Rightarrow>
                   (True, if matchIndex < length patterns then targets ! matchIndex else val)))"

definition matchAndFetch_api :: "Api \<Rightarrow> Api \<Rightarrow> string \<Rightarrow> string \<Rightarrow> bool \<times> string" where
  "matchAndFetch_api pattern target key val =
     (if api_method pattern \<noteq> api_method target then (False, val)
      else matchAndFetch_name (api_name pattern) (api_name target) key val)"

section \<open>LimiterGlobals\<close>

definition apis_of :: "verb \<Rightarrow> string list \<Rightarrow> Api list" where
  "apis_of v = map (mk_api v)"

text \<open>The table of APIs subject to limits, grouped by verb. It is a set: the order of the entries
  decides nothing.\<close>

definition kActiveApis :: "Api list" where
  "kActiveApis =
     apis_of ''PATCH'' [''/v2/contacts/filters''] @
     apis_of ''PUT'' (
       [''/v2/keys/signed'', ''/v2/keys'', ''/v2/group/deliver/update'', ''/v2/group/deliver/invite'',
        ''/v2/group/deliver/create'', ''/v2/contacts/parts'', ''/v2/contacts/friends/request'',
        ''/v2/contacts/friends/reply'', ''/v2/contacts/filters'', ''/v1/profile/uploadGroupAvatar'',
        ''/v1/profile/uploadAvatarPlaintext'', ''/v1/profile/privacy'',
        ''/v1/profile/nickname/:nickname'', ''/v1/profile/namePlaintext/:name'', ''/v1/profile/keys'',
        ''/v1/profile/avatar'', ''/v1/profile'', ''/v1/messages/:uid''] @
       map (\<lambda>n. ''/v1/group/deliver/'' @ n)
         [''upload_password'', ''update_user'', ''update_notice'', ''update'', ''send_msg'',
          ''review_join_request'', ''recall_msg'', ''query_member_list'', ''query_member'',
          ''query_last_mid'', ''query_joined_list'', ''query_info'', ''leave'', ''kick'',
          ''join_group_by_code'', ''invite'', ''get_msg'', ''create'', ''ack_msg''] @
       [''/v1/attachments/upload/:attachmentId'', ''/v1/attachments/upload'', ''/v1/accounts/signup'',
        ''/v1/accounts/signin'', ''/v1/accounts/gcm'', ''/v1/accounts/features'',
        ''/v1/accounts/attributes'', ''/v1/accounts/apn'']) @
     apis_of ''POST'' (''/v2/contacts/parts'' #
       map (\<lambda>n. ''/v1/group/deliver/'' @ n)
         [''query_member_list_segment'', ''query_info_batch'', ''query_group_pending_list'',
          ''member_list_ordered'', ''is_qr_code_valid'', ''get_owner_confirm''] @
       [''/v1/attachments/s3/upload_certification'']) @
     apis_of ''GET''
       [''/v2/keys/signed'', ''/v2/keys/:uid/:device_id'', ''/v2/keys'', ''/v1/profile/version/:version'',
        ''/v1/profile/keys'', ''/v1/profile/download/:avatarId'', ''/v1/profile/:uid'', ''/v1/contacts'',
        ''/v1/attachments/download/:attachmentId'', ''/v1/attachments/:attachmentId'',
        ''/v1/attachments'', ''/v1/accounts/turn'', ''/v1/accounts/challenge/:uid''] @
     apis_of ''DELETE''
       [''/v2/contacts/friends'', ''/v2/contacts/filters'', ''/v1/accounts/gcm'', ''/v1/accounts/apn'',
        ''/v1/accounts/:uid/:signature''] @
     apis_of ''PUT'' (map (\<lambda>n. ''/v3/group/deliver/'' @ n)
       [''update'', ''review_join_request'', ''leave'', ''kick'', ''join_group_by_code'', ''invite'',
        ''group_keys_update'', ''create'', ''add_me''] @ [''/v1/opaque_data'']) @
     apis_of ''POST'' (''v3/group/deliver/dh_keys'' # map (\<lambda>n. ''/v3/group/deliver/'' @ n)
       [''prepare_key_update'', ''members'', ''latest_group_keys'', ''group_keys'',
        ''fire_group_keys_update'']) @
     apis_of ''GET'' [''/v1/opaque_data/:index'']"

text \<open>\<open>LimiterGlobals::update\<close>: the router announces each route; those not in the table are
  ignored by the limiters. The state is the set \<open>m_ignoredApis\<close>.\<close>

definition LimiterGlobals_update :: "Api \<Rightarrow> Api list \<Rightarrow> Api list" where
  "LimiterGlobals_update api m_ignoredApis =
     (if api \<notin> set kActiveApis then List.insert api m_ignoredApis else m_ignoredApis)"

section \<open>Matching as a relation on segments\<close>

lemma match_segments_iff:
  "length ps = length ts \<Longrightarrow> match_segments ps ts \<longleftrightarrow> list_all2 matchInternal ps ts"
  by (induction ps ts rule: list_induct2) auto

lemma match_name_iff:
  "match_name p t \<longleftrightarrow> list_all2 matchInternal (split_on (CHR ''/'') p) (split_on (CHR ''/'') t)"
  by (auto simp: match_name_def Let_def match_segments_iff dest: list_all2_lengthD)

lemma match_name_refl [simp]: "match_name p p"
  by (simp add: match_name_iff list_all2_refl matchInternal_def)

lemma fetch_loop_None:
  "length ps = length ts \<Longrightarrow> fetch_loop key i ps ts m = None \<longleftrightarrow> \<not> match_segments ps ts"
  by (induction ps ts arbitrary: i m rule: list_induct2) auto

lemma fetch_loop_index:
  "length ps = length ts \<Longrightarrow> fetch_loop key i ps ts m = Some j
    \<Longrightarrow> j = m \<and> key \<notin> set ps \<or> (\<exists>k < length ps. j = i + k \<and> ps ! k = key)"
proof (induction ps ts arbitrary: i m rule: list_induct2)
  case Nil
  then show ?case by simp
next
  case (Cons p ps t ts)
  from Cons.prems have "fetch_loop key (Suc i) ps ts (if p = key then i else m) = Some j"
    by (simp split: if_splits)
  from Cons.IH [OF this] show ?case
  proof
    assume j: "j = (if p = key then i else m) \<and> key \<notin> set ps"
    then show ?thesis by (cases "p = key") auto
  next
    assume "\<exists>k < length ps. j = Suc i + k \<and> ps ! k = key"
    then obtain k where "k < length ps" "j = Suc i + k" "ps ! k = key" by blast
    then have "Suc k < length (p # ps) \<and> j = i + Suc k \<and> (p # ps) ! Suc k = key" by simp
    then show ?thesis by blast
  qed
qed

end
