(* ===== verification/Qps_Limiter.thy ===== *)
theory Qps_Limiter
  imports Limiter Api_Matcher
begin

text \<open>
  \<open>src/limiters/user_qps_limiter.cpp\<close> and \<open>src/limiters/api_qps_limiter.cpp\<close>: the two
  limiters that count requests in the memory of one server, per user and per API. The rule of a
  user limiter is one \<open>LimitRule\<close>; the API limiter has a rule per pattern and a default. Both
  observe the configuration manager through \<open>update\<close>. A call is atomic: the mutexes cover each
  access, and the one on the item makes the counting exclusive.
\<close>

record LimiterConfigUpdateEvent =
  ev_configs :: "(string \<times> LimitRule) list"
  ev_removed :: "string list"

text \<open>The loop of \<open>currentState\<close>, the same in the three limiters: the counters of the keys the
  limiter knows are added, without replacing one that is there.\<close>

definition add_counters :: "(string \<Rightarrow> int option) \<Rightarrow> string list \<Rightarrow> (string \<times> int) list \<Rightarrow> (string \<times> int) list" where
  "add_counters status keys result =
     fold (\<lambda>k r. case status k of None \<Rightarrow> r | Some c \<Rightarrow> sm_emplace k c r) keys result"

definition fill_state :: "string \<Rightarrow> (string \<Rightarrow> int option) \<Rightarrow> LimitState \<Rightarrow> LimitState" where
  "fill_state ident status state =
     (if ls_keys state = [] then state
      else state\<lparr>ls_counters := add_counters status (ls_keys state) (ls_counters state),
                 ls_id := ident\<rparr>)"

section \<open>UserQpsLimiter\<close>

definition kUserQpsRuleKey :: string where
  "kUserQpsRuleKey = ''user/qps''"

definition kUserQpsIdentity :: string where
  "kUserQpsIdentity = ''UserQpsLimiter''"

record UserQpsLimiter =
  uq_rule :: LimitRule
  uq_status :: "(string \<times> Status) list"

definition UserQpsLimiter_new :: UserQpsLimiter where
  "UserQpsLimiter_new = \<lparr>uq_rule = mk_rule 1000 1000, uq_status = []\<rparr>"

definition UserQpsLimiter_acquireAccess ::
    "int \<Rightarrow> string \<Rightarrow> UserQpsLimiter \<Rightarrow> LimitLevel \<times> UserQpsLimiter" where
  "UserQpsLimiter_acquireAccess now i s =
     (let rule = uq_rule s;
          m_status = sm_emplace i fresh_status (uq_status s);
          item = the (map_of m_status i);
          (level, status) = window_acquire rule now item
      in (level, s\<lparr>uq_status := sm_put i status m_status\<rparr>))"

definition UserQpsLimiter_limited :: "int \<Rightarrow> string \<Rightarrow> UserQpsLimiter \<Rightarrow> LimitLevel" where
  "UserQpsLimiter_limited now i s =
     (case map_of (uq_status s) i of
        None \<Rightarrow> GOOD
      | Some st \<Rightarrow> window_limited (uq_rule s) now st)"

definition UserQpsLimiter_currentState :: "LimitState \<Rightarrow> UserQpsLimiter \<Rightarrow> LimitState" where
  "UserQpsLimiter_currentState state s =
     fill_state kUserQpsIdentity (\<lambda>k. map_option counter (map_of (uq_status s) k)) state"

definition UserQpsLimiter_update :: "LimiterConfigUpdateEvent \<Rightarrow> UserQpsLimiter \<Rightarrow> UserQpsLimiter" where
  "UserQpsLimiter_update event s =
     (case map_of (ev_configs event) kUserQpsRuleKey of
        None \<Rightarrow> if kUserQpsRuleKey \<in> set (ev_removed event)
                then s\<lparr>uq_rule := (uq_rule s)\<lparr>rule_count := 1000, rule_period := 1000\<rparr>\<rparr> else s
      | Some r \<Rightarrow> if rule_count (uq_rule s) \<noteq> rule_count r \<or> rule_period (uq_rule s) \<noteq> rule_period r
                  then s\<lparr>uq_rule := r\<rparr> else s)"

section \<open>ApiQpsLimiter\<close>

definition kDefaultApiQpsRuleKey :: string where
  "kDefaultApiQpsRuleKey = ''default''"

definition kApiQpsRuleKeyPrefix :: string where
  "kApiQpsRuleKeyPrefix = ''api/qps/''"

definition kApiQpsIdentity :: string where
  "kApiQpsIdentity = ''ApiQpsLimiter''"

record ApiQpsLimiter =
  aq_rules :: "(string \<times> LimitRule) list"
  aq_status :: "(string \<times> Status) list"
  aq_patterns :: "string list"

text \<open>Insertion into a set ordered by \<open>std::greater\<close>.\<close>

fun desc_insert :: "'a::linorder \<Rightarrow> 'a list \<Rightarrow> 'a list" where
  "desc_insert x [] = [x]"
| "desc_insert x (y # ys) = (if y > x then y # desc_insert x ys else if y = x then y # ys else x # y # ys)"

definition strip_slash :: "string \<Rightarrow> string" where
  "strip_slash api = (if api \<noteq> [] \<and> hd api = CHR ''/'' then tl api else api)"

definition ApiQpsLimiter_add :: "Api \<Rightarrow> ApiQpsLimiter \<Rightarrow> ApiQpsLimiter" where
  "ApiQpsLimiter_add item s =
     (let api = api_to_string item
      in if api = [] then s
         else s\<lparr>aq_patterns := desc_insert api (aq_patterns s),
                aq_status := sm_emplace (strip_slash api) fresh_status (aq_status s)\<rparr>)"

definition ApiQpsLimiter_new :: "Api list \<Rightarrow> ApiQpsLimiter" where
  "ApiQpsLimiter_new activeApis =
     fold ApiQpsLimiter_add activeApis \<lparr>aq_rules = [], aq_status = [], aq_patterns = []\<rparr>"

text \<open>The key a request is charged to: that of the first pattern that matches.\<close>

definition api_key :: "string list \<Rightarrow> string \<Rightarrow> string" where
  "api_key m_apiPatterns i =
     (case List.find (\<lambda>pattern. match_name pattern i) m_apiPatterns of
        None \<Rightarrow> []
      | Some pattern \<Rightarrow> strip_slash pattern)"

definition api_rule :: "(string \<times> LimitRule) list \<Rightarrow> string \<Rightarrow> LimitRule" where
  "api_rule m_rules api =
     (case map_of m_rules api of
        Some r \<Rightarrow> r
      | None \<Rightarrow> (case map_of m_rules kDefaultApiQpsRuleKey of Some r \<Rightarrow> r | None \<Rightarrow> mk_rule 1000 1000))"

definition ApiQpsLimiter_acquireAccess ::
    "int \<Rightarrow> string \<Rightarrow> ApiQpsLimiter \<Rightarrow> LimitLevel \<times> ApiQpsLimiter" where
  "ApiQpsLimiter_acquireAccess now i s =
     (let api = api_key (aq_patterns s) i
      in if api = [] then (GOOD, s)
         else let rule = api_rule (aq_rules s) api
              in case map_of (aq_status s) api of
                   None \<Rightarrow> (GOOD, s)
                 | Some item \<Rightarrow>
                     (let (level, status) = window_acquire rule now item
                      in (level, s\<lparr>aq_status := sm_put api status (aq_status s)\<rparr>)))"

definition ApiQpsLimiter_limited :: "int \<Rightarrow> string \<Rightarrow> ApiQpsLimiter \<Rightarrow> LimitLevel" where
  "ApiQpsLimiter_limited now i s =
     (case map_of (aq_status s) i of
        None \<Rightarrow> GOOD
      | Some st \<Rightarrow> window_limited (api_rule (aq_rules s) i) now st)"

definition ApiQpsLimiter_currentState :: "LimitState \<Rightarrow> ApiQpsLimiter \<Rightarrow> LimitState" where
  "ApiQpsLimiter_currentState state s =
     fill_state kApiQpsIdentity (\<lambda>k. map_option counter (map_of (aq_status s) k)) state"

definition rule_differs :: "(string \<times> LimitRule) list \<Rightarrow> string \<Rightarrow> LimitRule \<Rightarrow> bool" where
  "rule_differs rules name r =
     (case map_of rules name of
        None \<Rightarrow> True
      | Some r0 \<Rightarrow> \<not> (rule_count r0 = rule_count r \<and> rule_period r0 = rule_period r))"

definition changed_step ::
    "(string \<times> LimitRule) list \<Rightarrow> string \<times> LimitRule \<Rightarrow> (string \<times> LimitRule) list \<Rightarrow> (string \<times> LimitRule) list" where
  "changed_step rules item changed =
     (if fst item = kDefaultApiQpsRuleKey
      then (if rule_differs rules (fst item) (snd item)
            then sm_emplace (fst item) (mk_rule (rule_period (snd item)) (rule_count (snd item))) changed
            else changed)
      else if starts_with (fst item) kApiQpsRuleKeyPrefix
      then (let name = drop (length kApiQpsRuleKeyPrefix) (fst item)
            in if rule_differs rules name (snd item)
               then sm_emplace name (mk_rule (rule_period (snd item)) (rule_count (snd item))) changed
               else changed)
      else changed)"

definition removed_step :: "(string \<times> LimitRule) list \<Rightarrow> string \<Rightarrow> string list \<Rightarrow> string list" where
  "removed_step rules item removed =
     (let removed1 = (if item = kDefaultApiQpsRuleKey then List.insert kDefaultApiQpsRuleKey removed else removed)
      in if starts_with item kApiQpsRuleKeyPrefix
         then (let name = drop (length kApiQpsRuleKeyPrefix) item
               in if map_of rules name \<noteq> None then List.insert name removed1 else removed1)
         else removed1)"

definition ApiQpsLimiter_update :: "LimiterConfigUpdateEvent \<Rightarrow> ApiQpsLimiter \<Rightarrow> ApiQpsLimiter" where
  "ApiQpsLimiter_update event s =
     (let rules = aq_rules s;
          changed = fold (changed_step rules) (ev_configs event) [];
          removed = fold (removed_step rules) (ev_removed event) []
      in if changed = [] \<and> removed = [] then s
         else s\<lparr>aq_rules := fold sm_del removed
                   (fold (\<lambda>item. sm_put (fst item) (snd item)) changed (aq_rules s))\<rparr>)"

section \<open>Limiters that keep one window per key\<close>

text \<open>The answers to a sequence of requests, each with its time and id.\<close>

fun answers :: "(int \<Rightarrow> string \<Rightarrow> 's \<Rightarrow> LimitLevel \<times> 's) \<Rightarrow> (int \<times> string) list \<Rightarrow> 's
    \<Rightarrow> (int \<times> string \<times> LimitLevel) list" where
  "answers acq [] s = []"
| "answers acq ((t, i) # rs) s = (let (l, s') = acq t i s in (t, i, l) # answers acq rs s')"

text \<open>The requests of the ids that satisfy \<open>p\<close> granted from \<open>a\<close> on and before \<open>b\<close>.\<close>

definition granted_to :: "(string \<Rightarrow> bool) \<Rightarrow> int \<Rightarrow> int \<Rightarrow> (int \<times> string \<times> LimitLevel) list \<Rightarrow> nat" where
  "granted_to p a b r = length (filter (\<lambda>(t, i, l). p i \<and> a \<le> t \<and> t < b \<and> l = GOOD) r)"

text \<open>Both limiters are instances of this interface: an id has a key, a key has a rule and a
  window, and a request steps the window of its key and nothing else.\<close>

locale keyed_window =
  fixes acquire :: "int \<Rightarrow> string \<Rightarrow> 's \<Rightarrow> LimitLevel \<times> 's"
    and key :: "'s \<Rightarrow> string \<Rightarrow> string option"
    and rule :: "'s \<Rightarrow> string \<Rightarrow> LimitRule"
    and win :: "'s \<Rightarrow> string \<Rightarrow> Status"
  assumes key_acquire: "key (snd (acquire now i s)) = key s"
    and rule_acquire: "rule (snd (acquire now i s)) = rule s"
    and win_acquire: "key s i = Some k \<Longrightarrow>
      window_acquire (rule s k) now (win s k) = (fst (acquire now i s), win (snd (acquire now i s)) k)"
    and win_other: "key s i \<noteq> Some k \<Longrightarrow> win (snd (acquire now i s)) k = win s k"
begin

lemma granted_to_key:
  "granted_to (\<lambda>i. key s i = Some k) a b (answers acquire rs s) =
    granted_in a b (window_run (rule s k) (map fst (filter (\<lambda>r. key s (snd r) = Some k) rs)) (win s k))"
proof (induction rs arbitrary: s)
  case Nil
  show ?case by (simp add: granted_to_def)
next
  case (Cons r rs)
  obtain t i where r: "r = (t, i)" by (cases r)
  obtain l s' where a: "acquire t i s = (l, s')" by (cases "acquire t i s")
  have keep: "key s' = key s" "rule s' = rule s"
    using key_acquire [of t i s] rule_acquire [of t i s] a by simp_all
  show ?case
  proof (cases "key s i = Some k")
    case True
    from win_acquire [OF True, of t] a have "window_acquire (rule s k) t (win s k) = (l, win s' k)"
      by simp
    with True Cons.IH [of s'] show ?thesis by (simp add: r a keep granted_to_def)
  next
    case False
    from win_other [OF False, of t] a have "win s' k = win s k" by simp
    with False Cons.IH [of s'] show ?thesis by (simp add: r a keep granted_to_def)
  qed
qed

text \<open>In no interval as long as the period are more than two quotas granted.\<close>

lemma key_rate:
  assumes "sorted (map fst rs)" and "\<forall>r \<in> set rs. 0 < fst r" and "0 \<le> counter (win s k)"
  shows "granted_to (\<lambda>i. key s i = Some k) a (a + rule_period (rule s k)) (answers acquire rs s)
    \<le> 2 * quota (rule s k)"
  unfolding granted_to_key
  by (rule granted_window) (use assms in \<open>auto intro: sorted_filter\<close>)

end

section \<open>The user limiter\<close>

definition user_status :: "UserQpsLimiter \<Rightarrow> string \<Rightarrow> Status" where
  "user_status s u = (case map_of (uq_status s) u of None \<Rightarrow> fresh_status | Some st \<Rightarrow> st)"

definition user_inv :: "UserQpsLimiter \<Rightarrow> bool" where
  "user_inv s \<longleftrightarrow> 0 \<le> rule_count (uq_rule s)
     \<and> (\<forall>u. 0 \<le> counter (user_status s u) \<and> (startTime (user_status s u) = 0 \<longrightarrow> counter (user_status s u) = 0))"

lemma user_acquire:
  "UserQpsLimiter_acquireAccess now i s =
    (let (level, status) = window_acquire (uq_rule s) now (user_status s i)
     in (level, s\<lparr>uq_status := sm_put i status (sm_emplace i fresh_status (uq_status s))\<rparr>))"
  by (simp add: UserQpsLimiter_acquireAccess_def user_status_def map_of_sm_emplace Let_def
      split: option.splits)

lemma user_status_acquire:
  "user_status (snd (UserQpsLimiter_acquireAccess now i s)) u =
    (if u = i then snd (window_acquire (uq_rule s) now (user_status s i)) else user_status s u)"
  by (auto simp: user_acquire user_status_def split_beta Let_def map_of_sm_emplace split: option.splits)

lemma user_rule_acquire [simp, frame]:
  "uq_rule (snd (UserQpsLimiter_acquireAccess now i s)) = uq_rule s"
  by (simp add: user_acquire split_beta Let_def)

lemma user_inv_acquire [inv_pres]:
  "user_inv s \<Longrightarrow> 0 < now \<Longrightarrow> user_inv (snd (UserQpsLimiter_acquireAccess now i s))"
  by (auto simp: user_inv_def user_status_acquire window_acquire_def Let_def)

interpretation uq_win: keyed_window UserQpsLimiter_acquireAccess "\<lambda>_. Some" "\<lambda>s _. uq_rule s" user_status
  by unfold_locales (auto simp: user_status_acquire, simp add: user_acquire split_beta Let_def)

interpretation uq: ILimiter "\<lambda>now i s. Inr (UserQpsLimiter_acquireAccess now i s)"
    "\<lambda>now i s. Inr (UserQpsLimiter_limited now i s)" "\<lambda>now. 0 < now" user_inv
proof (unfold_locales, goal_cases)
  case (1 s now i)
  then show ?case using user_inv_acquire [of s now i] by (metis surj_pair snd_conv)
next
  case (2 s now i)
  show ?case by simp
next
  case (3 s now i)
  then show ?case
    by (auto simp: user_inv_def UserQpsLimiter_limited_def user_acquire user_status_def
        window_limited_def window_acquire_def Let_def split: option.splits if_splits)
next
  case (4 now i s l s' j now')
  then have "user_status s' j = user_status s j" and "uq_rule s' = uq_rule s"
    using user_status_acquire [of now i s j] user_rule_acquire [of now i s] by simp_all
  moreover have "map_of (uq_status s') j = map_of (uq_status s) j"
    using 4 by (auto simp: user_acquire split_beta Let_def map_of_sm_emplace split: option.splits)
  ultimately show ?case by (simp add: UserQpsLimiter_limited_def split: option.splits)
qed

section \<open>The API limiter\<close>

definition api_counter_key :: "ApiQpsLimiter \<Rightarrow> string \<Rightarrow> string option" where
  "api_counter_key s i =
     (let k = api_key (aq_patterns s) i in if k = [] \<or> map_of (aq_status s) k = None then None else Some k)"

definition api_status :: "ApiQpsLimiter \<Rightarrow> string \<Rightarrow> Status" where
  "api_status s k = (case map_of (aq_status s) k of None \<Rightarrow> fresh_status | Some st \<Rightarrow> st)"

lemma api_acquire:
  "ApiQpsLimiter_acquireAccess now i s =
    (case api_counter_key s i of
       None \<Rightarrow> (GOOD, s)
     | Some k \<Rightarrow> (let (level, status) = window_acquire (api_rule (aq_rules s) k) now (api_status s k)
                 in (level, s\<lparr>aq_status := sm_put k status (aq_status s)\<rparr>)))"
  by (auto simp: ApiQpsLimiter_acquireAccess_def api_counter_key_def api_status_def Let_def split: option.splits)

lemma api_acquire_frame [simp, frame]:
  "aq_patterns (snd (ApiQpsLimiter_acquireAccess now i s)) = aq_patterns s"
  "aq_rules (snd (ApiQpsLimiter_acquireAccess now i s)) = aq_rules s"
  by (simp_all add: api_acquire split_beta Let_def split: option.splits)

lemma api_counter_key_known: "api_counter_key s i = Some k \<Longrightarrow> \<exists>st. map_of (aq_status s) k = Some st"
  by (auto simp: api_counter_key_def Let_def split: if_splits)

lemma api_counter_key_acquire [simp, frame]:
  "api_counter_key (snd (ApiQpsLimiter_acquireAccess now i s)) = api_counter_key s"
proof
  fix j
  have "map_of (aq_status (snd (ApiQpsLimiter_acquireAccess now i s))) k = None \<longleftrightarrow> map_of (aq_status s) k = None"
    for k using api_counter_key_known [of s i]
    by (auto simp: api_acquire split_beta Let_def split: option.splits)
  then show "api_counter_key (snd (ApiQpsLimiter_acquireAccess now i s)) j = api_counter_key s j"
    by (simp add: api_counter_key_def)
qed

interpretation aq_win: keyed_window ApiQpsLimiter_acquireAccess api_counter_key
    "\<lambda>s. api_rule (aq_rules s)" api_status
proof (unfold_locales, goal_cases)
  case (3 s i k now)
  then show ?case by (auto simp: api_acquire api_status_def split_beta Let_def)
next
  case (4 s i k now)
  then show ?case by (auto simp: api_acquire api_status_def split_beta Let_def split: option.splits)
qed simp_all

subsection \<open>Which pattern a request is charged to\<close>

lemma append_less_append: "(a @ x < a @ y) = (x < (y :: 'a::linorder list))"
  by (induction a) auto

lemma sorted_desc_insert: "sorted_wrt (>) xs \<Longrightarrow> sorted_wrt (>) (desc_insert x xs)"
proof (induction xs)
  case Nil
  show ?case by simp
next
  case (Cons y ys)
  have "set (desc_insert x ys) = insert x (set ys)" for ys by (induction ys) auto
  with Cons show ?case by (auto simp: not_less less_le)
qed

lemma set_desc_insert: "set (desc_insert x xs) = insert x (set xs)"
  by (induction xs) auto

definition colon_segment :: "string \<Rightarrow> bool" where
  "colon_segment t \<longleftrightarrow> t \<noteq> [] \<and> hd t = CHR '':''"

text \<open>A segment that begins above the colon, as every literal segment of the table does.\<close>

definition plain_segment :: "string \<Rightarrow> bool" where
  "plain_segment t \<longleftrightarrow> t \<noteq> [] \<and> hd t > CHR '':''"

lemma join_match_less:
  assumes "list_all2 matchInternal ps ts" and "\<forall>t \<in> set ts. plain_segment t" and "ps \<noteq> ts"
  shows "join_with (CHR ''/'') ps < join_with (CHR ''/'') ts"
  using assms
proof (induction ps ts rule: list_all2_induct)
  case Nil
  then show ?case by simp
next
  case (Cons p ps t ts)
  have empty: "ps = [] \<longleftrightarrow> ts = []" using Cons.hyps(2) by auto
  show ?case
  proof (cases "p = t")
    case True
    with Cons have less: "join_with (CHR ''/'') ps < join_with (CHR ''/'') ts" by simp
    then have "ps \<noteq> []" using empty by auto
    with less empty True show ?thesis by (simp add: join_with_Cons append_less_append)
  next
    case False
    with Cons.hyps(1) have "p \<noteq> []" and "hd p = CHR '':''" by (auto simp: matchInternal_def split: if_splits)
    moreover have "t \<noteq> []" and "CHR '':'' < hd t" using Cons.prems(1) by (auto simp: plain_segment_def)
    moreover have "\<exists>u us. join_with (CHR ''/'') (q # qs) = hd q # u" if "q \<noteq> []" for q qs
      using that by (cases q; cases qs) auto
    ultimately show ?thesis by (metis Cons_less_Cons)
  qed
qed

lemma match_less:
  assumes "match_name q i" and "q \<noteq> i" and "\<not> colon_segment q"
    and "\<forall>t \<in> set (tl (split_on (CHR ''/'') i)). plain_segment t"
  shows "q < i"
proof -
  obtain p ps where q: "split_on (CHR ''/'') q = p # ps" by (cases "split_on (CHR ''/'') q") auto
  obtain t ts where i: "split_on (CHR ''/'') i = t # ts" by (cases "split_on (CHR ''/'') i") auto
  from assms(1) have hd: "matchInternal p t" and tl: "list_all2 matchInternal ps ts"
    by (simp_all add: match_name_iff q i)
  have jq: "join_with (CHR ''/'') (p # ps) = q" using join_split_on [of "CHR ''/''" q] q by simp
  have ji: "join_with (CHR ''/'') (t # ts) = i" using join_split_on [of "CHR ''/''" i] i by simp
  have "\<not> colon_segment p" using assms(3) unfolding jq [symmetric] colon_segment_def
    by (cases ps; cases p) auto
  with hd have "p = t" by (auto simp: matchInternal_def colon_segment_def split: if_splits)
  moreover from this have ne: "ps \<noteq> ts" using assms(2) jq ji by auto
  then have "join_with (CHR ''/'') ps < join_with (CHR ''/'') ts"
    using join_match_less [OF tl] assms(4) i by simp
  moreover have "ps \<noteq> []" "ts \<noteq> []" using ne tl by auto
  ultimately show ?thesis
    using jq ji by (metis append_less_append join_with_Cons Cons_less_Cons)
qed

lemma find_descending:
  assumes "sorted_wrt (>) xs" and "x \<in> set xs" and "P x" and "\<And>y. y \<in> set xs \<Longrightarrow> P y \<Longrightarrow> y \<le> x"
  shows "List.find P xs = Some (x :: 'a::linorder)"
  using assms
proof (induction xs)
  case Nil
  then show ?case by simp
next
  case (Cons y ys)
  then show ?case by (cases "y = x") (auto dest: leD)
qed

lemma api_key_exact:
  assumes "sorted_wrt (>) patterns" and "i \<in> set patterns" and "\<forall>q \<in> set patterns. \<not> colon_segment q"
    and "\<forall>t \<in> set (tl (split_on (CHR ''/'') i)). plain_segment t"
  shows "api_key patterns i = strip_slash i"
proof -
  have "List.find (\<lambda>q. match_name q i) patterns = Some i"
    by (rule find_descending [OF assms(1,2)])
      (use match_less assms(3,4) in \<open>force intro: less_imp_le simp: less_le\<close>)+
  then show ?thesis by (simp add: api_key_def)
qed

subsection \<open>The limiter of the table\<close>

lemma ApiQpsLimiter_add_patterns:
  "sorted_wrt (>) (aq_patterns s) \<Longrightarrow> sorted_wrt (>) (aq_patterns (ApiQpsLimiter_add a s))"
  "set (aq_patterns (ApiQpsLimiter_add a s)) = set (aq_patterns s) \<union> ({api_to_string a} - {[]})"
  by (auto simp: ApiQpsLimiter_add_def Let_def sorted_desc_insert set_desc_insert)

lemma ApiQpsLimiter_fold_patterns:
  "sorted_wrt (>) (aq_patterns s) \<Longrightarrow>
    sorted_wrt (>) (aq_patterns (fold ApiQpsLimiter_add as s))
    \<and> set (aq_patterns (fold ApiQpsLimiter_add as s)) = set (aq_patterns s) \<union> (api_to_string ` set as - {[]})"
proof (induction as arbitrary: s)
  case Nil
  then show ?case by simp
next
  case (Cons a as)
  then show ?case using ApiQpsLimiter_add_patterns(1) [of s a] by (auto simp: ApiQpsLimiter_add_patterns(2))
qed

lemma ApiQpsLimiter_new_patterns:
  "sorted_wrt (>) (aq_patterns (ApiQpsLimiter_new as))"
  "set (aq_patterns (ApiQpsLimiter_new as)) = api_to_string ` set as - {[]}"
  using ApiQpsLimiter_fold_patterns [of "\<lparr>aq_rules = [], aq_status = [], aq_patterns = []\<rparr>" as]
  by (simp_all add: ApiQpsLimiter_new_def)

text \<open>Every pattern has its counter: the branch of \<open>acquireAccess\<close> for a missing item is dead.\<close>

definition api_inv :: "ApiQpsLimiter \<Rightarrow> bool" where
  "api_inv s \<longleftrightarrow> (\<forall>p \<in> set (aq_patterns s). map_of (aq_status s) (strip_slash p) \<noteq> None)
     \<and> (\<forall>k. 0 \<le> counter (api_status s k))"

lemma api_inv_add [inv_pres]: "api_inv s \<Longrightarrow> api_inv (ApiQpsLimiter_add a s)"
  by (auto simp: api_inv_def ApiQpsLimiter_add_def Let_def set_desc_insert map_of_sm_emplace
      api_status_def fresh_status_def split: option.splits)

lemma api_inv_new [inv_pres]: "api_inv (ApiQpsLimiter_new as)"
proof -
  have "api_inv s \<Longrightarrow> api_inv (fold ApiQpsLimiter_add as s)" for s
    by (induction as arbitrary: s) (auto intro: inv_pres)
  moreover have "api_inv \<lparr>aq_rules = [], aq_status = [], aq_patterns = []\<rparr>"
    by (simp add: api_inv_def api_status_def fresh_status_def)
  ultimately show ?thesis by (simp add: ApiQpsLimiter_new_def)
qed

lemma api_inv_acquire [inv_pres]: "api_inv s \<Longrightarrow> api_inv (snd (ApiQpsLimiter_acquireAccess now i s))"
proof -
  assume inv: "api_inv s"
  let ?s = "snd (ApiQpsLimiter_acquireAccess now i s)"
  have "map_of (aq_status ?s) k \<noteq> None" if "map_of (aq_status s) k \<noteq> None" for k
    using that by (auto simp: api_acquire split_beta Let_def split: option.splits)
  moreover have "0 \<le> counter (api_status ?s k)" for k
  proof (cases "api_counter_key s i = Some k")
    case True
    have "0 \<le> counter (snd (window_acquire r now st))" if "0 \<le> counter st" for r st
      using that by (simp add: window_acquire_def Let_def)
    with aq_win.win_acquire [OF True, of now] inv show ?thesis by (metis api_inv_def snd_conv)
  next
    case False
    from aq_win.win_other [OF this, of now] inv show ?thesis by (simp add: api_inv_def)
  qed
  ultimately show ?thesis using inv by (simp add: api_inv_def)
qed

lemma find_SomeD: "List.find P xs = Some x \<Longrightarrow> x \<in> set xs \<and> P x"
  by (induction xs) (auto split: if_splits)

lemma api_counter_key_inv:
  assumes "api_inv s" and "api_key (aq_patterns s) i \<noteq> []"
  shows "api_counter_key s i = Some (api_key (aq_patterns s) i)"
proof -
  from assms(2) obtain p where "p \<in> set (aq_patterns s)" "api_key (aq_patterns s) i = strip_slash p"
    by (auto simp: api_key_def dest: find_SomeD split: option.splits)
  with assms show ?thesis by (auto simp: api_counter_key_def api_inv_def Let_def)
qed

text \<open>The facts on the table that the choice of the pattern rests on, by evaluation.\<close>

definition literal_api :: "Api \<Rightarrow> bool" where
  "literal_api a \<longleftrightarrow> list_all (\<lambda>t. \<not> colon_segment t) (split_on (CHR ''/'') (api_name a))"

lemma table_names:
  "list_all (\<lambda>a. api_name a \<noteq> [] \<and> \<not> colon_segment (api_name a)
     \<and> List.member [''PATCH'', ''PUT'', ''POST'', ''GET'', ''DELETE''] (api_method a)) kActiveApis"
  by code_simp

lemma table_segments:
  "list_all (\<lambda>a. list_all (\<lambda>t. colon_segment t \<or> plain_segment t) (tl (split_on (CHR ''/'') (api_name a)))) kActiveApis"
  by code_simp

lemma lower_verbs:
  "map to_lower ''PATCH'' = ''patch''" "map to_lower ''PUT'' = ''put''" "map to_lower ''POST'' = ''post''"
  "map to_lower ''GET'' = ''get''" "map to_lower ''DELETE'' = ''delete''"
  by code_simp+

lemma table_verb:
  assumes "a \<in> set kActiveApis"
  shows "CHR ''/'' \<notin> set (map to_lower (api_method a)) \<and> plain_segment (map to_lower (api_method a))"
proof -
  have "api_method a \<in> {''PATCH'', ''PUT'', ''POST'', ''GET'', ''DELETE''}"
    using assms table_names by (simp add: list_all_iff)
  then have "map to_lower (api_method a) \<in> {''patch'', ''put'', ''post'', ''get'', ''delete''}"
    using lower_verbs by auto
  then show ?thesis by (auto simp: plain_segment_def)
qed

lemma table_no_colon: "a \<in> set kActiveApis \<Longrightarrow> api_to_string a \<noteq> [] \<and> \<not> colon_segment (api_to_string a)"
  using table_names by (auto simp: list_all_iff api_to_string_def colon_segment_def)

lemma table_plain:
  assumes "a \<in> set kActiveApis" and "literal_api a"
  shows "\<forall>t \<in> set (tl (split_on (CHR ''/'') (api_to_string a))). plain_segment t"
proof -
  have "split_on (CHR ''/'') (api_to_string a) = split_on (CHR ''/'') (api_name a) @ [map to_lower (api_method a)]"
    using table_verb [OF assms(1)] table_no_colon [OF assms(1)]
    by (simp add: api_to_string_def split_on_snoc split: if_splits)
  then have tl: "tl (split_on (CHR ''/'') (api_to_string a)) =
      tl (split_on (CHR ''/'') (api_name a)) @ [map to_lower (api_method a)]" by simp
  have "colon_segment t \<or> plain_segment t" "\<not> colon_segment t" if "t \<in> set (tl (split_on (CHR ''/'') (api_name a)))" for t
    using that assms table_segments by (auto simp: list_all_iff literal_api_def dest: list.set_sel(2) [OF split_on_not_Nil])
  with table_verb [OF assms(1)] show ?thesis by (auto simp: tl)
qed

section \<open>Properties\<close>

text \<open>C9. The user limiter bounds a user's rate: for a sequence of requests at positive,
  non-decreasing times on a limiter that satisfies its invariant, in no interval as long as the
  rule's period are more than twice the rule's count (at least one) of a user's requests granted,
  whatever other users send in between.\<close>

theorem user_rate_bounded:
  assumes "user_inv s" and "sorted (map fst rs)" and "\<forall>r \<in> set rs. 0 < fst r"
  shows "granted_to (\<lambda>i. i = u) a (a + rule_period (uq_rule s)) (answers UserQpsLimiter_acquireAccess rs s)
    \<le> 2 * nat (max 1 (rule_count (uq_rule s)))"
  using uq_win.key_rate [OF assms(2,3), of s u a] assms(1)
  by (simp add: user_inv_def quota_def)

theorem user_rate_bounded_witness:
  "granted_to (\<lambda>i. i = ''u'') 5 1005
     (answers UserQpsLimiter_acquireAccess [(5, ''u''), (6, ''v''), (7, ''u''), (2000, ''u'')] UserQpsLimiter_new) \<le> 2000"
  using user_rate_bounded [of UserQpsLimiter_new "[(5, ''u''), (6, ''v''), (7, ''u''), (2000, ''u'')]" "''u''" 5]
  by (simp add: UserQpsLimiter_new_def user_inv_def user_status_def mk_rule_def fresh_status_def)

text \<open>C10. The API limiter bounds the rate of an API: on a limiter that satisfies its invariant, in
  no interval as long as the period of the API's rule (its own, or the default one) are more than
  twice the rule's count of the requests charged to that API granted, over all clients.\<close>

theorem api_rate_bounded:
  assumes "api_inv s" and "sorted (map fst rs)" and "\<forall>r \<in> set rs. 0 < fst r" and "k \<noteq> []"
  shows "granted_to (\<lambda>i. api_key (aq_patterns s) i = k) a (a + rule_period (api_rule (aq_rules s) k))
      (answers ApiQpsLimiter_acquireAccess rs s) \<le> 2 * nat (max 1 (rule_count (api_rule (aq_rules s) k)))"
proof -
  have "(api_key (aq_patterns s) i = k) = (api_counter_key s i = Some k)" for i
    using api_counter_key_inv [OF assms(1), of i] assms(4)
    by (auto simp: api_counter_key_def Let_def split: if_splits)
  then show ?thesis
    using aq_win.key_rate [OF assms(2,3), of s k a] assms(1) by (simp add: api_inv_def quota_def)
qed

definition demo_api_limiter :: ApiQpsLimiter where
  "demo_api_limiter = ApiQpsLimiter_new [mk_api ''GET'' ''/a'']"

theorem api_rate_bounded_witness:
  "granted_to (\<lambda>i. api_key (aq_patterns demo_api_limiter) i = ''a/get'') 1 1001
     (answers ApiQpsLimiter_acquireAccess [(1, ''/a/get''), (2, ''/a/get'')] demo_api_limiter) \<le> 2000"
proof -
  have rule: "api_rule (aq_rules demo_api_limiter) ''a/get'' = mk_rule 1000 1000" by code_simp
  have "api_inv demo_api_limiter" unfolding demo_api_limiter_def by (rule inv_pres)
  from api_rate_bounded [OF this, of "[(1, ''/a/get''), (2, ''/a/get'')]" "''a/get''" 1]
  show ?thesis by (simp add: rule) (simp add: mk_rule_def)
qed

text \<open>A request to an API of the table without path parameters is charged to the counter of
  that very API, although patterns with parameters match it as well.\<close>

lemma literal_api_own_counter:
  assumes "a \<in> set kActiveApis" and "literal_api a"
  shows "api_counter_key (ApiQpsLimiter_new kActiveApis) (api_to_string a) = Some (strip_slash (api_to_string a))"
proof -
  let ?s = "ApiQpsLimiter_new kActiveApis"
  have plain: "api_to_string a \<noteq> []" "\<forall>t \<in> set (tl (split_on (CHR ''/'') (api_to_string a))). plain_segment t"
    using table_plain [OF assms] table_no_colon [OF assms(1)] by simp_all
  have key: "api_key (aq_patterns ?s) (api_to_string a) = strip_slash (api_to_string a)"
  proof (rule api_key_exact)
    show "sorted_wrt (>) (aq_patterns ?s)" by (rule ApiQpsLimiter_new_patterns)
    show "api_to_string a \<in> set (aq_patterns ?s)" using assms(1) plain(1) by (simp add: ApiQpsLimiter_new_patterns)
    show "\<forall>q \<in> set (aq_patterns ?s). \<not> colon_segment q"
      using table_no_colon by (auto simp: ApiQpsLimiter_new_patterns)
  qed (rule plain(2))
  have "strip_slash (api_to_string a) \<noteq> []"
    using plain(1) by (auto simp: strip_slash_def api_to_string_def split: if_splits)
  with key api_counter_key_inv [OF api_inv_new] show ?thesis by metis
qed

theorem literal_api_own_counter_witness:
  "api_counter_key (ApiQpsLimiter_new kActiveApis) ''/v2/contacts/filters/patch'' = Some ''v2/contacts/filters/patch''"
proof -
  let ?a = "mk_api ''PATCH'' ''/v2/contacts/filters''"
  have "?a \<in> set kActiveApis" by (simp add: kActiveApis_def apis_of_def)
  moreover have "literal_api ?a" and s: "api_to_string ?a = ''/v2/contacts/filters/patch''" by code_simp+
  ultimately show ?thesis using literal_api_own_counter [of ?a] by (simp add: strip_slash_def)
qed

end
