(* ===== verification/Distributed_Limiter.thy ===== *)
theory Distributed_Limiter
  imports Qps_Limiter
begin

text \<open>
  \<open>src/limiters/distributed_limiter.cpp\<close>: a limiter whose counters are in Redis, so that all
  servers share them. Time is cut into slots of the rule's period; a slot's counter is the Redis
  key \<open>identity_uid_slot\<close>. A call receives the wall clock and the reply of the
  \<open>INCR\<close> command (the return code of the client and the value), and returns the commands it
  sent. The division by the period traps when the period is zero.
\<close>

section \<open>Integers in C++\<close>

text \<open>Division of signed integers rounds towards zero.\<close>

definition cdiv :: "int \<Rightarrow> int \<Rightarrow> int" where
  "cdiv a b = sgn a * sgn b * (\<bar>a\<bar> div \<bar>b\<bar>)"

definition int_dec :: "int \<Rightarrow> string" where
  "int_dec i = (if i < 0 then CHR ''-'' # to_dec (nat (- i)) else to_dec (nat i))"

section \<open>DistributedLimiter\<close>

datatype RedisCmd = RedisIncr string string | RedisSet string string string | RedisExpire string string u32

record Item =
  it_timeSlot :: int
  it_count :: int

record DistributedLimiter =
  dl_defaultPeriod :: int
  dl_defaultCount :: int
  dl_identity :: string
  dl_configKey :: string
  dl_rule :: LimitRule
  dl_status :: "(string \<times> Item) list"

definition DistributedLimiter_new :: "string \<Rightarrow> string \<Rightarrow> int \<Rightarrow> int \<Rightarrow> DistributedLimiter" where
  "DistributedLimiter_new ident configKey p c =
     \<lparr>dl_defaultPeriod = p, dl_defaultCount = c, dl_identity = ident, dl_configKey = configKey,
      dl_rule = mk_rule p c, dl_status = []\<rparr>"

text \<open>The switch of \<open>incr\<close>: its cases have no \<open>break\<close>, so each runs into the next.\<close>

definition incr_default ::
    "string \<Rightarrow> string \<Rightarrow> u32 \<Rightarrow> u64 \<Rightarrow> int \<times> RedisCmd list \<Rightarrow> int \<times> RedisCmd list" where
  "incr_default uid keyId period new_value st =
     (sint new_value, snd st @ (if 1 = new_value then [RedisExpire uid keyId period] else []))"

definition incr_case_0 ::
    "string \<Rightarrow> string \<Rightarrow> u32 \<Rightarrow> u64 \<Rightarrow> int \<times> RedisCmd list \<Rightarrow> int \<times> RedisCmd list" where
  "incr_case_0 uid keyId period new_value st =
     incr_default uid keyId period new_value
       (1, snd st @ [RedisSet uid keyId ''1'', RedisExpire uid keyId period])"

definition incr_case_m1 ::
    "string \<Rightarrow> string \<Rightarrow> u32 \<Rightarrow> u64 \<Rightarrow> int \<times> RedisCmd list \<Rightarrow> int \<times> RedisCmd list" where
  "incr_case_m1 uid keyId period new_value st = incr_case_0 uid keyId period new_value (0, snd st)"

definition DistributedLimiter_incr ::
    "string \<Rightarrow> string \<Rightarrow> LimitRule \<Rightarrow> int \<Rightarrow> int \<times> u64 \<Rightarrow> int \<times> RedisCmd list" where
  "DistributedLimiter_incr m_identity uid rule timeSlot reply =
     (let (ret, new_value) = reply;
          period = word_of_int (cdiv (rule_period rule) 1000);
          keyId = m_identity @ ''_'' @ uid @ ''_'' @ int_dec timeSlot;
          st = (0, [RedisIncr uid keyId])
      in if ret = -1 then incr_case_m1 uid keyId period new_value st
         else if ret = 0 then incr_case_0 uid keyId period new_value st
         else incr_default uid keyId period new_value st)"

definition DistributedLimiter_acquireAccess ::
    "int \<Rightarrow> int \<times> u64 \<Rightarrow> string \<Rightarrow> DistributedLimiter
      \<Rightarrow> cpp_error + LimitLevel \<times> DistributedLimiter \<times> RedisCmd list" where
  "DistributedLimiter_acquireAccess now reply uid s =
     (let rule = dl_rule s
      in if rule_period rule = 0 then Inl DivideByZero
         else
           let timeSlot = cdiv now (rule_period rule);
               limited = (case map_of (dl_status s) uid of
                            None \<Rightarrow> False
                          | Some item \<Rightarrow> timeSlot = it_timeSlot item \<and> it_count item > rule_count rule);
               m_status = sm_emplace uid \<lparr>it_timeSlot = 0, it_count = 0\<rparr> (dl_status s);
               item = the (map_of m_status uid)
           in if limited
              then Inr (LIMITED,
                s\<lparr>dl_status := sm_put uid (item\<lparr>it_count := it_count item + 1\<rparr>) m_status\<rparr>, [])
              else
                let (count, cmds) = DistributedLimiter_incr (dl_identity s) uid rule timeSlot reply;
                    s' = s\<lparr>dl_status := sm_put uid (item\<lparr>it_count := count, it_timeSlot := timeSlot\<rparr>) m_status\<rparr>
                in if count > rule_count rule then Inr (LIMITED, s', cmds) else Inr (GOOD, s', cmds))"

definition DistributedLimiter_limited :: "int \<Rightarrow> string \<Rightarrow> DistributedLimiter \<Rightarrow> cpp_error + LimitLevel" where
  "DistributedLimiter_limited now i s =
     (case map_of (dl_status s) i of
        None \<Rightarrow> Inr GOOD
      | Some it \<Rightarrow>
          if rule_period (dl_rule s) = 0 then Inl DivideByZero
          else if cdiv now (rule_period (dl_rule s)) = it_timeSlot it \<and> it_count it > rule_count (dl_rule s)
          then Inr LIMITED else Inr GOOD)"

definition DistributedLimiter_currentState :: "LimitState \<Rightarrow> DistributedLimiter \<Rightarrow> LimitState" where
  "DistributedLimiter_currentState state s =
     fill_state (dl_identity s) (\<lambda>k. map_option it_count (map_of (dl_status s) k)) state"

definition DistributedLimiter_update :: "LimiterConfigUpdateEvent \<Rightarrow> DistributedLimiter \<Rightarrow> DistributedLimiter" where
  "DistributedLimiter_update event s =
     (case map_of (ev_configs event) (dl_configKey s) of
        None \<Rightarrow> if dl_configKey s \<in> set (ev_removed event)
                then s\<lparr>dl_rule := (dl_rule s)\<lparr>rule_count := dl_defaultCount s, rule_period := dl_defaultPeriod s\<rparr>\<rparr>
                else s
      | Some r \<Rightarrow> if rule_period r < 1000 then s
                  else if rule_period (dl_rule s) \<noteq> rule_period r \<or> rule_count (dl_rule s) \<noteq> rule_count r
                  then s\<lparr>dl_rule := r\<rparr> else s)"

section \<open>The invariant and the interface\<close>

text \<open>Periods are at least a second: the constructor's callers pass a day, and \<open>update\<close> refuses
  a shorter one.\<close>

definition dl_inv :: "DistributedLimiter \<Rightarrow> bool" where
  "dl_inv s \<longleftrightarrow> 1000 \<le> rule_period (dl_rule s) \<and> 1000 \<le> dl_defaultPeriod s"

lemma dl_inv_new [inv_pres]: "1000 \<le> p \<Longrightarrow> dl_inv (DistributedLimiter_new ident key p c)"
  by (simp add: dl_inv_def DistributedLimiter_new_def mk_rule_def)

lemma dl_inv_update [inv_pres]: "dl_inv s \<Longrightarrow> dl_inv (DistributedLimiter_update ev s)"
  by (auto simp: dl_inv_def DistributedLimiter_update_def split: option.splits)

lemma dl_acquire_frame [frame]:
  assumes "DistributedLimiter_acquireAccess now reply uid s = Inr (l, s', cmds)"
  shows "dl_rule s' = dl_rule s" "dl_identity s' = dl_identity s" "dl_defaultPeriod s' = dl_defaultPeriod s"
    "v \<noteq> uid \<Longrightarrow> map_of (dl_status s') v = map_of (dl_status s) v"
  using assms
  by (auto simp: DistributedLimiter_acquireAccess_def Let_def map_of_sm_emplace split: if_splits prod.splits option.splits)

lemma dl_acquire_total:
  assumes "rule_period (dl_rule s) \<noteq> 0"
  shows "\<exists>l s' cmds. DistributedLimiter_acquireAccess now reply uid s = Inr (l, s', cmds)"
  using assms by (auto simp: DistributedLimiter_acquireAccess_def Let_def split: prod.splits)

lemma dl_inv_acquire [inv_pres]:
  "dl_inv s \<Longrightarrow> DistributedLimiter_acquireAccess now reply uid s = Inr (l, s', cmds) \<Longrightarrow> dl_inv s'"
  by (simp add: dl_inv_def dl_acquire_frame)

text \<open>The limiter as an \<open>ILimiter\<close>: the environment is the clock and the reply of Redis.\<close>

definition dl_acquire :: "int \<times> int \<times> u64 \<Rightarrow> string \<Rightarrow> DistributedLimiter
    \<Rightarrow> cpp_error + LimitLevel \<times> DistributedLimiter" where
  "dl_acquire e i s =
     map_sum id (\<lambda>(l, s', cmds). (l, s')) (DistributedLimiter_acquireAccess (fst e) (snd e) i s)"

interpretation dl: ILimiter dl_acquire "\<lambda>e. DistributedLimiter_limited (fst e)" "\<lambda>_. True" dl_inv
proof (unfold_locales, goal_cases)
  case (1 s e i)
  then have "rule_period (dl_rule s) \<noteq> 0" by (simp add: dl_inv_def)
  then obtain l s' cmds where "DistributedLimiter_acquireAccess (fst e) (snd e) i s = Inr (l, s', cmds)"
    using dl_acquire_total by blast
  with 1 show ?case using dl_inv_acquire by (auto simp: dl_acquire_def)
next
  case (2 s e i)
  then show ?case by (auto simp: dl_inv_def DistributedLimiter_limited_def split: option.splits)
next
  case (3 s e i)
  then show ?case
    by (auto simp: dl_inv_def dl_acquire_def DistributedLimiter_limited_def DistributedLimiter_acquireAccess_def
        Let_def split: option.splits if_splits)
next
  case (4 e i s l s' j e')
  then obtain cmds where a: "DistributedLimiter_acquireAccess (fst e) (snd e) i s = Inr (l, s', cmds)"
    by (auto simp: dl_acquire_def map_sum_def split: sum.splits)
  from dl_acquire_frame [OF a] 4(2) show ?case
    by (simp add: DistributedLimiter_limited_def split: option.splits)
qed

text \<open>The limiter of \<open>dh_keys\<close> requests, which depends on that of group creation.\<close>

interpretation dh: dependent_limiter dl_acquire "\<lambda>e. DistributedLimiter_limited (fst e)" "\<lambda>_. True" dl_inv
    dl_acquire "\<lambda>e. DistributedLimiter_limited (fst e)" dl_inv
  by unfold_locales

section \<open>A fleet of servers\<close>

text \<open>The servers share one Redis. An event is a request: the server that receives it, the time, the
  user and the reply of Redis to the \<open>INCR\<close> (which counts only when the server asks).\<close>

type_synonym fleet = "nat \<Rightarrow> DistributedLimiter"
type_synonym fleet_event = "nat \<times> int \<times> string \<times> int \<times> u64"

fun fleet_run :: "fleet_event list \<Rightarrow> fleet \<Rightarrow> (cpp_error + LimitLevel) list" where
  "fleet_run [] f = []"
| "fleet_run ((srv, now, uid, reply) # evs) f =
     (case DistributedLimiter_acquireAccess now reply uid (f srv) of
        Inl e \<Rightarrow> Inl e # fleet_run evs f
      | Inr (l, s', cmds) \<Rightarrow> Inr l # fleet_run evs (f(srv := s')))"

lemma length_fleet_run [simp]: "length (fleet_run evs f) = length evs"
  by (induction evs arbitrary: f) (auto split: sum.splits)

lemma dl_good:
  assumes "DistributedLimiter_acquireAccess now reply uid s = Inr (GOOD, s', cmds)"
  shows "sint (snd reply) \<le> rule_count (dl_rule s)"
proof -
  have "fst (DistributedLimiter_incr ident u r slot reply) = sint (snd reply)" for ident u r slot
    by (simp add: DistributedLimiter_incr_def incr_case_m1_def incr_case_0_def incr_default_def Let_def split_beta)
  with assms show ?thesis
    by (auto simp: DistributedLimiter_acquireAccess_def Let_def split_beta split: if_splits option.splits)
qed

lemma fleet_good:
  assumes "\<forall>n. dl_rule (f n) = rule"
  shows "\<forall>(ev, r) \<in> set (zip evs (fleet_run evs f)). r = Inr GOOD \<longrightarrow> sint (snd (snd (snd (snd ev)))) \<le> rule_count rule"
  using assms
proof (induction evs f rule: fleet_run.induct)
  case (1 f)
  show ?case by simp
next
  case (2 srv now uid reply evs f)
  show ?case
  proof (cases "DistributedLimiter_acquireAccess now reply uid (f srv)")
    case (Inl e)
    with 2 show ?thesis by simp
  next
    case (Inr r)
    obtain l s' cmds where r: "r = (l, s', cmds)" by (cases r)
    with Inr have a: "DistributedLimiter_acquireAccess now reply uid (f srv) = Inr (l, s', cmds)" by simp
    have "\<forall>n. dl_rule ((f(srv := s')) n) = rule" using dl_acquire_frame(1) [OF a] 2 by simp
    from 2(2) [OF Inr r [symmetric] refl this] have "\<forall>(ev, r) \<in> set (zip evs (fleet_run evs (f(srv := s')))).
      r = Inr GOOD \<longrightarrow> sint (snd (snd (snd (snd ev)))) \<le> rule_count rule" .
    moreover have "l = GOOD \<Longrightarrow> sint (snd reply) \<le> rule_count rule" using dl_good a 2(3) by metis
    ultimately show ?thesis by (simp add: a)
  qed
qed

text \<open>The requests of a user in a slot that the fleet granted, as the values Redis replied.\<close>

definition slot_grants :: "LimitRule \<Rightarrow> string \<Rightarrow> int \<Rightarrow> fleet_event list \<Rightarrow> fleet \<Rightarrow> int list" where
  "slot_grants rule u slot evs f =
     map (\<lambda>((srv, now, uid, ret, v), r). sint v)
       (filter (\<lambda>((srv, now, uid, ret, v), r). uid = u \<and> cdiv now (rule_period rule) = slot \<and> r = Inr GOOD)
         (zip evs (fleet_run evs f)))"

text \<open>The replies to the requests of a user in a slot.\<close>

definition slot_replies :: "LimitRule \<Rightarrow> string \<Rightarrow> int \<Rightarrow> fleet_event list \<Rightarrow> int list" where
  "slot_replies rule u slot evs =
     map (\<lambda>(srv, now, uid, ret, v). sint v)
       (filter (\<lambda>(srv, now, uid, ret, v). uid = u \<and> cdiv now (rule_period rule) = slot) evs)"

lemma set_map_filter_zip:
  "set (map (g \<circ> fst) (filter (\<lambda>z. P (fst z) \<and> Q z) (zip xs ys))) \<subseteq> set (map g (filter P xs))"
  by (auto dest: set_zip_leftD)

lemma distinct_map_filter_zip:
  assumes "length xs = length ys" and "distinct (map g (filter P xs))"
  shows "distinct (map (g \<circ> fst) (filter (\<lambda>z. P (fst z) \<and> Q z) (zip xs ys)))"
  using assms
proof (induction xs ys rule: list_induct2)
  case Nil
  show ?case by simp
next
  case (Cons x xs y ys)
  then show ?case using set_map_filter_zip [of g P Q xs ys] by (cases "P x") (simp_all, blast)
qed

lemma slot_grants_eq:
  "slot_grants rule u slot evs f =
    map ((\<lambda>(srv, now, uid, ret, v). sint v) \<circ> fst)
      (filter (\<lambda>z. (\<lambda>(srv, now, uid, ret, v). uid = u \<and> cdiv now (rule_period rule) = slot) (fst z)
         \<and> snd z = Inr GOOD) (zip evs (fleet_run evs f)))"
  unfolding slot_grants_def by (rule arg_cong2 [where f = map]) (auto intro!: filter_cong)

section \<open>Properties\<close>


definition demo_fleet :: fleet where
  "demo_fleet n = DistributedLimiter_new ''L'' ''k'' 1000 1"


text \<open>The limiters a server can reach.\<close>

inductive dl_reachable :: "DistributedLimiter \<Rightarrow> bool" where
  dl_init: "1000 \<le> p \<Longrightarrow> dl_reachable (DistributedLimiter_new ident key p c)"
| dl_request: "dl_reachable s \<Longrightarrow> DistributedLimiter_acquireAccess now reply uid s = Inr (l, s', cmds)
    \<Longrightarrow> dl_reachable s'"
| dl_config: "dl_reachable s \<Longrightarrow> dl_reachable (DistributedLimiter_update ev s)"

lemma dl_reachable_inv: "dl_reachable s \<Longrightarrow> dl_inv s"
  by (induction rule: dl_reachable.induct) (auto intro: inv_pres)

text \<open>C14. A distributed limiter never divides by zero: from a constructor with a period of at least a
  second, after any sequence of configuration updates and requests, a request and a probe
  return.\<close>

theorem distributed_no_trap:
  assumes "dl_reachable s"
  shows "(\<exists>l s' cmds. DistributedLimiter_acquireAccess now reply uid s = Inr (l, s', cmds))
    \<and> (\<exists>l. DistributedLimiter_limited now uid s = Inr l)"
proof -
  have inv: "dl_inv s" using assms by (rule dl_reachable_inv)
  then have "rule_period (dl_rule s) \<noteq> 0" by (simp add: dl_inv_def)
  then show ?thesis using dl_acquire_total dl.limited_total [OF inv, of "(now, reply)" uid] by simp
qed

theorem distributed_no_trap_witness:
  "\<exists>l s' cmds. DistributedLimiter_acquireAccess 5000 (1, 1) ''u'' (DistributedLimiter_new ''L'' ''k'' 1000 20) = Inr (l, s', cmds)"
  using distributed_no_trap [OF dl_init, of 1000 5000 "(1, 1)" "''u''" "''L''" "''k''" 20] by simp

text \<open>The \<open>dh_keys\<close> limiter honours both probes: while group creation or \<open>dh_keys\<close>
  itself is limited for a user, a \<open>dh_keys\<close> request of that user is refused; in the first case
  it is not counted either.\<close>

lemma dh_keys_dependency:
  assumes "dl_inv creation" and "dl_inv dhkeys"
    and "DistributedLimiter_limited now uid creation = Inr LIMITED \<or> DistributedLimiter_limited now uid dhkeys = Inr LIMITED"
  shows "\<exists>dhkeys'. DependencyLimiter_acquireAccess [\<lambda>i. DistributedLimiter_limited now i creation]
        (dl_acquire (now, reply)) uid dhkeys = Inr (LIMITED, dhkeys')
      \<and> (DistributedLimiter_limited now uid creation = Inr LIMITED \<longrightarrow> dhkeys' = dhkeys)"
proof (cases "DistributedLimiter_limited now uid creation = Inr LIMITED")
  case True
  then show ?thesis by (simp add: DependencyLimiter_acquireAccess_def)
next
  case False
  then have "dh.dep_limited (now, reply) uid (dhkeys, creation) = Inr LIMITED"
    using assms(3) by (simp add: dh.dep_limited_def DependencyLimiter_limited_def)
  then obtain p where "dh.dep_acquire (now, reply) uid (dhkeys, creation) = Inr (LIMITED, p)"
    using dh.comb.limited_acquire [of "(dhkeys, creation)" "(now, reply)" uid] assms(1,2) by auto
  with False show ?thesis by (auto simp: dh.dep_acquire_def map_sum_def split: sum.splits)
qed

theorem dh_keys_dependency_witness:
  "\<exists>dhkeys'. DependencyLimiter_acquireAccess
      [\<lambda>i. DistributedLimiter_limited 5000 i ((DistributedLimiter_new ''G'' ''g'' 1000 1)
         \<lparr>dl_status := [(''u'', \<lparr>it_timeSlot = 5, it_count = 2\<rparr>)]\<rparr>)]
      (dl_acquire (5000, 1, 1)) ''u'' (DistributedLimiter_new ''D'' ''d'' 1000 1) = Inr (LIMITED, dhkeys')"
proof -
  let ?c = "(DistributedLimiter_new ''G'' ''g'' 1000 1)\<lparr>dl_status := [(''u'', \<lparr>it_timeSlot = 5, it_count = 2\<rparr>)]\<rparr>"
  have "dl_inv ?c" and "dl_inv (DistributedLimiter_new ''D'' ''d'' 1000 1)"
    by (simp_all add: dl_inv_def DistributedLimiter_new_def mk_rule_def)
  moreover have "DistributedLimiter_limited 5000 ''u'' ?c = Inr LIMITED"
    by (simp add: DistributedLimiter_limited_def DistributedLimiter_new_def mk_rule_def cdiv_def)
  ultimately show ?thesis
    using dh_keys_dependency [of ?c "DistributedLimiter_new ''D'' ''d'' 1000 1" 5000 "''u''" "(1, 1)"] by blast
qed

text \<open>The error cases of the \<open>INCR\<close> reply are not told apart: a communication error and a
  key of the wrong type send the same commands (they set the key to 1), and the count is
  the value variable in both, never the 0 and 1 the cases assign.\<close>

lemma incr_fall_through:
  "DistributedLimiter_incr ident uid rule slot (-1, v) = DistributedLimiter_incr ident uid rule slot (0, v)
    \<and> fst (DistributedLimiter_incr ident uid rule slot (0, v)) = sint v
    \<and> (\<exists>key. RedisSet uid key ''1'' \<in> set (snd (DistributedLimiter_incr ident uid rule slot (-1, v))))"
  by (simp add: DistributedLimiter_incr_def incr_case_m1_def incr_case_0_def incr_default_def Let_def)

end
