(* ===== verification/Limiter_Config.thy ===== *)
theory Limiter_Config
  imports Distributed_Limiter
begin

text \<open>
  \<open>src/limiters/configuration_manager.cpp\<close> and \<open>limiter_manager.cpp\<close>: the manager that
  reloads the limiters' rules from the database and tells its observers, and the registry of
  limiters. The limiters are objects behind shared pointers that the registry and the manager's
  observer set both hold, so they live in a store from addresses to objects. The database is the
  result of \<open>load\<close>, an argument of \<open>reloadConfiguration\<close>.
\<close>

section \<open>Objects\<close>

datatype limiter_object = UserObj UserQpsLimiter | ApiObj ApiQpsLimiter | DistObj DistributedLimiter

type_synonym limiter_store = "nat \<Rightarrow> limiter_object"

fun limiter_update :: "LimiterConfigUpdateEvent \<Rightarrow> limiter_object \<Rightarrow> limiter_object" where
  "limiter_update event (UserObj s) = UserObj (UserQpsLimiter_update event s)"
| "limiter_update event (ApiObj s) = ApiObj (ApiQpsLimiter_update event s)"
| "limiter_update event (DistObj s) = DistObj (DistributedLimiter_update event s)"

section \<open>LimiterManager\<close>

type_synonym LimiterManager = "(string \<times> nat) list"

definition LimiterManager_emplace :: "string \<Rightarrow> nat \<Rightarrow> LimiterManager \<Rightarrow> (nat \<times> bool) \<times> LimiterManager" where
  "LimiterManager_emplace i limiter m_limiters =
     (case map_of m_limiters i of
        None \<Rightarrow> ((limiter, True), sm_emplace i limiter m_limiters)
      | Some old \<Rightarrow> ((old, False), m_limiters))"

definition LimiterManager_find :: "string \<Rightarrow> LimiterManager \<Rightarrow> nat option" where
  "LimiterManager_find i m_limiters = map_of m_limiters i"

definition LimiterManager_erase :: "string \<Rightarrow> LimiterManager \<Rightarrow> LimiterManager" where
  "LimiterManager_erase i m_limiters = sm_del i m_limiters"

section \<open>LimiterConfigurationManager\<close>

record LimiterConfigurationManager =
  cm_observers :: "nat option list"
  cm_configDao :: bool
  cm_configs :: "(string \<times> LimitRule) list"

definition config_notify :: "LimiterConfigUpdateEvent \<Rightarrow> nat option list \<Rightarrow> limiter_store \<Rightarrow> limiter_store" where
  "config_notify event m_observers store =
     fold (\<lambda>item st. case item of None \<Rightarrow> st | Some p \<Rightarrow> st(p := limiter_update event (st p))) m_observers store"

definition registerObserver :: "nat option \<Rightarrow> LimiterConfigurationManager \<Rightarrow> LimiterConfigurationManager" where
  "registerObserver observer m = m\<lparr>cm_observers := List.insert observer (cm_observers m)\<rparr>"

definition unregisterObserver :: "nat option \<Rightarrow> LimiterConfigurationManager \<Rightarrow> LimiterConfigurationManager" where
  "unregisterObserver observer m = m\<lparr>cm_observers := remove1 observer (cm_observers m)\<rparr>"

definition config_initialize :: "LimiterConfigurationManager \<Rightarrow> LimiterConfigurationManager" where
  "config_initialize m = (if \<not> cm_configDao m then m\<lparr>cm_configDao := True\<rparr> else m)"

definition config_uninitialize :: "LimiterConfigurationManager \<Rightarrow> LimiterConfigurationManager" where
  "config_uninitialize m = (if cm_configDao m then m\<lparr>cm_configDao := False\<rparr> else m)"

definition reload_event ::
    "(string \<times> LimitRule) list \<Rightarrow> (string \<times> LimitRule) list \<Rightarrow> LimiterConfigUpdateEvent" where
  "reload_event old new =
     \<lparr>ev_configs = new,
      ev_removed = fold (\<lambda>it r. if map_of new (fst it) = None then List.insert (fst it) r else r) old []\<rparr>"

definition reloadConfiguration ::
    "dao_code \<times> (string \<times> LimitRule) list \<Rightarrow> LimiterConfigurationManager \<times> limiter_store
      \<Rightarrow> LimiterConfigurationManager \<times> limiter_store" where
  "reloadConfiguration loaded mst =
     (let (m, store) = mst; (rc, configs) = loaded
      in if \<not> cm_configDao m then (m, store)
         else if rc \<noteq> Dao_Success \<and> rc \<noteq> Dao_NoSuchData then (m, store)
         else if rc = Dao_Success
         then (m\<lparr>cm_configs := configs\<rparr>,
               config_notify (reload_event (cm_configs m) configs) (cm_observers m) store)
         else (m, store))"

definition getConfiguration :: "string list \<Rightarrow> LimiterConfigurationManager \<Rightarrow> (string \<times> LimitRule) list" where
  "getConfiguration keys m =
     fold (\<lambda>k configs. case map_of (cm_configs m) k of None \<Rightarrow> configs | Some r \<Rightarrow> sm_emplace k r configs) keys []"

section \<open>What a reload does to one limiter\<close>

lemma set_reload_removed:
  "set (ev_removed (reload_event old new)) = {k. map_of old k \<noteq> None \<and> map_of new k = None}"
proof -
  have "set (fold (\<lambda>it r. if map_of new (fst it) = None then List.insert (fst it) r else r) old r0) =
      {k \<in> fst ` set old. map_of new k = None} \<union> set r0" for r0
    by (induction old arbitrary: r0) auto
  then show ?thesis by (auto simp: reload_event_def map_of_eq_None_iff)
qed

lemma reload_configs [simp]: "ev_configs (reload_event old new) = new"
  by (simp add: reload_event_def)

text \<open>The rules a configuration prescribes: the abstract state of a limiter.\<close>

definition user_rule_spec :: "(string \<times> LimitRule) list \<Rightarrow> LimitRule" where
  "user_rule_spec cfg = (case map_of cfg kUserQpsRuleKey of Some r \<Rightarrow> r | None \<Rightarrow> mk_rule 1000 1000)"

definition api_rules_spec :: "(string \<times> LimitRule) list \<Rightarrow> string \<Rightarrow> LimitRule option" where
  "api_rules_spec cfg name =
     (if name = kDefaultApiQpsRuleKey then map_of cfg name else map_of cfg (kApiQpsRuleKeyPrefix @ name))"

lemma LimitRule_eqI: "rule_count r = rule_count r' \<Longrightarrow> rule_period r = rule_period r' \<Longrightarrow> r = (r' :: LimitRule)"
  by simp

lemma mk_rule_same [simp]: "mk_rule (rule_period r) (rule_count r) = r"
  by (simp add: mk_rule_def)

lemma user_reload:
  assumes "uq_rule s = user_rule_spec old"
  shows "uq_rule (UserQpsLimiter_update (reload_event old new) s) = user_rule_spec new"
  using assms
  by (auto simp: UserQpsLimiter_update_def user_rule_spec_def set_reload_removed mk_rule_def
      split: option.splits intro: LimitRule_eqI)

text \<open>The configuration key of an API rule, and what the two loops of
  \<open>ApiQpsLimiter::update\<close> collect.\<close>

definition rule_key :: "string \<Rightarrow> string" where
  "rule_key name = (if name = kDefaultApiQpsRuleKey then name else kApiQpsRuleKeyPrefix @ name)"

lemma api_rules_spec_key: "api_rules_spec cfg name = map_of cfg (rule_key name)"
  by (simp add: api_rules_spec_def rule_key_def)

lemma prefix_not_default: "starts_with k kApiQpsRuleKeyPrefix \<Longrightarrow> k \<noteq> kDefaultApiQpsRuleKey"
  by (auto simp: starts_with_def kApiQpsRuleKeyPrefix_def kDefaultApiQpsRuleKey_def)

lemma starts_with_drop: "starts_with k p \<Longrightarrow> p @ drop (length p) k = k"
  by (metis append_take_drop_id starts_with_def)

lemma prefix_ne_default [simp]:
  "kApiQpsRuleKeyPrefix @ c \<noteq> kDefaultApiQpsRuleKey" "kDefaultApiQpsRuleKey \<noteq> kApiQpsRuleKeyPrefix @ c"
  using prefix_not_default [of "kApiQpsRuleKeyPrefix @ c"] by auto

text \<open>The rule name of a configuration key, if it has one.\<close>

definition rule_name :: "string \<Rightarrow> string option" where
  "rule_name k =
     (if k = kDefaultApiQpsRuleKey then Some k
      else if starts_with k kApiQpsRuleKeyPrefix then Some (drop (length kApiQpsRuleKeyPrefix) k) else None)"

definition clash_key :: string where
  "clash_key = kApiQpsRuleKeyPrefix @ kDefaultApiQpsRuleKey"

lemma rule_name_iff: "k \<noteq> clash_key \<Longrightarrow> rule_name k = Some n \<longleftrightarrow> k = rule_key n"
proof
  assume k: "k \<noteq> clash_key" and n: "rule_name k = Some n"
  show "k = rule_key n"
  proof (cases "k = kDefaultApiQpsRuleKey")
    case True
    with n show ?thesis by (simp add: rule_name_def rule_key_def)
  next
    case False
    with n have "starts_with k kApiQpsRuleKeyPrefix" and "n = drop (length kApiQpsRuleKeyPrefix) k"
      by (auto simp: rule_name_def split: if_splits)
    then have e: "k = kApiQpsRuleKeyPrefix @ n" by (simp add: starts_with_drop)
    with k have "n \<noteq> kDefaultApiQpsRuleKey" by (auto simp: clash_key_def)
    with e show ?thesis by (simp add: rule_key_def)
  qed
next
  assume "k \<noteq> clash_key" and "k = rule_key n"
  then show "rule_name k = Some n"
    using prefix_not_default [of "kApiQpsRuleKeyPrefix @ n"]
    by (auto simp: rule_name_def rule_key_def)
qed

lemma changed_step_name:
  "changed_step rules item changed =
    (case rule_name (fst item) of
       None \<Rightarrow> changed
     | Some n \<Rightarrow> if rule_differs rules n (snd item) then sm_emplace n (snd item) changed else changed)"
  by (simp add: changed_step_def rule_name_def Let_def)

lemma map_of_changed:
  assumes "distinct (map fst cfg)" and "clash_key \<notin> fst ` set cfg"
  shows "map_of (fold (changed_step rules) cfg acc) n =
    (case map_of acc n of
       Some r \<Rightarrow> Some r
     | None \<Rightarrow> (case map_of cfg (rule_key n) of
                None \<Rightarrow> None
              | Some r \<Rightarrow> if rule_differs rules n r then Some r else None))"
  using assms
proof (induction cfg arbitrary: acc)
  case Nil
  show ?case by (simp split: option.splits)
next
  case (Cons item cfg)
  let ?acc = "changed_step rules item acc"
  have IH: "map_of (fold (changed_step rules) cfg ?acc) n =
    (case map_of ?acc n of
       Some r \<Rightarrow> Some r
     | None \<Rightarrow> (case map_of cfg (rule_key n) of
                None \<Rightarrow> None
              | Some r \<Rightarrow> if rule_differs rules n r then Some r else None))"
    by (rule Cons.IH) (use Cons.prems in auto)
  have name: "rule_name (fst item) = Some m \<longleftrightarrow> fst item = rule_key m" for m
    using rule_name_iff Cons.prems(2) by (metis image_eqI list.set_intros(1))
  show ?case
  proof (cases "fst item = rule_key n")
    case True
    then have "map_of cfg (rule_key n) = None" using Cons.prems(1) by (simp add: map_of_eq_None_iff)
    moreover have "rule_name (fst item) = Some n" using True name by simp
    ultimately show ?thesis
      using True unfolding fold.simps comp_apply IH
      by (auto simp: changed_step_name map_of_sm_emplace split: option.splits)
  next
    case False
    then have "map_of ?acc n = map_of acc n"
      using name [of n] by (auto simp: changed_step_name map_of_sm_emplace split: option.splits)
    moreover have "map_of (item # cfg) (rule_key n) = map_of cfg (rule_key n)" using False by simp
    ultimately show ?thesis unfolding fold.simps comp_apply IH by (simp only:)
  qed
qed

lemma set_removed:
  "set (fold (removed_step rules) rem acc) = set acc
    \<union> {n. n = kDefaultApiQpsRuleKey \<and> n \<in> set rem}
    \<union> {n. kApiQpsRuleKeyPrefix @ n \<in> set rem \<and> map_of rules n \<noteq> None}"
proof (induction rem arbitrary: acc)
  case Nil
  show ?case by simp
next
  case (Cons k rem)
  have "set (removed_step rules k acc) = set acc
    \<union> {n. n = kDefaultApiQpsRuleKey \<and> n = k} \<union> {n. kApiQpsRuleKeyPrefix @ n = k \<and> map_of rules n \<noteq> None}"
    using starts_with_drop [of k kApiQpsRuleKeyPrefix] prefix_not_default [of k]
    by (cases "starts_with k kApiQpsRuleKeyPrefix") (auto simp: removed_step_def Let_def)
  then show ?case unfolding fold.simps comp_apply Cons.IH by auto
qed

lemma sm_ok_changed: "sm_ok acc \<Longrightarrow> sm_ok (fold (changed_step rules) cfg acc)"
  by (induction cfg arbitrary: acc) (auto simp: changed_step_name split: option.splits)

lemma map_of_fold_put:
  assumes "distinct (map fst c)"
  shows "map_of (fold (\<lambda>e. sm_put (fst e) (snd e)) c m) n =
    (case map_of c n of Some r \<Rightarrow> Some r | None \<Rightarrow> map_of m n)"
proof -
  have "map_of (rev c) = map_of c" using assms by (subst map_of_inject_set) (simp_all add: rev_map [symmetric])
  then show ?thesis
    using smap.find_fold_put_pairs [of c m] by (simp add: map_add_def split: option.splits)
qed

lemma api_update_rules:
  "map_of (aq_rules (ApiQpsLimiter_update event s)) n =
    (if n \<in> set (fold (removed_step (aq_rules s)) (ev_removed event) []) then None
     else case map_of (fold (changed_step (aq_rules s)) (ev_configs event) []) n of
            Some r \<Rightarrow> Some r | None \<Rightarrow> map_of (aq_rules s) n)"
proof -
  let ?c = "fold (changed_step (aq_rules s)) (ev_configs event) []"
  let ?r = "fold (removed_step (aq_rules s)) (ev_removed event) []"
  have "aq_rules (ApiQpsLimiter_update event s) =
      fold sm_del ?r (fold (\<lambda>e. sm_put (fst e) (snd e)) ?c (aq_rules s))"
    by (auto simp: ApiQpsLimiter_update_def Let_def)
  moreover have "distinct (map fst ?c)" by (intro sm_ok_distinct sm_ok_changed) simp
  ultimately show ?thesis by (simp add: smap.find_fold_del map_of_fold_put)
qed

lemma api_reload:
  assumes "map_of (aq_rules s) = api_rules_spec old" and "sm_ok new"
    and "map_of old clash_key = None" and "map_of new clash_key = None"
  shows "map_of (aq_rules (ApiQpsLimiter_update (reload_event old new) s)) = api_rules_spec new"
proof
  fix n
  let ?rm = "set (fold (removed_step (aq_rules s)) (ev_removed (reload_event old new)) [])"
  have rules: "map_of (aq_rules s) m = map_of old (rule_key m)" for m
    using assms(1) by (simp add: api_rules_spec_key)
  have changed: "map_of (fold (changed_step (aq_rules s)) new []) n =
      (case map_of new (rule_key n) of None \<Rightarrow> None | Some r \<Rightarrow> if rule_differs (aq_rules s) n r then Some r else None)"
    using map_of_changed [OF sm_ok_distinct [OF assms(2)], of "aq_rules s" "[]" n] assms(4)
    by (simp add: map_of_eq_None_iff)
  have removed: "n \<in> ?rm \<longleftrightarrow> map_of old (rule_key n) \<noteq> None \<and> map_of new (rule_key n) = None"
    using assms(3) rules [of n]
    by (auto simp: set_removed set_reload_removed rule_key_def clash_key_def)
  show "map_of (aq_rules (ApiQpsLimiter_update (reload_event old new) s)) n = api_rules_spec new n"
    unfolding api_update_rules reload_configs removed changed api_rules_spec_key
    using rules [of n]
    by (auto simp: rule_differs_def split: option.splits intro: LimitRule_eqI)
qed

section \<open>The observers follow the configuration\<close>

fun follows :: "(string \<times> LimitRule) list \<Rightarrow> limiter_object \<Rightarrow> bool" where
  "follows cfg (UserObj s) \<longleftrightarrow> uq_rule s = user_rule_spec cfg"
| "follows cfg (ApiObj s) \<longleftrightarrow> map_of (aq_rules s) = api_rules_spec cfg"
| "follows cfg (DistObj s) \<longleftrightarrow>
     (case map_of cfg (dl_configKey s) of
        None \<Rightarrow> dl_rule s = mk_rule (dl_defaultPeriod s) (dl_defaultCount s)
      | Some r \<Rightarrow> 1000 \<le> rule_period r \<longrightarrow> dl_rule s = r)"

text \<open>A configuration in the form the database gives it: a map, without the key that collides with
  the one of the default rule.\<close>

definition config_ok :: "(string \<times> LimitRule) list \<Rightarrow> bool" where
  "config_ok cfg \<longleftrightarrow> sm_ok cfg \<and> map_of cfg clash_key = None"

lemma follows_update:
  assumes "follows old obj" and "config_ok old" and "config_ok new"
  shows "follows new (limiter_update (reload_event old new) obj)"
proof (cases obj)
  case (UserObj s)
  with assms(1) show ?thesis by (simp add: user_reload)
next
  case (ApiObj s)
  with assms show ?thesis by (simp add: api_reload config_ok_def)
next
  case (DistObj s)
  have [simp]: "dl_configKey (DistributedLimiter_update ev s) = dl_configKey s"
    "dl_defaultPeriod (DistributedLimiter_update ev s) = dl_defaultPeriod s"
    "dl_defaultCount (DistributedLimiter_update ev s) = dl_defaultCount s" for ev
    by (simp_all add: DistributedLimiter_update_def split: option.splits)
  from DistObj assms(1) show ?thesis
    by (auto simp: DistributedLimiter_update_def set_reload_removed mk_rule_def
        split: option.splits intro: LimitRule_eqI)
qed

lemma config_notify_store:
  "distinct obs \<Longrightarrow> config_notify ev obs st p = (if Some p \<in> set obs then limiter_update ev (st p) else st p)"
proof (induction obs arbitrary: st)
  case Nil
  show ?case by (simp add: config_notify_def)
next
  case (Cons ob obs)
  then show ?case by (cases ob) (auto simp: config_notify_def)
qed

lemma config_observers_distinct [inv_pres]:
  "distinct (cm_observers m) \<Longrightarrow> distinct (cm_observers (registerObserver ob m))"
  "distinct (cm_observers m) \<Longrightarrow> distinct (cm_observers (unregisterObserver ob m))"
  by (simp_all add: registerObserver_def unregisterObserver_def)

section \<open>Properties\<close>

text \<open>C12. Reloading keeps the limiters in step with the configuration: if every registered limiter
  follows the manager's configuration, then after a successful reload every one follows the new
  one (a user or API rule is the configured one or the default; a distributed limiter takes a rule
  whose period is at least a second), and a limiter that is not registered is untouched.\<close>

theorem reload_refines:
  assumes "distinct (cm_observers m)" and "cm_configDao m"
    and "config_ok (cm_configs m)" and "config_ok cfg"
    and "\<And>p. Some p \<in> set (cm_observers m) \<Longrightarrow> follows (cm_configs m) (store p)"
  shows "\<exists>m' store'. reloadConfiguration (Dao_Success, cfg) (m, store) = (m', store')
    \<and> cm_configs m' = cfg \<and> cm_observers m' = cm_observers m
    \<and> (\<forall>p. Some p \<in> set (cm_observers m) \<longrightarrow> follows cfg (store' p))
    \<and> (\<forall>p. Some p \<notin> set (cm_observers m) \<longrightarrow> store' p = store p)"
  using assms follows_update
  by (simp add: reloadConfiguration_def config_notify_store)

definition demo_manager :: LimiterConfigurationManager where
  "demo_manager = \<lparr>cm_observers = [Some 0], cm_configDao = True, cm_configs = []\<rparr>"

definition demo_config :: "(string \<times> LimitRule) list" where
  "demo_config = [(''user/qps'', mk_rule 500 7)]"

theorem reload_refines_witness:
  "\<exists>m' store'. reloadConfiguration (Dao_Success, demo_config) (demo_manager, \<lambda>_. UserObj UserQpsLimiter_new) = (m', store')
    \<and> follows demo_config (store' 0)"
proof -
  have "config_ok demo_config" "config_ok []"
    by (simp_all add: config_ok_def demo_config_def sm_ok_def clash_key_def kApiQpsRuleKeyPrefix_def)
  then show ?thesis
    using reload_refines [of demo_manager demo_config "\<lambda>_. UserObj UserQpsLimiter_new"]
    by (auto simp: demo_manager_def UserQpsLimiter_new_def user_rule_spec_def)
qed

end
