(* ===== verification/Auth_Header.thy ===== *)
theory Auth_Header
  imports Codec
begin

text \<open>
  \<open>src/auth/authorization_header.cpp\<close>: the HTTP Basic credentials of a device. The user name
  of the credentials is a uid, optionally followed by a dot and a device id. The constant
  \<open>Device::MASTER_ID\<close>, which comes with the protocol definitions, and the base64 routines of
  Beast are parameters.
\<close>

record AuthorizationHeader =
  ah_uid :: string
  ah_token :: string
  ah_deviceId :: int

definition AuthorizationHeader_parse2 :: "int \<Rightarrow> string \<Rightarrow> string \<Rightarrow> AuthorizationHeader option" where
  "AuthorizationHeader_parse2 master_id uidAndDevice token =
     (let uidAndDeviceId = split_on (CHR ''.'') uidAndDevice;
          deviceId = (if length uidAndDeviceId > 1
                      then (case stoi (uidAndDeviceId ! 1) of Some d \<Rightarrow> d | None \<Rightarrow> master_id)
                      else master_id)
      in Some \<lparr>ah_uid = uidAndDeviceId ! 0, ah_token = token, ah_deviceId = deviceId\<rparr>)"

definition AuthorizationHeader_parse ::
    "(string \<Rightarrow> string) \<Rightarrow> (nat \<Rightarrow> nat) \<Rightarrow> int \<Rightarrow> string \<Rightarrow> AuthorizationHeader option" where
  "AuthorizationHeader_parse b64dec b64size master_id header =
     (let headerParts = split_on (CHR '' '') header
      in if length headerParts < 2 then None
         else if headerParts ! 0 \<noteq> ''Basic'' then None
         else let concatenated = Base64_decode b64dec b64size (headerParts ! 1) False
              in if concatenated = [] then None
                 else let credentialParts = split_on (CHR '':'') concatenated
                      in if length credentialParts < 2 then None
                         else AuthorizationHeader_parse2 master_id (credentialParts ! 0) (credentialParts ! 1))"

text \<open>What a client sends: the base64 form of \<open>uid.device:token\<close>.\<close>

definition basic_credentials :: "string \<Rightarrow> nat \<Rightarrow> string \<Rightarrow> string" where
  "basic_credentials uid dev token = uid @ ''.'' @ to_dec dev @ '':'' @ token"

lemma to_dec_no: "\<not> is_digit c \<Longrightarrow> c \<notin> set (to_dec n)"
  using to_dec_digits by (auto simp: list_all_iff)

lemma parse2_credentials:
  assumes "CHR ''.'' \<notin> set uid" and "dev < 2 ^ 31"
  shows "AuthorizationHeader_parse2 m (uid @ ''.'' @ to_dec dev) token =
    Some \<lparr>ah_uid = uid, ah_token = token, ah_deviceId = int dev\<rparr>"
proof -
  have "CHR ''.'' \<notin> set (to_dec dev)" by (rule to_dec_no) (simp add: is_digit_def)
  then have "split_on (CHR ''.'') (uid @ ''.'' @ to_dec dev) = [uid, to_dec dev]"
    using assms(1) by simp
  with assms(2) show ?thesis by (simp add: AuthorizationHeader_parse2_def stoi_to_dec)
qed

text \<open>C30. Parsing inverts what a client sends: for a uid without dot and colon, a token without
  colon and a device id below \<open>2 ^ 31\<close>, if the base64 text has no blank and decodes to the
  credentials, the header gives the uid, the token and the device id back.\<close>

theorem auth_header_roundtrip:
  assumes "CHR ''.'' \<notin> set uid" and "CHR '':'' \<notin> set uid" and "CHR '':'' \<notin> set token" and "dev < 2 ^ 31"
    and "CHR '' '' \<notin> set txt" and "Base64_decode b64dec b64size txt False = basic_credentials uid dev token"
  shows "AuthorizationHeader_parse b64dec b64size m (''Basic '' @ txt) =
    Some \<lparr>ah_uid = uid, ah_token = token, ah_deviceId = int dev\<rparr>"
proof -
  have "split_on (CHR '' '') (''Basic'' @ CHR '' '' # txt) = [''Basic'', txt]"
    using assms(5) by (subst split_on_append) simp_all
  then have parts: "split_on (CHR '' '') (''Basic '' @ txt) = [''Basic'', txt]" by simp
  have "CHR '':'' \<notin> set (to_dec dev)" by (rule to_dec_no) (simp add: is_digit_def)
  then have no: "CHR '':'' \<notin> set (uid @ ''.'' @ to_dec dev)" using assms(2) by simp
  have "basic_credentials uid dev token = (uid @ ''.'' @ to_dec dev) @ CHR '':'' # token"
    by (simp add: basic_credentials_def)
  then have cred: "split_on (CHR '':'') (basic_credentials uid dev token) = [uid @ ''.'' @ to_dec dev, token]"
    using split_on_append [OF no, of token] split_on_single [OF assms(3)] by simp
  have "basic_credentials uid dev token \<noteq> []" by (simp add: basic_credentials_def)
  then show ?thesis
    unfolding AuthorizationHeader_parse_def parts Let_def
    using parse2_credentials [OF assms(1,4)] by (simp add: assms(6) cred)
qed

theorem auth_header_roundtrip_witness:
  "AuthorizationHeader_parse (\<lambda>_. ''u.2:t'') (\<lambda>_. 6) 1 ''Basic dS4yOnQ='' =
    Some \<lparr>ah_uid = ''u'', ah_token = ''t'', ah_deviceId = 2\<rparr>"
proof -
  have "to_dec 2 = ''2''" by code_simp
  then have "Base64_decode (\<lambda>_. ''u.2:t'') (\<lambda>_. 6) ''dS4yOnQ='' False = basic_credentials ''u'' 2 ''t''"
    by (simp add: Base64_decode_def basic_credentials_def Let_def)
  then show ?thesis
    using auth_header_roundtrip [of "''u''" "''t''" 2 "''dS4yOnQ=''" "\<lambda>_. ''u.2:t''" "\<lambda>_. 6" 1] by simp
qed

end
