(* ===== verification/Limiter_Executor.thy ===== *)
theory Limiter_Executor
  imports Limiter_Config Auth_Header
begin

text \<open>
  \<open>src/limiters/uid_checker.cpp\<close>, \<open>api_checker.cpp\<close> and \<open>limiter_executor.cpp\<close>:
  what a request passes before it is routed. The executor asks the two checkers in order; each
  holds the limiters it asks. A request is its verb, target and authorization header.
\<close>

section \<open>Checkers\<close>

record CheckArgs =
  ca_api :: Api
  ca_uid :: string
  ca_origin :: string

datatype CheckResult = PASSED | FAILED | ABORT

text \<open>The loop over \<open>m_limiters\<close> of both checkers: stop at the first that is not GOOD.\<close>

fun ask_limiters :: "(string \<Rightarrow> 's \<Rightarrow> LimitLevel \<times> 's) \<Rightarrow> string \<Rightarrow> 's list \<Rightarrow> CheckResult \<times> 's list" where
  "ask_limiters acquire i [] = (PASSED, [])"
| "ask_limiters acquire i (item # items) =
     (let (level, item') = acquire i item
      in if level \<noteq> GOOD then (FAILED, item' # items)
         else let (r, items') = ask_limiters acquire i items in (r, item' # items'))"

definition uid_patterns :: "Api list" where
  "uid_patterns =
     [mk_api ''GET'' ''/v1/accounts/challenge/:uid'', mk_api ''DELETE'' ''/v1/accounts/:uid/:signature'']"

fun preProcessing_loop :: "Api list \<Rightarrow> CheckArgs \<Rightarrow> CheckArgs" where
  "preProcessing_loop [] args = args\<lparr>ca_uid := []\<rparr>"
| "preProcessing_loop (item # items) args =
     (let (found, uid) = matchAndFetch_api item (ca_api args) '':uid'' (ca_uid args);
          args' = args\<lparr>ca_uid := uid\<rparr>
      in if found then args' else preProcessing_loop items args')"

definition preProcessing :: "CheckArgs \<Rightarrow> CheckArgs" where
  "preProcessing args =
     (if ca_uid args \<noteq> [] then args else preProcessing_loop uid_patterns args)"

definition UidChecker_ignore :: "CheckArgs \<Rightarrow> bool" where
  "UidChecker_ignore args = False"

definition UidChecker_check ::
    "int \<Rightarrow> CheckArgs \<Rightarrow> UserQpsLimiter list \<Rightarrow> CheckResult \<times> CheckArgs \<times> UserQpsLimiter list" where
  "UidChecker_check now args m_limiters =
     (if UidChecker_ignore args then (PASSED, args, m_limiters)
      else let args' = preProcessing args
           in if ca_uid args' = [] then (PASSED, args', m_limiters)
              else let (r, ls) = ask_limiters (UserQpsLimiter_acquireAccess now) (ca_uid args') m_limiters
                   in (r, args', ls))"

definition getApiIdentity :: "CheckArgs \<Rightarrow> string" where
  "getApiIdentity args = (if api_name (ca_api args) = [] then [] else api_to_string (ca_api args))"

definition ApiChecker_check ::
    "int \<Rightarrow> CheckArgs \<Rightarrow> ApiQpsLimiter list \<Rightarrow> CheckResult \<times> CheckArgs \<times> ApiQpsLimiter list" where
  "ApiChecker_check now args m_limiters =
     (let i = getApiIdentity args
      in if i = [] then (PASSED, args, m_limiters)
         else let (r, ls) = ask_limiters (ApiQpsLimiter_acquireAccess now) i m_limiters in (r, args, ls))"

section \<open>LimiterExecutor\<close>

record limiter_request =
  req_verb :: verb
  req_target :: string
  req_authorization :: string

record LimiterExecutor =
  ex_user :: "UserQpsLimiter list"
  ex_api :: "ApiQpsLimiter list"
  ex_ignored :: "Api list"

definition limiter_rejected :: nat where
  "limiter_rejected = 460"

definition LimiterExecutor_ignore :: "Api \<Rightarrow> Api list \<Rightarrow> bool" where
  "LimiterExecutor_ignore api ignoredApis = list_ex (\<lambda>item. match_api item api) ignoredApis"

definition request_args :: "(string \<Rightarrow> AuthorizationHeader option) \<Rightarrow> limiter_request \<Rightarrow> string \<Rightarrow> CheckArgs" where
  "request_args parse_header request origin =
     (let url = req_target request;
          path = (if CHR ''?'' \<in> set url then takeWhile (\<lambda>c. c \<noteq> CHR ''?'') url else url);
          uid = (case parse_header (req_authorization request) of Some h \<Rightarrow> ah_uid h | None \<Rightarrow> [])
      in \<lparr>ca_api = mk_api (req_verb request) path, ca_uid = uid, ca_origin = origin\<rparr>)"

text \<open>The result, the status when it is set, and the executor with its limiters.\<close>

definition LimiterExecutor_validate ::
    "(string \<Rightarrow> AuthorizationHeader option) \<Rightarrow> int \<Rightarrow> limiter_request option \<Rightarrow> string \<Rightarrow> LimiterExecutor
      \<Rightarrow> bool \<times> nat option \<times> LimiterExecutor" where
  "LimiterExecutor_validate parse_header now req origin ex =
     (case req of
        None \<Rightarrow> (True, None, ex)
      | Some request \<Rightarrow>
          (let args = request_args parse_header request origin
           in if LimiterExecutor_ignore (ca_api args) (ex_ignored ex) then (True, None, ex)
              else let (r1, args1, ul) = UidChecker_check now args (ex_user ex); ex1 = ex\<lparr>ex_user := ul\<rparr>
                   in if r1 = ABORT then (True, None, ex1)
                      else if r1 = FAILED then (False, Some limiter_rejected, ex1)
                      else let (r2, args2, al) = ApiChecker_check now args1 (ex_api ex1); ex2 = ex1\<lparr>ex_api := al\<rparr>
                           in if r2 = ABORT then (True, None, ex2)
                              else if r2 = FAILED then (False, Some limiter_rejected, ex2)
                              else (True, None, ex2)))"

text \<open>The executor a server starts with, once the router has announced its routes.\<close>

definition LimiterExecutor_new :: "Api list \<Rightarrow> LimiterExecutor" where
  "LimiterExecutor_new routes =
     \<lparr>ex_user = [UserQpsLimiter_new], ex_api = [ApiQpsLimiter_new kActiveApis],
      ex_ignored = fold LimiterGlobals_update routes []\<rparr>"

section \<open>Lemmas\<close>

lemma ask_limiters_not_abort: "fst (ask_limiters acq i ls) \<noteq> ABORT"
  by (induction ls) (auto simp: split_beta Let_def)

lemma ask_limiters_single:
  "ask_limiters acq i [s] = ((if fst (acq i s) = GOOD then PASSED else FAILED), [snd (acq i s)])"
  by (simp add: split_beta Let_def)

lemma match_challenge:
  assumes "CHR ''/'' \<notin> set u"
  shows "matchAndFetch_name ''/v1/accounts/challenge/:uid'' (''/v1/accounts/challenge/'' @ u) '':uid'' v = (True, u)"
proof -
  have "''/v1/accounts/challenge/'' @ u = ''/v1/accounts/challenge'' @ CHR ''/'' # u" by simp
  moreover have "split_on (CHR ''/'') (''/v1/accounts/challenge'' @ CHR ''/'' # u) =
      split_on (CHR ''/'') ''/v1/accounts/challenge'' @ [u]"
    using assms by (rule split_on_snoc)
  moreover have "split_on (CHR ''/'') ''/v1/accounts/challenge'' = ['''', ''v1'', ''accounts'', ''challenge'']"
    by code_simp
  moreover have "split_on (CHR ''/'') ''/v1/accounts/challenge/:uid'' = ['''', ''v1'', ''accounts'', ''challenge'', '':uid'']"
    by code_simp
  ultimately show ?thesis by (simp only: matchAndFetch_name_def Let_def) (simp add: matchInternal_def)
qed

lemma api_acquire_none: "api_counter_key s i = None \<Longrightarrow> ApiQpsLimiter_acquireAccess now i s = (GOOD, s)"
  by (simp add: api_acquire)

lemma LimiterGlobals_fold:
  "set (fold LimiterGlobals_update routes ig) = set ig \<union> (set routes - set kActiveApis)"
  by (induction routes arbitrary: ig) (auto simp: LimiterGlobals_update_def)

text \<open>No pattern of the table matches the path under which clients call \<open>dh_keys\<close>.\<close>

lemma table_dh_keys_segments:
  "list_all (\<lambda>a. \<not> list_all2 matchInternal (split_on (CHR ''/'') (api_name a))
     [[], ''v3'', ''group'', ''deliver'', ''dh_keys'']) kActiveApis"
  by code_simp

lemma table_no_dh_keys:
  assumes "a \<in> set kActiveApis"
  shows "\<not> match_name (api_to_string a) ''/v3/group/deliver/dh_keys/post''"
proof -
  have "split_on (CHR ''/'') ''/v3/group/deliver/dh_keys/post'' =
      [[], ''v3'', ''group'', ''deliver'', ''dh_keys''] @ [''post'']"
    by code_simp
  moreover have "split_on (CHR ''/'') (api_to_string a) = split_on (CHR ''/'') (api_name a) @ [map to_lower (api_method a)]"
    using table_verb [OF assms] table_no_colon [OF assms]
    by (simp add: api_to_string_def split_on_snoc split: if_splits)
  moreover have "\<not> list_all2 matchInternal (split_on (CHR ''/'') (api_name a))
     [[], ''v3'', ''group'', ''deliver'', ''dh_keys'']"
    using assms table_dh_keys_segments unfolding list_all_iff by blast
  moreover have "list_all2 P xs ys" if "list_all2 P (xs @ [x]) (ys @ [y])" for P xs ys and x y :: string
    using that list_all2_lengthD [OF that] by (simp add: list_all2_append)
  ultimately show ?thesis unfolding match_name_iff by metis
qed

section \<open>Properties\<close>


definition demo_executor :: LimiterExecutor where
  "demo_executor = \<lparr>ex_user = [UserQpsLimiter_new], ex_api = [ApiQpsLimiter_new []], ex_ignored = []\<rparr>"


text \<open>A challenge request without credentials counts against the user it names: the check of
  \<open>GET /v1/accounts/challenge/u\<close> asks the user limiter for \<open>u\<close>.\<close>

lemma challenge_counts_for_user:
  assumes "CHR ''/'' \<notin> set u" and "u \<noteq> []"
    and "ca_api args = mk_api ''GET'' (''/v1/accounts/challenge/'' @ u)" and "ca_uid args = []"
  shows "UidChecker_check now args [us] =
    (if fst (UserQpsLimiter_acquireAccess now u us) = GOOD then PASSED else FAILED,
     args\<lparr>ca_uid := u\<rparr>, [snd (UserQpsLimiter_acquireAccess now u us)])"
proof -
  have "preProcessing args = args\<lparr>ca_uid := u\<rparr>"
    using assms(3,4) match_challenge [OF assms(1)]
    by (simp add: preProcessing_def uid_patterns_def matchAndFetch_api_def mk_api_def Let_def)
  with assms(2) show ?thesis
    by (simp add: UidChecker_check_def UidChecker_ignore_def ask_limiters_single
        del: ask_limiters.simps)
qed

theorem challenge_counts_for_user_witness:
  "\<exists>r us. UidChecker_check 5 \<lparr>ca_api = mk_api ''GET'' ''/v1/accounts/challenge/bob'', ca_uid = [], ca_origin = []\<rparr> [UserQpsLimiter_new]
    = (r, \<lparr>ca_api = mk_api ''GET'' ''/v1/accounts/challenge/bob'', ca_uid = ''bob'', ca_origin = []\<rparr>, us)"
  using challenge_counts_for_user [of "''bob''"
      "\<lparr>ca_api = mk_api ''GET'' ''/v1/accounts/challenge/bob'', ca_uid = [], ca_origin = []\<rparr>" 5 UserQpsLimiter_new] by simp

text \<open>The API limiter never counts a \<open>dh_keys\<close> request: its entry in the table lacks the
  leading slash that every request target has.\<close>

lemma dh_keys_not_counted:
  "ApiQpsLimiter_acquireAccess now ''/v3/group/deliver/dh_keys/post'' (ApiQpsLimiter_new kActiveApis) =
    (GOOD, ApiQpsLimiter_new kActiveApis)"
proof -
  let ?s = "ApiQpsLimiter_new kActiveApis"
  have "\<forall>q \<in> set (aq_patterns ?s). \<not> match_name q ''/v3/group/deliver/dh_keys/post''"
    using table_no_dh_keys by (auto simp: ApiQpsLimiter_new_patterns)
  then have "List.find (\<lambda>q. match_name q ''/v3/group/deliver/dh_keys/post'') (aq_patterns ?s) = None"
    by (simp add: find_None_iff)
  then have "api_counter_key ?s ''/v3/group/deliver/dh_keys/post'' = None"
    by (simp add: api_counter_key_def api_key_def)
  then show ?thesis by (rule api_acquire_none)
qed

end
