(* ===== verification/Accounts.thy ===== *)
theory Accounts
  imports Codec
begin

text \<open>
  \<open>src/store/accounts_manager.cpp\<close>: accounts with their devices, the predicates on them, and
  \<open>ModifyAccount\<close>, which edits an account in memory and records in an \<open>AccountField\<close> what
  it touched, so that the database writes only that. The messages have the fields this code uses;
  enumerations are their numbers, and the constants that come with the protocol definitions
  (\<open>Device::MASTER_ID\<close>, the account and device states, the OS types) are parameters. The
  database is a parameter that answers with a code. A pointer to a device of the account is the
  device's index.
\<close>

section \<open>Messages\<close>

record SignedPreKey =
  spk_keyId :: u64
  spk_publicKey :: string
  spk_signature :: string

record ClientVersion =
  cv_osType :: nat
  cv_osVersion :: string
  cv_phoneModel :: string
  cv_bcmVersion :: string
  cv_bcmBuildCode :: u64
  cv_areaCode :: u32
  cv_langCode :: string

record Device =
  d_id :: u32
  d_name :: string
  d_authToken :: string
  d_salt :: string
  d_signalingKey :: string
  d_gcmId :: string
  d_umengId :: string
  d_apnId :: string
  d_voipApnId :: string
  d_apnType :: string
  d_fetchesMessages :: bool
  d_registrationId :: u32
  d_version :: u32
  d_signedPreKey :: "SignedPreKey option"
  d_lastSeenTime :: u64
  d_createTime :: u64
  d_supportVoice :: bool
  d_supportVideo :: bool
  d_userAgent :: string
  d_clientVersion :: "ClientVersion option"
  d_state :: nat
  d_features :: string
  d_publicKey :: string
  d_accountSignature :: string

definition Device_new :: Device where
  "Device_new =
     \<lparr>d_id = 0, d_name = [], d_authToken = [], d_salt = [], d_signalingKey = [], d_gcmId = [],
      d_umengId = [], d_apnId = [], d_voipApnId = [], d_apnType = [], d_fetchesMessages = False,
      d_registrationId = 0, d_version = 0, d_signedPreKey = None, d_lastSeenTime = 0,
      d_createTime = 0, d_supportVoice = False, d_supportVideo = False, d_userAgent = [],
      d_clientVersion = None, d_state = 0, d_features = [], d_publicKey = [], d_accountSignature = []\<rparr>"

record ContactsFilters =
  cf_algo :: u32
  cf_content :: string
  cf_version :: string

record Account_Privacy =
  pr_acceptStrangerMsg :: bool

record Account =
  a_uid :: string
  a_publicKey :: string
  a_identityKey :: string
  a_state :: nat
  a_name :: string
  a_avater :: string
  a_nickname :: string
  a_slaveDeviceNum :: u32
  a_ldAvatar :: string
  a_hdAvatar :: string
  a_profileKeys :: string
  a_privacy :: "Account_Privacy option"
  a_contactsFilters :: "ContactsFilters option"
  a_devices :: "Device list"
  a_authDeviceId :: u32

definition Account_new :: Account where
  "Account_new =
     \<lparr>a_uid = [], a_publicKey = [], a_identityKey = [], a_state = 0, a_name = [], a_avater = [], a_nickname = [],
      a_slaveDeviceNum = 0, a_ldAvatar = [], a_hdAvatar = [], a_profileKeys = [], a_privacy = None,
      a_contactsFilters = None, a_devices = [], a_authDeviceId = 0\<rparr>"

record DeviceField =
  df_id :: u32
  df_modifyFields :: "string list"
  df_isCreate :: bool
  df_isErase :: bool

record ContactsFiltersField =
  ff_isClear :: bool
  ff_modifyFields :: "string list"

record AccountField =
  af_modifyFields :: "string list"
  af_modifyFilters :: "ContactsFiltersField option"
  af_devices :: "DeviceField list"

section \<open>AccountsManager: reading\<close>

definition getDevice :: "Account \<Rightarrow> u32 \<Rightarrow> Device option" where
  "getDevice account deviceId = List.find (\<lambda>d. d_id d = deviceId) (a_devices account)"

definition getAuthDevice :: "Account \<Rightarrow> Device option" where
  "getAuthDevice account = List.find (\<lambda>d. d_id d = a_authDeviceId account) (a_devices account)"

definition getFeatures :: "Account \<Rightarrow> u32 \<Rightarrow> string" where
  "getFeatures account deviceId =
     (case getDevice account deviceId of None \<Rightarrow> [] | Some device \<Rightarrow> d_features device)"

definition getAuthDeviceName :: "(string \<Rightarrow> string) \<Rightarrow> nat \<Rightarrow> nat \<Rightarrow> Account \<Rightarrow> string" where
  "getAuthDeviceName b64enc os_android os_ios account =
     (case getAuthDevice account of
        None \<Rightarrow> Base64_encode b64enc ''Unknown'' False
      | Some device \<Rightarrow>
          if d_name device \<noteq> [] then d_name device
          else (case d_clientVersion device of
                  None \<Rightarrow> Base64_encode b64enc ''Unknown'' False
                | Some clientVersion \<Rightarrow>
                    if cv_phoneModel clientVersion \<noteq> [] then Base64_encode b64enc (cv_phoneModel clientVersion) False
                    else if cv_osType clientVersion = os_android then Base64_encode b64enc ''Android'' False
                    else if cv_osType clientVersion = os_ios then Base64_encode b64enc ''iOS'' False
                    else Base64_encode b64enc ''Unknown'' False))"

definition kAccountExpiredTimeInMilli :: int where
  "kAccountExpiredTimeInMilli = 365 * 24 * 60 * 60 * 1000"

definition kDeviceExpiredTimeInMilli :: int where
  "kDeviceExpiredTimeInMilli = 30 * 24 * 60 * 60 * 1000"

definition isDeviceActive :: "u32 \<Rightarrow> int \<Rightarrow> Device \<Rightarrow> bool" where
  "isDeviceActive master now device =
     (let hasChannel = d_fetchesMessages device \<or> d_apnId device \<noteq> [] \<or> d_umengId device \<noteq> [] \<or> d_gcmId device \<noteq> []
      in (d_id device = master \<and> hasChannel \<and> d_signedPreKey device \<noteq> None)
         \<or> (d_id device \<noteq> master \<and> hasChannel \<and> d_signedPreKey device \<noteq> None
            \<and> sint (d_lastSeenTime device) > now - kDeviceExpiredTimeInMilli))"

definition isDevicePushable :: "int \<Rightarrow> Device \<Rightarrow> bool" where
  "isDevicePushable now device =
     (let hasPushChannel = d_apnId device \<noteq> [] \<or> d_umengId device \<noteq> [] \<or> d_gcmId device \<noteq> []
      in hasPushChannel \<and> sint (d_lastSeenTime device) > now - kDeviceExpiredTimeInMilli)"

definition last_seen_loop :: "Device list \<Rightarrow> u64 \<Rightarrow> u64" where
  "last_seen_loop devices lastSeen =
     fold (\<lambda>d lastSeen. if d_lastSeenTime d > lastSeen then d_lastSeenTime d else lastSeen) devices lastSeen"

definition getAccountLastSeen :: "Account \<Rightarrow> int" where
  "getAccountLastSeen account = sint (last_seen_loop (a_devices account) 0)"

definition isAccountActive :: "u32 \<Rightarrow> nat \<Rightarrow> int \<Rightarrow> Account \<Rightarrow> bool" where
  "isAccountActive master st_normal now account \<longleftrightarrow>
     a_state account = st_normal
     \<and> (case getDevice account master of
          None \<Rightarrow> False
        | Some masterDevice \<Rightarrow> isDeviceActive master now masterDevice
            \<and> getAccountLastSeen account > now - kAccountExpiredTimeInMilli)"

definition isSupportVoice :: "Account \<Rightarrow> bool" where
  "isSupportVoice account = list_ex d_supportVoice (a_devices account)"

definition isSupportVideo :: "Account \<Rightarrow> bool" where
  "isSupportVideo account = list_ex d_supportVideo (a_devices account)"

section \<open>ModifyAccount\<close>

record ModifyAccount =
  md_account :: Account
  md_field :: AccountField
  md_miss :: "string list"

definition ModifyAccount_new :: "Account \<Rightarrow> ModifyAccount" where
  "ModifyAccount_new account =
     \<lparr>md_account = account, md_field = \<lparr>af_modifyFields = [], af_modifyFilters = None, af_devices = []\<rparr>, md_miss = []\<rparr>"

definition isModifyAccountFieldOK :: "ModifyAccount \<Rightarrow> bool" where
  "isModifyAccountFieldOK m = (md_miss m = [])"

text \<open>Outside unit tests every field name passes the check.\<close>

definition checkFieldName :: "string \<Rightarrow> bool" where
  "checkFieldName fieldName = True"

definition addAccountField :: "string \<Rightarrow> ModifyAccount \<Rightarrow> ModifyAccount" where
  "addAccountField fieldName m =
     (if \<not> checkFieldName fieldName then m\<lparr>md_miss := md_miss m @ [fieldName]\<rparr>
      else m\<lparr>md_field := (md_field m)\<lparr>af_modifyFields := af_modifyFields (md_field m) @ [fieldName]\<rparr>\<rparr>)"

text \<open>The loop over \<open>mAccountField.devices\<close>: the first entry of the device gets the field; the
  result tells whether there is one.\<close>

fun add_device_field :: "u32 \<Rightarrow> string \<Rightarrow> DeviceField list \<Rightarrow> DeviceField list option" where
  "add_device_field i v [] = None"
| "add_device_field i v (d # ds) =
     (if df_id d = i then Some (d\<lparr>df_modifyFields := df_modifyFields d @ [v]\<rparr> # ds)
      else map_option (\<lambda>ds'. d # ds') (add_device_field i v ds))"

definition addStringDeviceField :: "u32 \<Rightarrow> string \<Rightarrow> ModifyAccount \<Rightarrow> ModifyAccount" where
  "addStringDeviceField i v m =
     (if \<not> checkFieldName v then m\<lparr>md_miss := md_miss m @ [''dev_'' @ to_dec (unat i) @ v]\<rparr>
      else let devices = af_devices (md_field m);
               devices' = (case add_device_field i v devices of
                             Some ds \<Rightarrow> ds
                           | None \<Rightarrow> devices @ [\<lparr>df_id = i, df_modifyFields = [v], df_isCreate = False, df_isErase = False\<rparr>])
           in m\<lparr>md_field := (md_field m)\<lparr>af_devices := devices'\<rparr>\<rparr>)"

definition mutable_modifyfilters :: "AccountField \<Rightarrow> ContactsFiltersField" where
  "mutable_modifyfilters f =
     (case af_modifyFilters f of Some ff \<Rightarrow> ff | None \<Rightarrow> \<lparr>ff_isClear = False, ff_modifyFields = []\<rparr>)"

definition addContactFilterField :: "string \<Rightarrow> ModifyAccount \<Rightarrow> ModifyAccount" where
  "addContactFilterField v m =
     (if \<not> checkFieldName v then m\<lparr>md_miss := md_miss m @ [''filter_'' @ v]\<rparr>
      else let mf = mutable_modifyfilters (md_field m)
           in m\<lparr>md_field := (md_field m)\<lparr>af_modifyFilters := Some (mf\<lparr>ff_modifyFields := ff_modifyFields mf @ [v]\<rparr>)\<rparr>\<rparr>)"

text \<open>The index of the first element that satisfies a predicate.\<close>

fun find_index :: "('a \<Rightarrow> bool) \<Rightarrow> 'a list \<Rightarrow> nat option" where
  "find_index P [] = None"
| "find_index P (x # xs) = (if P x then Some 0 else map_option Suc (find_index P xs))"

definition getMutableDevice :: "u32 \<Rightarrow> ModifyAccount \<Rightarrow> nat option" where
  "getMutableDevice devId m = find_index (\<lambda>d. d_id d = devId) (a_devices (md_account m))"

definition ContactsFilters_new :: ContactsFilters where
  "ContactsFilters_new = \<lparr>cf_algo = 0, cf_content = [], cf_version = []\<rparr>"

definition getMutableContactsFilters :: "ModifyAccount \<Rightarrow> ModifyAccount" where
  "getMutableContactsFilters m =
     m\<lparr>md_account := (md_account m)\<lparr>a_contactsFilters :=
       Some (case a_contactsFilters (md_account m) of Some cf \<Rightarrow> cf | None \<Rightarrow> ContactsFilters_new)\<rparr>\<rparr>"

fun create_device_field :: "u32 \<Rightarrow> DeviceField list \<Rightarrow> DeviceField list option" where
  "create_device_field i [] = None"
| "create_device_field i (md # mds) =
     (if df_id md = i then Some (md\<lparr>df_modifyFields := [], df_isCreate := True\<rparr> # mds)
      else map_option (\<lambda>mds'. md # mds') (create_device_field i mds))"

definition createMutableDevice :: "u32 \<Rightarrow> ModifyAccount \<Rightarrow> nat \<times> ModifyAccount" where
  "createMutableDevice devId m =
     (let devices = a_devices (md_account m);
          (idx, devices') = (case find_index (\<lambda>d. d_id d = devId) devices of
                               Some k \<Rightarrow> (k, devices[k := Device_new\<lparr>d_id := devId\<rparr>])
                             | None \<Rightarrow> (length devices, devices @ [Device_new\<lparr>d_id := devId\<rparr>]));
          fs = af_devices (md_field m);
          fs' = (case create_device_field devId fs of
                       Some mds \<Rightarrow> mds
                     | None \<Rightarrow> fs @ [\<lparr>df_id = devId, df_modifyFields = [], df_isCreate = True, df_isErase = False\<rparr>])
      in (idx, m\<lparr>md_account := (md_account m)\<lparr>a_devices := devices'\<rparr>,
                 md_field := (md_field m)\<lparr>af_devices := fs'\<rparr>\<rparr>))"

definition clear_contactsfilters :: "ModifyAccount \<Rightarrow> ModifyAccount" where
  "clear_contactsfilters m =
     (let mf = mutable_modifyfilters (md_field m)
      in m\<lparr>md_account := (md_account m)\<lparr>a_contactsFilters := None\<rparr>,
           md_field := (md_field m)\<lparr>af_modifyFilters := Some (mf\<lparr>ff_isClear := True, ff_modifyFields := []\<rparr>)\<rparr>\<rparr>)"

text \<open>The loop of \<open>del_slave_devices\<close>: the devices kept, and the entries added.\<close>

fun del_slaves_loop :: "u32 \<Rightarrow> Device list \<Rightarrow> DeviceField list \<Rightarrow> Device list \<times> DeviceField list" where
  "del_slaves_loop master [] fs = ([], fs)"
| "del_slaves_loop master (d # ds) fs =
     (if d_id d \<noteq> master
      then del_slaves_loop master ds
        (fs @ [\<lparr>df_id = d_id d, df_modifyFields = [], df_isCreate = False, df_isErase = True\<rparr>])
      else let (ds', fs') = del_slaves_loop master ds fs in (d # ds', fs'))"

definition del_slave_devices :: "u32 \<Rightarrow> ModifyAccount \<Rightarrow> ModifyAccount" where
  "del_slave_devices master m =
     (let (ds, fs) = del_slaves_loop master (a_devices (md_account m)) (af_devices (md_field m))
      in m\<lparr>md_account := (md_account m)\<lparr>a_devices := ds\<rparr>, md_field := (md_field m)\<lparr>af_devices := fs\<rparr>\<rparr>)"

fun del_device_loop :: "u32 \<Rightarrow> u32 \<Rightarrow> Device list \<Rightarrow> DeviceField list \<Rightarrow> Device list \<times> DeviceField list" where
  "del_device_loop master devId [] fs = ([], fs)"
| "del_device_loop master devId (d # ds) fs =
     (if d_id d \<noteq> master \<and> d_id d = devId
      then (ds, fs @ [\<lparr>df_id = d_id d, df_modifyFields = [], df_isCreate = False, df_isErase = True\<rparr>])
      else let (ds', fs') = del_device_loop master devId ds fs in (d # ds', fs'))"

definition del_device :: "u32 \<Rightarrow> u32 \<Rightarrow> ModifyAccount \<Rightarrow> ModifyAccount" where
  "del_device master devId m =
     (let (ds, fs) = del_device_loop master devId (a_devices (md_account m)) (af_devices (md_field m))
      in m\<lparr>md_account := (md_account m)\<lparr>a_devices := ds\<rparr>, md_field := (md_field m)\<lparr>af_devices := fs\<rparr>\<rparr>)"

subsection \<open>Setters of the account\<close>

text \<open>Every setter writes the field and records its name.\<close>

definition set_account :: "(Account \<Rightarrow> Account) \<Rightarrow> string \<Rightarrow> ModifyAccount \<Rightarrow> ModifyAccount" where
  "set_account upd fieldName m = addAccountField fieldName (m\<lparr>md_account := upd (md_account m)\<rparr>)"

definition set_identitykey :: "string \<Rightarrow> ModifyAccount \<Rightarrow> ModifyAccount" where
  "set_identitykey v = set_account (\<lambda>a. a\<lparr>a_identityKey := v\<rparr>) ''identityKey''"

definition set_state :: "nat \<Rightarrow> ModifyAccount \<Rightarrow> ModifyAccount" where
  "set_state v = set_account (\<lambda>a. a\<lparr>a_state := v\<rparr>) ''state''"

definition set_name :: "string \<Rightarrow> ModifyAccount \<Rightarrow> ModifyAccount" where
  "set_name v = set_account (\<lambda>a. a\<lparr>a_name := v\<rparr>) ''name''"

definition set_avater :: "string \<Rightarrow> ModifyAccount \<Rightarrow> ModifyAccount" where
  "set_avater v = set_account (\<lambda>a. a\<lparr>a_avater := v\<rparr>) ''avater''"

definition set_nickname :: "string \<Rightarrow> ModifyAccount \<Rightarrow> ModifyAccount" where
  "set_nickname v = set_account (\<lambda>a. a\<lparr>a_nickname := v\<rparr>) ''nickname''"

definition set_slaveDeviceNum :: "u32 \<Rightarrow> ModifyAccount \<Rightarrow> ModifyAccount" where
  "set_slaveDeviceNum v = set_account (\<lambda>a. a\<lparr>a_slaveDeviceNum := v\<rparr>) ''slaveDeviceNum''"

definition set_ldavatar :: "string \<Rightarrow> ModifyAccount \<Rightarrow> ModifyAccount" where
  "set_ldavatar v = set_account (\<lambda>a. a\<lparr>a_ldAvatar := v\<rparr>) ''ldAvatar''"

definition set_hdavatar :: "string \<Rightarrow> ModifyAccount \<Rightarrow> ModifyAccount" where
  "set_hdavatar v = set_account (\<lambda>a. a\<lparr>a_hdAvatar := v\<rparr>) ''hdAvatar''"

definition set_profilekeys :: "string \<Rightarrow> ModifyAccount \<Rightarrow> ModifyAccount" where
  "set_profilekeys v = set_account (\<lambda>a. a\<lparr>a_profileKeys := v\<rparr>) ''profileKeys''"

definition mutable_privacy :: "Account_Privacy \<Rightarrow> ModifyAccount \<Rightarrow> ModifyAccount" where
  "mutable_privacy v = set_account (\<lambda>a. a\<lparr>a_privacy := Some v\<rparr>) ''privacy''"

subsection \<open>Setters of a device\<close>

text \<open>A \<open>ModifyAccountDevice\<close> is the index of its device; the setters are named after its
  methods.\<close>

definition set_device :: "nat \<Rightarrow> (Device \<Rightarrow> Device) \<Rightarrow> string \<Rightarrow> ModifyAccount \<Rightarrow> ModifyAccount" where
  "set_device k upd fieldName m =
     (let ds = a_devices (md_account m)
      in if k < length ds
         then addStringDeviceField (d_id (upd (ds ! k))) fieldName
                (m\<lparr>md_account := (md_account m)\<lparr>a_devices := ds[k := upd (ds ! k)]\<rparr>\<rparr>)
         else m)"

definition device_mutable_signedprekey :: "nat \<Rightarrow> SignedPreKey \<Rightarrow> ModifyAccount \<Rightarrow> ModifyAccount" where
  "device_mutable_signedprekey k v = set_device k (\<lambda>d. d\<lparr>d_signedPreKey := Some v\<rparr>) ''signedPreKey''"

definition device_mutable_clientversion :: "nat \<Rightarrow> ClientVersion \<Rightarrow> ModifyAccount \<Rightarrow> ModifyAccount" where
  "device_mutable_clientversion k v = set_device k (\<lambda>d. d\<lparr>d_clientVersion := Some v\<rparr>) ''clientVersion''"

definition device_set_gcmid :: "nat \<Rightarrow> string \<Rightarrow> ModifyAccount \<Rightarrow> ModifyAccount" where
  "device_set_gcmid k v = set_device k (\<lambda>d. d\<lparr>d_gcmId := v\<rparr>) ''gcmId''"

definition device_set_umengid :: "nat \<Rightarrow> string \<Rightarrow> ModifyAccount \<Rightarrow> ModifyAccount" where
  "device_set_umengid k v = set_device k (\<lambda>d. d\<lparr>d_umengId := v\<rparr>) ''umengId''"

definition device_set_apntype :: "nat \<Rightarrow> string \<Rightarrow> ModifyAccount \<Rightarrow> ModifyAccount" where
  "device_set_apntype k v = set_device k (\<lambda>d. d\<lparr>d_apnType := v\<rparr>) ''apnType''"

definition device_set_apnid :: "nat \<Rightarrow> string \<Rightarrow> ModifyAccount \<Rightarrow> ModifyAccount" where
  "device_set_apnid k v = set_device k (\<lambda>d. d\<lparr>d_apnId := v\<rparr>) ''apnId''"

definition device_set_voipapnid :: "nat \<Rightarrow> string \<Rightarrow> ModifyAccount \<Rightarrow> ModifyAccount" where
  "device_set_voipapnid k v = set_device k (\<lambda>d. d\<lparr>d_voipApnId := v\<rparr>) ''voipApnId''"

definition device_set_fetchesmessages :: "nat \<Rightarrow> bool \<Rightarrow> ModifyAccount \<Rightarrow> ModifyAccount" where
  "device_set_fetchesmessages k v = set_device k (\<lambda>d. d\<lparr>d_fetchesMessages := v\<rparr>) ''fetchesMessages''"

definition device_set_authtoken :: "nat \<Rightarrow> string \<Rightarrow> ModifyAccount \<Rightarrow> ModifyAccount" where
  "device_set_authtoken k v = set_device k (\<lambda>d. d\<lparr>d_authToken := v\<rparr>) ''authToken''"

definition device_set_salt :: "nat \<Rightarrow> string \<Rightarrow> ModifyAccount \<Rightarrow> ModifyAccount" where
  "device_set_salt k v = set_device k (\<lambda>d. d\<lparr>d_salt := v\<rparr>) ''salt''"

definition device_set_features :: "nat \<Rightarrow> string \<Rightarrow> ModifyAccount \<Rightarrow> ModifyAccount" where
  "device_set_features k v = set_device k (\<lambda>d. d\<lparr>d_features := v\<rparr>) ''features''"

definition device_set_publicKey :: "nat \<Rightarrow> string \<Rightarrow> ModifyAccount \<Rightarrow> ModifyAccount" where
  "device_set_publicKey k v = set_device k (\<lambda>d. d\<lparr>d_publicKey := v\<rparr>) ''publicKey''"

definition device_set_accountSignature :: "nat \<Rightarrow> string \<Rightarrow> ModifyAccount \<Rightarrow> ModifyAccount" where
  "device_set_accountSignature k v = set_device k (\<lambda>d. d\<lparr>d_accountSignature := v\<rparr>) ''accountSignature''"

definition device_set_signalingkey :: "nat \<Rightarrow> string \<Rightarrow> ModifyAccount \<Rightarrow> ModifyAccount" where
  "device_set_signalingkey k v = set_device k (\<lambda>d. d\<lparr>d_signalingKey := v\<rparr>) ''signalingKey''"

definition device_set_registrationid :: "nat \<Rightarrow> u32 \<Rightarrow> ModifyAccount \<Rightarrow> ModifyAccount" where
  "device_set_registrationid k v = set_device k (\<lambda>d. d\<lparr>d_registrationId := v\<rparr>) ''registrationId''"

definition device_set_version :: "nat \<Rightarrow> u32 \<Rightarrow> ModifyAccount \<Rightarrow> ModifyAccount" where
  "device_set_version k v = set_device k (\<lambda>d. d\<lparr>d_version := v\<rparr>) ''version''"

definition device_set_name :: "nat \<Rightarrow> string \<Rightarrow> ModifyAccount \<Rightarrow> ModifyAccount" where
  "device_set_name k v = set_device k (\<lambda>d. d\<lparr>d_name := v\<rparr>) ''name''"

definition device_set_supportvoice :: "nat \<Rightarrow> bool \<Rightarrow> ModifyAccount \<Rightarrow> ModifyAccount" where
  "device_set_supportvoice k v = set_device k (\<lambda>d. d\<lparr>d_supportVoice := v\<rparr>) ''supportVoice''"

definition device_set_supportvideo :: "nat \<Rightarrow> bool \<Rightarrow> ModifyAccount \<Rightarrow> ModifyAccount" where
  "device_set_supportvideo k v = set_device k (\<lambda>d. d\<lparr>d_supportVideo := v\<rparr>) ''supportVideo''"

definition device_set_lastseentime :: "nat \<Rightarrow> u64 \<Rightarrow> ModifyAccount \<Rightarrow> ModifyAccount" where
  "device_set_lastseentime k v = set_device k (\<lambda>d. d\<lparr>d_lastSeenTime := v\<rparr>) ''lastSeenTime''"

definition device_set_createtime :: "nat \<Rightarrow> u64 \<Rightarrow> ModifyAccount \<Rightarrow> ModifyAccount" where
  "device_set_createtime k v = set_device k (\<lambda>d. d\<lparr>d_createTime := v\<rparr>) ''createTime''"

definition device_set_useragent :: "nat \<Rightarrow> string \<Rightarrow> ModifyAccount \<Rightarrow> ModifyAccount" where
  "device_set_useragent k v = set_device k (\<lambda>d. d\<lparr>d_userAgent := v\<rparr>) ''userAgent''"

definition device_set_state :: "nat \<Rightarrow> nat \<Rightarrow> ModifyAccount \<Rightarrow> ModifyAccount" where
  "device_set_state k v = set_device k (\<lambda>d. d\<lparr>d_state := v\<rparr>) ''state''"

subsection \<open>Setters of the contacts filters\<close>

definition set_filters :: "(ContactsFilters \<Rightarrow> ContactsFilters) \<Rightarrow> string \<Rightarrow> ModifyAccount \<Rightarrow> ModifyAccount" where
  "set_filters upd fieldName m =
     (case a_contactsFilters (md_account m) of
        None \<Rightarrow> m
      | Some cf \<Rightarrow> addContactFilterField fieldName
          (m\<lparr>md_account := (md_account m)\<lparr>a_contactsFilters := Some (upd cf)\<rparr>\<rparr>))"

definition filters_set_algo :: "u32 \<Rightarrow> ModifyAccount \<Rightarrow> ModifyAccount" where
  "filters_set_algo v = set_filters (\<lambda>f. f\<lparr>cf_algo := v\<rparr>) ''algo''"

definition filters_set_content :: "string \<Rightarrow> ModifyAccount \<Rightarrow> ModifyAccount" where
  "filters_set_content v = set_filters (\<lambda>f. f\<lparr>cf_content := v\<rparr>) ''content''"

definition filters_set_version :: "string \<Rightarrow> ModifyAccount \<Rightarrow> ModifyAccount" where
  "filters_set_version v = set_filters (\<lambda>f. f\<lparr>cf_version := v\<rparr>) ''version''"

section \<open>AccountsManager: writing\<close>

text \<open>The database is a function from what is written to its answer. The result of an update also
  tells what the database was asked to write, if it was asked.\<close>

definition AccountsManager_create :: "(Account \<Rightarrow> dao_code) \<Rightarrow> Account \<Rightarrow> bool" where
  "AccountsManager_create dao account = (dao account = Dao_Success)"

definition AccountsManager_get :: "(string \<Rightarrow> dao_code \<times> Account option) \<Rightarrow> string \<Rightarrow> dao_code \<times> Account option" where
  "AccountsManager_get dao uid = dao uid"

definition AccountsManager_get_all ::
    "(string list \<Rightarrow> dao_code \<times> Account list \<times> string list) \<Rightarrow> string list \<Rightarrow> bool \<times> Account list \<times> string list" where
  "AccountsManager_get_all dao uids =
     (let (ret, accounts, missedUids) = dao uids
      in if ret \<noteq> Dao_Success then (False, accounts, missedUids) else (True, accounts, missedUids))"

definition updateAccount ::
    "(Account \<Rightarrow> AccountField \<Rightarrow> dao_code) \<Rightarrow> ModifyAccount \<Rightarrow> bool \<times> (Account \<times> AccountField) option" where
  "updateAccount dao m =
     (if \<not> isModifyAccountFieldOK m then (False, None)
      else if af_modifyFields (md_field m) = [] \<and> af_modifyFilters (md_field m) = None \<and> af_devices (md_field m) = []
      then (False, None)
      else (dao (md_account m) (md_field m) = Dao_Success, Some (md_account m, md_field m)))"

definition updateDevice ::
    "(Account \<Rightarrow> DeviceField \<Rightarrow> dao_code) \<Rightarrow> ModifyAccount \<Rightarrow> u32 \<Rightarrow> bool \<times> (Account \<times> DeviceField) option" where
  "updateDevice dao m deviceId =
     (if \<not> isModifyAccountFieldOK m then (False, None)
      else if af_devices (md_field m) = [] then (False, None)
      else case List.find (\<lambda>device. df_id device = deviceId) (af_devices (md_field m)) of
             Some device \<Rightarrow> (dao (md_account m) device = Dao_Success, Some (md_account m, device))
           | None \<Rightarrow> (False, None))"

section \<open>What an edit records\<close>

text \<open>\<open>a\<close> and \<open>b\<close> agree on every field whose name is not in \<open>F\<close>.\<close>

definition acc_agree :: "string set \<Rightarrow> Account \<Rightarrow> Account \<Rightarrow> bool" where
  "acc_agree F a b \<longleftrightarrow> a_uid a = a_uid b \<and> a_publicKey a = a_publicKey b \<and> a_authDeviceId a = a_authDeviceId b
     \<and> (''identityKey'' \<notin> F \<longrightarrow> a_identityKey a = a_identityKey b)
     \<and> (''state'' \<notin> F \<longrightarrow> a_state a = a_state b)
     \<and> (''name'' \<notin> F \<longrightarrow> a_name a = a_name b)
     \<and> (''avater'' \<notin> F \<longrightarrow> a_avater a = a_avater b)
     \<and> (''nickname'' \<notin> F \<longrightarrow> a_nickname a = a_nickname b)
     \<and> (''slaveDeviceNum'' \<notin> F \<longrightarrow> a_slaveDeviceNum a = a_slaveDeviceNum b)
     \<and> (''ldAvatar'' \<notin> F \<longrightarrow> a_ldAvatar a = a_ldAvatar b)
     \<and> (''hdAvatar'' \<notin> F \<longrightarrow> a_hdAvatar a = a_hdAvatar b)
     \<and> (''profileKeys'' \<notin> F \<longrightarrow> a_profileKeys a = a_profileKeys b)
     \<and> (''privacy'' \<notin> F \<longrightarrow> a_privacy a = a_privacy b)"

definition dev_agree :: "string set \<Rightarrow> Device \<Rightarrow> Device \<Rightarrow> bool" where
  "dev_agree F d e \<longleftrightarrow> d_id d = d_id e
     \<and> (''signedPreKey'' \<notin> F \<longrightarrow> d_signedPreKey d = d_signedPreKey e)
     \<and> (''clientVersion'' \<notin> F \<longrightarrow> d_clientVersion d = d_clientVersion e)
     \<and> (''gcmId'' \<notin> F \<longrightarrow> d_gcmId d = d_gcmId e)
     \<and> (''umengId'' \<notin> F \<longrightarrow> d_umengId d = d_umengId e)
     \<and> (''apnType'' \<notin> F \<longrightarrow> d_apnType d = d_apnType e)
     \<and> (''apnId'' \<notin> F \<longrightarrow> d_apnId d = d_apnId e)
     \<and> (''voipApnId'' \<notin> F \<longrightarrow> d_voipApnId d = d_voipApnId e)
     \<and> (''fetchesMessages'' \<notin> F \<longrightarrow> d_fetchesMessages d = d_fetchesMessages e)
     \<and> (''authToken'' \<notin> F \<longrightarrow> d_authToken d = d_authToken e)
     \<and> (''salt'' \<notin> F \<longrightarrow> d_salt d = d_salt e)
     \<and> (''features'' \<notin> F \<longrightarrow> d_features d = d_features e)
     \<and> (''publicKey'' \<notin> F \<longrightarrow> d_publicKey d = d_publicKey e)
     \<and> (''accountSignature'' \<notin> F \<longrightarrow> d_accountSignature d = d_accountSignature e)
     \<and> (''signalingKey'' \<notin> F \<longrightarrow> d_signalingKey d = d_signalingKey e)
     \<and> (''registrationId'' \<notin> F \<longrightarrow> d_registrationId d = d_registrationId e)
     \<and> (''version'' \<notin> F \<longrightarrow> d_version d = d_version e)
     \<and> (''name'' \<notin> F \<longrightarrow> d_name d = d_name e)
     \<and> (''supportVoice'' \<notin> F \<longrightarrow> d_supportVoice d = d_supportVoice e)
     \<and> (''supportVideo'' \<notin> F \<longrightarrow> d_supportVideo d = d_supportVideo e)
     \<and> (''lastSeenTime'' \<notin> F \<longrightarrow> d_lastSeenTime d = d_lastSeenTime e)
     \<and> (''createTime'' \<notin> F \<longrightarrow> d_createTime d = d_createTime e)
     \<and> (''userAgent'' \<notin> F \<longrightarrow> d_userAgent d = d_userAgent e)
     \<and> (''state'' \<notin> F \<longrightarrow> d_state d = d_state e)"

text \<open>A missing filters message reads as the default one.\<close>

definition filters_of :: "Account \<Rightarrow> ContactsFilters" where
  "filters_of a = (case a_contactsFilters a of Some f \<Rightarrow> f | None \<Rightarrow> ContactsFilters_new)"

definition filters_agree :: "string set \<Rightarrow> ContactsFilters \<Rightarrow> ContactsFilters \<Rightarrow> bool" where
  "filters_agree F f g \<longleftrightarrow> (''algo'' \<notin> F \<longrightarrow> cf_algo f = cf_algo g)
     \<and> (''content'' \<notin> F \<longrightarrow> cf_content f = cf_content g) \<and> (''version'' \<notin> F \<longrightarrow> cf_version f = cf_version g)"

primrec entry_fields :: "DeviceField list \<Rightarrow> u32 \<Rightarrow> string set" where
  "entry_fields [] i = {}"
| "entry_fields (df # dfs) i = (if df_id df = i then set (df_modifyFields df) else {}) \<union> entry_fields dfs i"

definition fields_of :: "ModifyAccount \<Rightarrow> u32 \<Rightarrow> string set" where
  "fields_of m i = entry_fields (af_devices (md_field m)) i"

definition created :: "ModifyAccount \<Rightarrow> u32 \<Rightarrow> bool" where
  "created m i \<longleftrightarrow> list_ex (\<lambda>df. df_id df = i \<and> df_isCreate df) (af_devices (md_field m))"

definition erased :: "ModifyAccount \<Rightarrow> u32 \<Rightarrow> bool" where
  "erased m i \<longleftrightarrow> list_ex (\<lambda>df. df_id df = i \<and> df_isErase df) (af_devices (md_field m))"

text \<open>The record is complete for the original account \<open>a\<close>: whatever differs is recorded.\<close>

definition dev_recorded :: "Device list \<Rightarrow> ModifyAccount \<Rightarrow> bool" where
  "dev_recorded ds m \<longleftrightarrow>
     (\<forall>e \<in> set (a_devices (md_account m)). created m (d_id e)
        \<or> (\<exists>d \<in> set ds. dev_agree (fields_of m (d_id e)) d e))
     \<and> (\<forall>d \<in> set ds. (\<exists>e \<in> set (a_devices (md_account m)). d_id e = d_id d) \<or> erased m (d_id d))"

definition filters_recorded :: "ContactsFiltersField option \<Rightarrow> ContactsFilters \<Rightarrow> ContactsFilters \<Rightarrow> bool" where
  "filters_recorded mf f g =
     (case mf of None \<Rightarrow> f = g | Some ff \<Rightarrow> ff_isClear ff \<or> filters_agree (set (ff_modifyFields ff)) f g)"

definition recorded :: "Account \<Rightarrow> ModifyAccount \<Rightarrow> bool" where
  "recorded a m \<longleftrightarrow> md_miss m = []
     \<and> acc_agree (set (af_modifyFields (md_field m))) a (md_account m)
     \<and> filters_recorded (af_modifyFilters (md_field m)) (filters_of a) (filters_of (md_account m))
     \<and> dev_recorded (a_devices a) m"

text \<open>The states of a \<open>ModifyAccount\<close> on \<open>a\<close>: any sequence of its operations.\<close>

inductive edits :: "u32 \<Rightarrow> Account \<Rightarrow> ModifyAccount \<Rightarrow> bool" where
  edit_new: "edits mst a (ModifyAccount_new a)"
| edit_set_identitykey: "edits mst a m \<Longrightarrow> edits mst a (set_identitykey v m)"
| edit_set_state: "edits mst a m \<Longrightarrow> edits mst a (set_state v m)"
| edit_set_name: "edits mst a m \<Longrightarrow> edits mst a (set_name v m)"
| edit_set_avater: "edits mst a m \<Longrightarrow> edits mst a (set_avater v m)"
| edit_set_nickname: "edits mst a m \<Longrightarrow> edits mst a (set_nickname v m)"
| edit_set_slaveDeviceNum: "edits mst a m \<Longrightarrow> edits mst a (set_slaveDeviceNum v m)"
| edit_set_ldavatar: "edits mst a m \<Longrightarrow> edits mst a (set_ldavatar v m)"
| edit_set_hdavatar: "edits mst a m \<Longrightarrow> edits mst a (set_hdavatar v m)"
| edit_set_profilekeys: "edits mst a m \<Longrightarrow> edits mst a (set_profilekeys v m)"
| edit_mutable_privacy: "edits mst a m \<Longrightarrow> edits mst a (mutable_privacy v m)"
| edit_device_mutable_signedprekey: "edits mst a m \<Longrightarrow> edits mst a (device_mutable_signedprekey k v m)"
| edit_device_mutable_clientversion: "edits mst a m \<Longrightarrow> edits mst a (device_mutable_clientversion k v m)"
| edit_device_set_gcmid: "edits mst a m \<Longrightarrow> edits mst a (device_set_gcmid k v m)"
| edit_device_set_umengid: "edits mst a m \<Longrightarrow> edits mst a (device_set_umengid k v m)"
| edit_device_set_apntype: "edits mst a m \<Longrightarrow> edits mst a (device_set_apntype k v m)"
| edit_device_set_apnid: "edits mst a m \<Longrightarrow> edits mst a (device_set_apnid k v m)"
| edit_device_set_voipapnid: "edits mst a m \<Longrightarrow> edits mst a (device_set_voipapnid k v m)"
| edit_device_set_fetchesmessages: "edits mst a m \<Longrightarrow> edits mst a (device_set_fetchesmessages k v m)"
| edit_device_set_authtoken: "edits mst a m \<Longrightarrow> edits mst a (device_set_authtoken k v m)"
| edit_device_set_salt: "edits mst a m \<Longrightarrow> edits mst a (device_set_salt k v m)"
| edit_device_set_features: "edits mst a m \<Longrightarrow> edits mst a (device_set_features k v m)"
| edit_device_set_publicKey: "edits mst a m \<Longrightarrow> edits mst a (device_set_publicKey k v m)"
| edit_device_set_accountSignature: "edits mst a m \<Longrightarrow> edits mst a (device_set_accountSignature k v m)"
| edit_device_set_signalingkey: "edits mst a m \<Longrightarrow> edits mst a (device_set_signalingkey k v m)"
| edit_device_set_registrationid: "edits mst a m \<Longrightarrow> edits mst a (device_set_registrationid k v m)"
| edit_device_set_version: "edits mst a m \<Longrightarrow> edits mst a (device_set_version k v m)"
| edit_device_set_name: "edits mst a m \<Longrightarrow> edits mst a (device_set_name k v m)"
| edit_device_set_supportvoice: "edits mst a m \<Longrightarrow> edits mst a (device_set_supportvoice k v m)"
| edit_device_set_supportvideo: "edits mst a m \<Longrightarrow> edits mst a (device_set_supportvideo k v m)"
| edit_device_set_lastseentime: "edits mst a m \<Longrightarrow> edits mst a (device_set_lastseentime k v m)"
| edit_device_set_createtime: "edits mst a m \<Longrightarrow> edits mst a (device_set_createtime k v m)"
| edit_device_set_useragent: "edits mst a m \<Longrightarrow> edits mst a (device_set_useragent k v m)"
| edit_device_set_state: "edits mst a m \<Longrightarrow> edits mst a (device_set_state k v m)"
| edit_filters_set_algo: "edits mst a m \<Longrightarrow> edits mst a (filters_set_algo v m)"
| edit_filters_set_content: "edits mst a m \<Longrightarrow> edits mst a (filters_set_content v m)"
| edit_filters_set_version: "edits mst a m \<Longrightarrow> edits mst a (filters_set_version v m)"
| edit_get_filters: "edits mst a m \<Longrightarrow> edits mst a (getMutableContactsFilters m)"
| edit_clear_filters: "edits mst a m \<Longrightarrow> edits mst a (clear_contactsfilters m)"
| edit_create: "edits mst a m \<Longrightarrow> edits mst a (snd (createMutableDevice i m))"
| edit_del: "edits mst a m \<Longrightarrow> edits mst a (del_device mst i m)"
| edit_del_slaves: "edits mst a m \<Longrightarrow> edits mst a (del_slave_devices mst m)"

lemma entry_fields_append [simp]: "entry_fields (xs @ ys) i = entry_fields xs i \<union> entry_fields ys i"
  by (induction xs) auto

lemma acc_agree_trans: "acc_agree F a b \<Longrightarrow> acc_agree G b c \<Longrightarrow> acc_agree (F \<union> G) a c"
  by (simp add: acc_agree_def)

lemma dev_agree_trans: "dev_agree F a b \<Longrightarrow> dev_agree G b c \<Longrightarrow> dev_agree (F \<union> G) a c"
  by (simp add: dev_agree_def)

lemma filters_agree_trans: "filters_agree F a b \<Longrightarrow> filters_agree G b c \<Longrightarrow> filters_agree (F \<union> G) a c"
  by (simp add: filters_agree_def)

lemma agree_refl [simp]: "acc_agree F a a" "dev_agree F d d" "filters_agree F f f"
  by (simp_all add: acc_agree_def dev_agree_def filters_agree_def)

lemma recorded_new: "recorded a (ModifyAccount_new a)"
proof -
  have "\<exists>d \<in> set (a_devices a). dev_agree F d e" if "e \<in> set (a_devices a)" for e F
    using that agree_refl(2) by blast
  then show ?thesis
    by (auto simp: recorded_def filters_recorded_def dev_recorded_def ModifyAccount_new_def)
qed

lemma recorded_set_account:
  assumes "recorded a m" and "\<And>x. acc_agree {f} x (upd x)"
    and "\<And>x. a_devices (upd x) = a_devices x" and "\<And>x. a_contactsFilters (upd x) = a_contactsFilters x"
  shows "recorded a (set_account upd f m)"
proof -
  have "acc_agree (insert f (set (af_modifyFields (md_field m)))) a (upd (md_account m))"
    using acc_agree_trans [OF _ assms(2), of "set (af_modifyFields (md_field m))" a "md_account m"] assms(1)
    by (simp add: recorded_def)
  with assms show ?thesis
    by (auto simp: recorded_def set_account_def addAccountField_def checkFieldName_def filters_of_def
        dev_recorded_def created_def erased_def fields_of_def split: option.splits)
qed

lemma add_device_field_eq:
  "add_device_field i v ds =
    (case find_index (\<lambda>d. df_id d = i) ds of
       None \<Rightarrow> None | Some k \<Rightarrow> Some (ds[k := (ds ! k)\<lparr>df_modifyFields := df_modifyFields (ds ! k) @ [v]\<rparr>]))"
  by (induction ds) (auto split: option.splits)

lemma create_device_field_eq:
  "create_device_field i ds =
    (case find_index (\<lambda>d. df_id d = i) ds of
       None \<Rightarrow> None | Some k \<Rightarrow> Some (ds[k := (ds ! k)\<lparr>df_modifyFields := [], df_isCreate := True\<rparr>]))"
  by (induction ds) (auto split: option.splits)

lemma find_index_Some: "find_index P xs = Some k \<Longrightarrow> k < length xs \<and> P (xs ! k)"
  by (induction xs arbitrary: k) (auto split: if_splits)

lemma find_index_None: "find_index P xs = None \<longleftrightarrow> (\<forall>x \<in> set xs. \<not> P x)"
  by (induction xs) auto

lemma find_index_split:
  assumes "find_index P xs = Some k"
  obtains ys x zs where "xs = ys @ x # zs" "k = length ys" "P x"
  using find_index_Some [OF assms] by (metis id_take_nth_drop length_take min.absorb2 nat_less_le)

text \<open>What \<open>addStringDeviceField\<close> does to the record.\<close>

lemma addStringDeviceField_devices:
  "(\<exists>ys x zs. af_devices (md_field m) = ys @ x # zs \<and> df_id x = i
     \<and> af_devices (md_field (addStringDeviceField i v m)) = ys @ x\<lparr>df_modifyFields := df_modifyFields x @ [v]\<rparr> # zs)
   \<or> af_devices (md_field (addStringDeviceField i v m)) = af_devices (md_field m) @
        [\<lparr>df_id = i, df_modifyFields = [v], df_isCreate = False, df_isErase = False\<rparr>]"
proof (cases "find_index (\<lambda>d. df_id d = i) (af_devices (md_field m))")
  case None
  then show ?thesis by (simp add: addStringDeviceField_def checkFieldName_def add_device_field_eq)
next
  case (Some k)
  then obtain ys x zs where s: "af_devices (md_field m) = ys @ x # zs" "k = length ys" "df_id x = i"
    by (rule find_index_split)
  with Some have "af_devices (md_field (addStringDeviceField i v m)) = ys @ x\<lparr>df_modifyFields := df_modifyFields x @ [v]\<rparr> # zs"
    by (simp add: addStringDeviceField_def checkFieldName_def add_device_field_eq)
  with s show ?thesis by blast
qed

lemma addStringDeviceField_record:
  shows "fields_of (addStringDeviceField i v m) j = (if j = i then insert v (fields_of m j) else fields_of m j)"
    and "created (addStringDeviceField i v m) j = created m j"
    and "erased (addStringDeviceField i v m) j = erased m j"
  using addStringDeviceField_devices [of m i v]
  by (elim disjE exE conjE; simp add: fields_of_def created_def erased_def)+

lemma addStringDeviceField_frame [simp, frame]:
  "md_account (addStringDeviceField i v m) = md_account m" "md_miss (addStringDeviceField i v m) = md_miss m"
  "af_modifyFields (md_field (addStringDeviceField i v m)) = af_modifyFields (md_field m)"
  "af_modifyFilters (md_field (addStringDeviceField i v m)) = af_modifyFilters (md_field m)"
  by (simp_all add: addStringDeviceField_def checkFieldName_def Let_def)

lemma recorded_set_device:
  assumes rec: "recorded a m" and upd: "\<And>x. dev_agree {f} x (upd x)"
  shows "recorded a (set_device k upd f m)"
proof (cases "k < length (a_devices (md_account m))")
  case False
  with rec show ?thesis by (simp add: set_device_def)
next
  case True
  let ?ds = "a_devices (md_account m)"
  define m1 where "m1 = m\<lparr>md_account := (md_account m)\<lparr>a_devices := ?ds[k := upd (?ds ! k)]\<rparr>\<rparr>"
  have idk: "d_id (upd x) = d_id x" for x using upd [of x] by (simp add: dev_agree_def)
  have sd: "set_device k upd f m = addStringDeviceField (d_id (?ds ! k)) f m1"
    using True by (simp add: set_device_def m1_def idk Let_def)
  have m1_field: "md_field m1 = md_field m" "md_miss m1 = md_miss m" by (simp_all add: m1_def)
  have ids: "map d_id (?ds[k := upd (?ds ! k)]) = map d_id ?ds"
    using True by (simp add: map_update idk) (metis list_update_id map_update nth_map)
  then have idset: "d_id ` set (?ds[k := upd (?ds ! k)]) = d_id ` set ?ds" by (metis set_map)
  have old: "created m (d_id e) \<or> (\<exists>d \<in> set (a_devices a). dev_agree (fields_of m (d_id e)) d e)" if "e \<in> set ?ds" for e
    using that rec by (simp add: recorded_def dev_recorded_def)
  have new: "created m (d_id e) \<or> (\<exists>d \<in> set (a_devices a). dev_agree (fields_of (set_device k upd f m) (d_id e)) d e)"
    if e: "e \<in> set (?ds[k := upd (?ds ! k)])" for e
  proof -
    have f: "fields_of (set_device k upd f m) j = (if j = d_id (?ds ! k) then insert f (fields_of m j) else fields_of m j)" for j
      by (simp add: sd addStringDeviceField_record) (simp add: fields_of_def m1_field)
    have mono: "dev_agree (insert f F) d e" if "dev_agree F d e" for F d
      using dev_agree_trans [OF that agree_refl(2), of "{f}"] by simp
    consider "e \<in> set ?ds" | "e = upd (?ds ! k)" using e set_update_subset_insert by fastforce
    then show ?thesis
    proof cases
      case 1
      with old mono show ?thesis by (fastforce simp: f)
    next
      case 2
      then have "created m (d_id e) \<or> (\<exists>d \<in> set (a_devices a). dev_agree (fields_of m (d_id e)) d (?ds ! k))"
        using old [of "?ds ! k"] True idk by simp
      then show ?thesis using dev_agree_trans [OF _ upd, of _ _ "?ds ! k"] 2 idk by (fastforce simp: f)
    qed
  qed
  have gone: "(\<exists>e \<in> set (?ds[k := upd (?ds ! k)]). d_id e = d_id d) \<or> erased m (d_id d)" if "d \<in> set (a_devices a)" for d
    using that rec idset unfolding recorded_def dev_recorded_def by (metis (no_types, lifting) image_iff)
  have acc: "acc_agree F a (md_account m1) = acc_agree F a (md_account m)" "filters_of (md_account m1) = filters_of (md_account m)" for F
    by (simp_all add: m1_def acc_agree_def filters_of_def)
  have ce: "created (set_device k upd f m) j = created m j" "erased (set_device k upd f m) j = erased m j" for j
    by (simp_all add: sd addStringDeviceField_record) (simp_all add: created_def erased_def m1_field)
  have devs: "a_devices (md_account (set_device k upd f m)) = ?ds[k := upd (?ds ! k)]"
    by (simp add: sd) (simp add: m1_def)
  have "dev_recorded (a_devices a) (set_device k upd f m)"
    unfolding dev_recorded_def devs ce using new gone by blast
  moreover have "recorded a m" by (rule rec)
  ultimately show ?thesis
    by (simp add: recorded_def sd m1_field acc)
qed

lemma recorded_set_filters:
  assumes "recorded a m" and "\<And>x. filters_agree {f} x (upd x)"
  shows "recorded a (set_filters upd f m)"
proof (cases "a_contactsFilters (md_account m)")
  case None
  with assms(1) show ?thesis by (simp add: set_filters_def)
next
  case (Some cf)
  let ?F = "set (ff_modifyFields (mutable_modifyfilters (md_field m)))"
  let ?m = "set_filters upd f m"
  have m: "?m = m\<lparr>md_account := (md_account m)\<lparr>a_contactsFilters := Some (upd cf)\<rparr>,
      md_field := (md_field m)\<lparr>af_modifyFilters := Some ((mutable_modifyfilters (md_field m))
        \<lparr>ff_modifyFields := ff_modifyFields (mutable_modifyfilters (md_field m)) @ [f]\<rparr>)\<rparr>\<rparr>"
    using Some by (simp add: set_filters_def addContactFilterField_def checkFieldName_def Let_def mutable_modifyfilters_def)
  have "ff_isClear (mutable_modifyfilters (md_field m)) \<or> filters_agree ?F (filters_of a) cf"
    using assms(1) Some
    by (auto simp: recorded_def filters_recorded_def mutable_modifyfilters_def filters_of_def split: option.splits)
  then have "ff_isClear (mutable_modifyfilters (md_field m)) \<or> filters_agree (insert f ?F) (filters_of a) (upd cf)"
    using filters_agree_trans [OF _ assms(2), of ?F _ cf] by auto
  moreover have "dev_recorded (a_devices a) ?m = dev_recorded (a_devices a) m"
    by (simp add: m dev_recorded_def created_def erased_def fields_of_def)
  moreover have "acc_agree F a (md_account ?m) = acc_agree F a (md_account m)" for F
    by (simp add: m acc_agree_def)
  ultimately show ?thesis using assms(1) by (simp add: recorded_def) (simp add: m filters_of_def filters_recorded_def)
qed

lemma recorded_get_filters: "recorded a m \<Longrightarrow> recorded a (getMutableContactsFilters m)"
proof -
  assume r: "recorded a m"
  have "filters_of (md_account (getMutableContactsFilters m)) = filters_of (md_account m)"
    by (simp add: getMutableContactsFilters_def filters_of_def split: option.splits)
  moreover have "acc_agree F a (md_account (getMutableContactsFilters m)) = acc_agree F a (md_account m)" for F
    by (simp add: getMutableContactsFilters_def acc_agree_def)
  moreover have "dev_recorded ds (getMutableContactsFilters m) = dev_recorded ds m" for ds
    by (simp add: getMutableContactsFilters_def dev_recorded_def created_def erased_def fields_of_def)
  ultimately show ?thesis using r by (simp add: recorded_def) (simp add: getMutableContactsFilters_def)
qed

lemma recorded_clear_filters: "recorded a m \<Longrightarrow> recorded a (clear_contactsfilters m)"
proof -
  assume r: "recorded a m"
  have "acc_agree F a (md_account (clear_contactsfilters m)) = acc_agree F a (md_account m)" for F
    by (simp add: clear_contactsfilters_def Let_def acc_agree_def)
  moreover have "dev_recorded ds (clear_contactsfilters m) = dev_recorded ds m" for ds
    by (simp add: clear_contactsfilters_def Let_def dev_recorded_def created_def erased_def fields_of_def)
  ultimately show ?thesis using r by (simp add: recorded_def) (simp add: clear_contactsfilters_def Let_def filters_recorded_def)
qed

text \<open>The operations that change the set of devices touch nothing else.\<close>

lemma recorded_devices:
  assumes "recorded a m" and "dev_recorded (a_devices a) m'"
    and "m' = m\<lparr>md_account := (md_account m)\<lparr>a_devices := ds\<rparr>, md_field := (md_field m)\<lparr>af_devices := fs\<rparr>\<rparr>"
  shows "recorded a m'"
proof -
  have "acc_agree F a (md_account m') = acc_agree F a (md_account m)" for F by (simp add: assms(3) acc_agree_def)
  moreover have "filters_of (md_account m') = filters_of (md_account m)" by (simp add: assms(3) filters_of_def)
  ultimately show ?thesis using assms(1,2) by (simp add: recorded_def) (simp add: assms(3))
qed

definition erase_entry :: "Device \<Rightarrow> DeviceField" where
  "erase_entry d = \<lparr>df_id = d_id d, df_modifyFields = [], df_isCreate = False, df_isErase = True\<rparr>"

lemma del_slaves_loop_eq:
  "del_slaves_loop mst ds fs =
    (filter (\<lambda>d. d_id d = mst) ds, fs @ map erase_entry (filter (\<lambda>d. d_id d \<noteq> mst) ds))"
  by (induction mst ds fs rule: del_slaves_loop.induct) (simp_all add: erase_entry_def)

lemma del_device_loop_eq:
  "del_device_loop mst i ds fs =
    (case find_index (\<lambda>d. d_id d \<noteq> mst \<and> d_id d = i) ds of
       None \<Rightarrow> (ds, fs) | Some k \<Rightarrow> (take k ds @ drop (Suc k) ds, fs @ [erase_entry (ds ! k)]))"
  by (induction mst i ds fs rule: del_device_loop.induct)
    (auto simp: erase_entry_def split: option.splits)

lemma erase_entries:
  "list_ex (\<lambda>df. df_id df = j \<and> df_isErase df) (map erase_entry gone) = (j \<in> d_id ` set gone)"
  by (induction gone) (auto simp: erase_entry_def)

lemma dev_recorded_erase:
  assumes "dev_recorded ods m"
    and m': "m' = m\<lparr>md_account := (md_account m)\<lparr>a_devices := ds\<rparr>,
      md_field := (md_field m)\<lparr>af_devices := af_devices (md_field m) @ map erase_entry gone\<rparr>\<rparr>"
    and sub: "set ds \<subseteq> set (a_devices (md_account m))"
    and cover: "set (a_devices (md_account m)) \<subseteq> set ds \<union> set gone"
  shows "dev_recorded ods m'"
proof -
  have e: "list_ex (\<lambda>df. df_id df = j \<and> df_isCreate df) (map erase_entry gone) = False"
    "entry_fields (map erase_entry gone) j = {}" for j
    by (induction gone) (auto simp: erase_entry_def)
  have rec: "created m' j = created m j" "erased m' j = (erased m j \<or> j \<in> d_id ` set gone)"
    "fields_of m' j = fields_of m j" for j
    using e [of j] by (simp_all add: m' created_def erased_def fields_of_def erase_entries)
  have devs: "a_devices (md_account m') = ds" by (simp add: m')
  have "created m (d_id e) \<or> (\<exists>d \<in> set ods. dev_agree (fields_of m (d_id e)) d e)" if "e \<in> set ds" for e
    using assms(1) that sub unfolding dev_recorded_def by (meson subsetD)
  moreover have "(\<exists>e \<in> set ds. d_id e = d_id d) \<or> erased m (d_id d) \<or> d_id d \<in> d_id ` set gone" if d: "d \<in> set ods" for d
  proof -
    consider e where "e \<in> set (a_devices (md_account m))" "d_id e = d_id d" | "erased m (d_id d)"
      using assms(1) d unfolding dev_recorded_def by meson
    then show ?thesis using cover by cases (metis UnE image_eqI subsetD, simp)
  qed
  ultimately show ?thesis unfolding dev_recorded_def devs rec by simp
qed

lemma recorded_erase:
  assumes "recorded a m"
    and "m' = m\<lparr>md_account := (md_account m)\<lparr>a_devices := ds\<rparr>,
      md_field := (md_field m)\<lparr>af_devices := af_devices (md_field m) @ map erase_entry gone\<rparr>\<rparr>"
    and "set ds \<subseteq> set (a_devices (md_account m))" and "set (a_devices (md_account m)) \<subseteq> set ds \<union> set gone"
  shows "recorded a m'"
  by (rule recorded_devices [OF assms(1) dev_recorded_erase [OF _ assms(2-4)] assms(2)])
    (use assms(1) in \<open>simp add: recorded_def\<close>)

lemma recorded_del_slaves: "recorded a m \<Longrightarrow> recorded a (del_slave_devices mst m)"
  by (rule recorded_erase) (auto simp: del_slave_devices_def del_slaves_loop_eq)

lemma recorded_del_device:
  assumes "recorded a m"
  shows "recorded a (del_device mst i m)"
proof (cases "find_index (\<lambda>d. d_id d \<noteq> mst \<and> d_id d = i) (a_devices (md_account m))")
  case None
  with assms show ?thesis by (simp add: del_device_def del_device_loop_eq)
next
  case (Some k)
  then obtain ys x zs where s: "a_devices (md_account m) = ys @ x # zs" "k = length ys" by (rule find_index_split)
  with Some have "del_device_loop mst i (a_devices (md_account m)) fs = (ys @ zs, fs @ [erase_entry x])" for fs
    by (simp add: del_device_loop_eq)
  then have "del_device mst i m = m\<lparr>md_account := (md_account m)\<lparr>a_devices := ys @ zs\<rparr>,
      md_field := (md_field m)\<lparr>af_devices := af_devices (md_field m) @ map erase_entry [x]\<rparr>\<rparr>"
    by (simp add: del_device_def)
  then show ?thesis by (rule recorded_erase [OF assms]) (auto simp: s)
qed

lemma create_record:
  shows "fields_of (snd (createMutableDevice i m)) j = fields_of m j \<or> j = i"
    and "created (snd (createMutableDevice i m)) j = (j = i \<or> created m j)"
    and "erased (snd (createMutableDevice i m)) j = erased m j"
proof -
  let ?m = "snd (createMutableDevice i m)"
  have dev: "(\<exists>ys x zs. af_devices (md_field m) = ys @ x # zs \<and> df_id x = i
     \<and> af_devices (md_field ?m) = ys @ x\<lparr>df_modifyFields := [], df_isCreate := True\<rparr> # zs)
   \<or> af_devices (md_field ?m) = af_devices (md_field m) @
        [\<lparr>df_id = i, df_modifyFields = [], df_isCreate = True, df_isErase = False\<rparr>]"
  proof (cases "find_index (\<lambda>d. df_id d = i) (af_devices (md_field m))")
    case None
    then show ?thesis by (simp add: createMutableDevice_def create_device_field_eq split_beta Let_def)
  next
    case (Some k)
    then obtain ys x zs where s: "af_devices (md_field m) = ys @ x # zs" "k = length ys" "df_id x = i"
      by (rule find_index_split)
    with Some have "af_devices (md_field ?m) = ys @ x\<lparr>df_modifyFields := [], df_isCreate := True\<rparr> # zs"
      by (simp add: createMutableDevice_def create_device_field_eq split_beta Let_def)
    with s show ?thesis by blast
  qed
  then show "fields_of ?m j = fields_of m j \<or> j = i"
    by (elim disjE exE conjE) (simp_all add: fields_of_def)
  from dev show "created ?m j = (j = i \<or> created m j)"
    by (elim disjE exE conjE) (auto simp: created_def)
  from dev show "erased ?m j = erased m j"
    by (elim disjE exE conjE) (simp_all add: erased_def)
qed

lemma create_devices:
  shows "e \<in> set (a_devices (md_account (snd (createMutableDevice i m)))) \<Longrightarrow>
      d_id e = i \<or> e \<in> set (a_devices (md_account m))"
    and "e \<in> set (a_devices (md_account m)) \<Longrightarrow>
      \<exists>e' \<in> set (a_devices (md_account (snd (createMutableDevice i m)))). d_id e' = d_id e"
proof -
  let ?ds = "a_devices (md_account m)" and ?m = "snd (createMutableDevice i m)"
  have devs: "a_devices (md_account ?m) =
      (case find_index (\<lambda>d. d_id d = i) ?ds of
         Some k \<Rightarrow> ?ds[k := Device_new\<lparr>d_id := i\<rparr>] | None \<Rightarrow> ?ds @ [Device_new\<lparr>d_id := i\<rparr>])"
    by (simp add: createMutableDevice_def split_beta Let_def split: option.splits)
  show "d_id e = i \<or> e \<in> set ?ds" if e: "e \<in> set (a_devices (md_account ?m))"
    using e set_update_subset_insert unfolding devs by (fastforce split: option.splits)
  show "\<exists>e' \<in> set (a_devices (md_account ?m)). d_id e' = d_id e" if e: "e \<in> set ?ds"
  proof (cases "find_index (\<lambda>d. d_id d = i) ?ds")
    case None
    with e show ?thesis by (auto simp: devs)
  next
    case (Some k)
    then obtain ys x zs where s: "?ds = ys @ x # zs" "k = length ys" "d_id x = i" by (rule find_index_split)
    with Some e show ?thesis by (auto simp: devs)
  qed
qed

lemma recorded_create:
  assumes "recorded a m"
  shows "recorded a (snd (createMutableDevice i m))"
proof -
  let ?m = "snd (createMutableDevice i m)"
  have r: "dev_recorded (a_devices a) m" using assms by (simp add: recorded_def)
  have "created ?m (d_id e) \<or> (\<exists>d \<in> set (a_devices a). dev_agree (fields_of ?m (d_id e)) d e)"
    if "e \<in> set (a_devices (md_account ?m))" for e
  proof (cases "d_id e = i")
    case True
    then show ?thesis by (simp add: create_record)
  next
    case False
    then have "e \<in> set (a_devices (md_account m))" using create_devices(1) that by blast
    moreover have "fields_of ?m (d_id e) = fields_of m (d_id e)" using create_record(1) False by blast
    ultimately show ?thesis using r by (auto simp: dev_recorded_def create_record)
  qed
  moreover have "(\<exists>e \<in> set (a_devices (md_account ?m)). d_id e = d_id d) \<or> erased ?m (d_id d)"
    if "d \<in> set (a_devices a)" for d
  proof -
    have "(\<exists>e \<in> set (a_devices (md_account m)). d_id e = d_id d) \<or> erased m (d_id d)"
      using that r by (simp add: dev_recorded_def)
    then show ?thesis using create_devices(2) [of _ m i] by (auto simp: create_record) metis
  qed
  ultimately have "dev_recorded (a_devices a) ?m" by (simp add: dev_recorded_def)
  then show ?thesis
    by (rule recorded_devices [OF assms])
      (simp add: createMutableDevice_def split_beta Let_def)
qed

lemmas account_setters = set_identitykey_def set_state_def set_name_def set_avater_def set_nickname_def
  set_slaveDeviceNum_def set_ldavatar_def set_hdavatar_def set_profilekeys_def mutable_privacy_def

lemmas device_setters = device_mutable_signedprekey_def device_mutable_clientversion_def device_set_gcmid_def
  device_set_umengid_def device_set_apntype_def device_set_apnid_def device_set_voipapnid_def
  device_set_fetchesmessages_def device_set_authtoken_def device_set_salt_def device_set_features_def
  device_set_publicKey_def device_set_accountSignature_def device_set_signalingkey_def
  device_set_registrationid_def device_set_version_def device_set_name_def device_set_supportvoice_def
  device_set_supportvideo_def device_set_lastseentime_def device_set_createtime_def device_set_useragent_def
  device_set_state_def

lemmas filters_setters = filters_set_algo_def filters_set_content_def filters_set_version_def

lemma edits_recorded: "edits mst a m \<Longrightarrow> recorded a m"
proof (induction rule: edits.induct)
  case (edit_new mst a)
  show ?case by (rule recorded_new)
next
  case (edit_get_filters mst a m)
  then show ?case by (intro recorded_get_filters)
next
  case (edit_clear_filters mst a m)
  then show ?case by (intro recorded_clear_filters)
next
  case (edit_create mst a m i)
  then show ?case by (intro recorded_create)
next
  case (edit_del mst a m i)
  then show ?case by (intro recorded_del_device)
next
  case (edit_del_slaves mst a m)
  then show ?case by (intro recorded_del_slaves)
qed (unfold account_setters device_setters filters_setters,
  (rule recorded_set_account recorded_set_device recorded_set_filters;
    (assumption | simp add: acc_agree_def dev_agree_def filters_agree_def))+)

section \<open>Properties\<close>

text \<open>C24. \<open>ModifyAccount\<close> records every change: after any sequence of its operations on an
  account, each field of the account whose value differs from the original is in the record of
  modified fields; the contacts filters differ only in recorded fields or are marked cleared; each
  device of the result is marked created or differs from an original device with its id only in
  the fields recorded for that id; and each original device is still there or marked
  erased.\<close>

theorem modify_records_all:
  assumes "edits master a m"
  shows "recorded a m"
  using assms by (rule edits_recorded)

definition demo_account :: Account where
  "demo_account =
     \<lparr>a_uid = ''u'', a_publicKey = [], a_identityKey = [], a_state = 0, a_name = ''n'', a_avater = [], a_nickname = [],
      a_slaveDeviceNum = 1, a_ldAvatar = [], a_hdAvatar = [], a_profileKeys = [], a_privacy = None,
      a_contactsFilters = None, a_devices = [Device_new\<lparr>d_id := 1\<rparr>, Device_new\<lparr>d_id := 2\<rparr>], a_authDeviceId = 1\<rparr>"

theorem modify_records_all_witness:
  "recorded demo_account
     (device_set_apnid 0 ''t'' (del_slave_devices 1 (set_name ''x'' (ModifyAccount_new demo_account))))"
  by (rule modify_records_all [where master = 1]) (intro edits.intros)

lemma dev_agree_empty: "dev_agree {} d e \<longleftrightarrow> d = e"
  by (auto simp: dev_agree_def)

text \<open>C25. An update is dropped only when there is nothing to write: if after any sequence of operations
  \<open>updateAccount\<close> does not ask the database, then no field of the account changed, the filters
  read the same, every device is an original one, unchanged, and no device was lost.\<close>

theorem update_drops_nothing:
  assumes "edits master a m" and "snd (updateAccount dao m) = None"
  shows "acc_agree {} a (md_account m) \<and> filters_of (md_account m) = filters_of a
    \<and> set (a_devices (md_account m)) \<subseteq> set (a_devices a)
    \<and> d_id ` set (a_devices (md_account m)) = d_id ` set (a_devices a)"
proof -
  have r: "recorded a m" using assms(1) by (rule edits_recorded)
  then have empty: "af_modifyFields (md_field m) = []" "af_modifyFilters (md_field m) = None" "af_devices (md_field m) = []"
    using assms(2) by (auto simp: updateAccount_def isModifyAccountFieldOK_def recorded_def split: if_splits)
  then have none: "fields_of m i = {}" "\<not> created m i" "\<not> erased m i" for i
    by (simp_all add: fields_of_def created_def erased_def)
  have "\<forall>e \<in> set (a_devices (md_account m)). e \<in> set (a_devices a)"
    and "\<forall>d \<in> set (a_devices a). \<exists>e \<in> set (a_devices (md_account m)). d_id e = d_id d"
    using r none by (auto simp: recorded_def dev_recorded_def dev_agree_empty)
  with r empty show ?thesis by (auto simp: recorded_def filters_recorded_def) (metis image_iff)
qed

theorem update_drops_nothing_witness:
  "acc_agree {} demo_account (md_account (getMutableContactsFilters (ModifyAccount_new demo_account)))"
proof -
  have "edits 1 demo_account (getMutableContactsFilters (ModifyAccount_new demo_account))"
    by (intro edits.intros)
  moreover have "snd (updateAccount (\<lambda>_ _. Dao_Success) (getMutableContactsFilters (ModifyAccount_new demo_account))) = None"
    by (simp add: updateAccount_def isModifyAccountFieldOK_def getMutableContactsFilters_def ModifyAccount_new_def)
  ultimately show ?thesis using update_drops_nothing by blast
qed

text \<open>Deleting the slave devices keeps exactly the master's and records each deletion.\<close>

lemma del_slaves_keeps_master:
  "a_devices (md_account (del_slave_devices master m)) = filter (\<lambda>d. d_id d = master) (a_devices (md_account m))
    \<and> (\<forall>d \<in> set (a_devices (md_account m)). d_id d \<noteq> master \<longrightarrow> erased (del_slave_devices master m) (d_id d))"
  by (auto simp: del_slave_devices_def del_slaves_loop_eq erased_def erase_entries)

theorem del_slaves_keeps_master_witness:
  "a_devices (md_account (del_slave_devices 1 (ModifyAccount_new demo_account))) = [Device_new\<lparr>d_id := 1\<rparr>]"
  using del_slaves_keeps_master [of 1 "ModifyAccount_new demo_account"]
  by (simp add: ModifyAccount_new_def demo_account_def)

text \<open>Creating a device again after deleting it leaves a contradictory record: the entry of the
  device is marked both erased and created, so the two steps cannot be told from their
  reverse.\<close>

lemma recreate_marks_both:
  assumes "getDevice a i \<noteq> None" and "i \<noteq> master"
  shows "\<exists>df \<in> set (af_devices (md_field (snd (createMutableDevice i (del_device master i (ModifyAccount_new a)))))).
    df_id df = i \<and> df_isCreate df \<and> df_isErase df"
proof -
  have "find_index (\<lambda>d. d_id d \<noteq> master \<and> d_id d = i) (a_devices a) \<noteq> None"
    using assms by (auto simp: find_index_None getDevice_def find_None_iff)
  then obtain k where k: "find_index (\<lambda>d. d_id d \<noteq> master \<and> d_id d = i) (a_devices a) = Some k" by blast
  then have "d_id (a_devices a ! k) = i" using find_index_Some by fastforce
  with k have "af_devices (md_field (del_device master i (ModifyAccount_new a))) =
      [\<lparr>df_id = i, df_modifyFields = [], df_isCreate = False, df_isErase = True\<rparr>]"
    by (simp add: del_device_def del_device_loop_eq ModifyAccount_new_def erase_entry_def)
  then show ?thesis by (simp add: createMutableDevice_def split_beta Let_def)
qed

theorem recreate_marks_both_witness:
  "\<exists>df \<in> set (af_devices (md_field (snd (createMutableDevice 2 (del_device 1 2 (ModifyAccount_new demo_account)))))).
    df_id df = 2 \<and> df_isCreate df \<and> df_isErase df"
  by (rule recreate_marks_both) (simp_all add: demo_account_def getDevice_def Device_new_def)

section \<open>Activity\<close>

lemma last_seen_loop_Max: "last_seen_loop ds x = Max (insert x (d_lastSeenTime ` set ds))"
proof (induction ds arbitrary: x)
  case Nil
  show ?case by (simp add: last_seen_loop_def)
next
  case (Cons d ds)
  have "last_seen_loop (d # ds) x = last_seen_loop ds (max x (d_lastSeenTime d))"
    by (auto simp: last_seen_loop_def max_def)
  also have "\<dots> = Max (insert (max x (d_lastSeenTime d)) (d_lastSeenTime ` set ds))" by (rule Cons.IH)
  also have "\<dots> = Max (insert x (d_lastSeenTime ` set (d # ds)))"
    by (cases "ds = []") (simp_all add: max.assoc)
  finally show ?case .
qed

lemma sint_uint_nonneg: "0 \<le> sint w \<Longrightarrow> sint w = uint (w :: u64)"
proof -
  assume "0 \<le> sint w"
  moreover have "sint w < 2 ^ 64" using sint_lt [of w] by simp
  ultimately show ?thesis by (simp add: uint_sint take_bit_int_eq_self)
qed

lemma uint_Max: "finite A \<Longrightarrow> A \<noteq> {} \<Longrightarrow> t < uint (Max A) \<longleftrightarrow> (\<exists>w \<in> A. t < uint (w :: u64))"
  by (metis Max_ge Max_in order_less_le_trans word_le_def)

lemma last_seen_gt:
  assumes "\<forall>d \<in> set ds. 0 \<le> sint (d_lastSeenTime d)" and "ds \<noteq> []"
  shows "t < sint (last_seen_loop ds 0) \<longleftrightarrow> (\<exists>d \<in> set ds. t < sint (d_lastSeenTime d))"
proof -
  let ?A = "insert 0 (d_lastSeenTime ` set ds)"
  have pos: "0 \<le> sint w" if "w \<in> ?A" for w using that assms(1) by auto
  have "Max ?A \<in> ?A" by (rule Max_in) auto
  then have "t < sint (last_seen_loop ds 0) \<longleftrightarrow> t < uint (Max ?A)"
    using pos by (simp add: last_seen_loop_Max sint_uint_nonneg)
  also have "\<dots> \<longleftrightarrow> (\<exists>w \<in> ?A. t < uint w)" by (rule uint_Max) auto
  also have "\<dots> \<longleftrightarrow> (\<exists>w \<in> ?A. t < sint w)" using pos sint_uint_nonneg by auto
  also have "\<dots> \<longleftrightarrow> (\<exists>d \<in> set ds. t < sint (d_lastSeenTime d))"
    using assms by (cases ds) (auto intro: order_less_le_trans)
  finally show ?thesis .
qed

text \<open>When an account is active: for times below \<open>2 ^ 63\<close>, it is in the normal state, its
  master device has a signed prekey and a channel (fetches messages itself or has a push token),
  and some device, not necessarily the master's, was seen within 365 days.\<close>

lemma account_active_iff:
  assumes "\<forall>d \<in> set (a_devices a). 0 \<le> sint (d_lastSeenTime d)"
  shows "isAccountActive master st_normal now a \<longleftrightarrow>
    a_state a = st_normal
    \<and> (\<exists>d. getDevice a master = Some d \<and> d_signedPreKey d \<noteq> None
         \<and> (d_fetchesMessages d \<or> d_apnId d \<noteq> [] \<or> d_umengId d \<noteq> [] \<or> d_gcmId d \<noteq> []))
    \<and> (\<exists>d \<in> set (a_devices a). now - 31536000000 < sint (d_lastSeenTime d))"
proof (cases "getDevice a master")
  case None
  then show ?thesis by (simp add: isAccountActive_def)
next
  case (Some m)
  then have "d_id m = master" and "a_devices a \<noteq> []"
    by (auto simp: getDevice_def find_Some_iff)
  with Some last_seen_gt [OF assms] show ?thesis
    by (auto simp: isAccountActive_def isDeviceActive_def getAccountLastSeen_def kAccountExpiredTimeInMilli_def)
qed

theorem account_active_iff_witness:
  "\<not> isAccountActive 1 0 1000 demo_account"
proof -
  have "\<forall>d \<in> set (a_devices demo_account). 0 \<le> sint (d_lastSeenTime d)"
    by (simp add: demo_account_def Device_new_def)
  from account_active_iff [OF this, of 1 0 1000] show ?thesis
    by (simp add: demo_account_def Device_new_def getDevice_def)
qed

end
