(* ===== verification/Authenticator.thy ===== *)
theory Authenticator
  imports Accounts Auth_Header
begin

text \<open>
  \<open>src/auth/authenticator.cpp\<close>: checking the credentials of a device. The digest SHA-1, the
  random salt, the current day and the answers of the database are parameters, as are the
  protocol's constants.
\<close>

section \<open>Definitions\<close>

record Credential =
  cr_token :: string
  cr_salt :: string

datatype AuthType = AUTHTYPE_NO_AUTH | AUTHTYPE_ALLOW_ALL | AUTHTYPE_ALLOW_MASTER | AUTHTYPE_ALLOW_SLAVE

datatype AuthResult =
    AUTHRESULT_SUCESS
  | AUTHRESULT_ACCOUNT_NOT_FOUND
  | AUTHRESULT_ACCOUNT_DELETED
  | AUTHRESULT_DEVICE_NOT_FOUND
  | AUTHRESULT_TOKEN_VERIFY_FAILED
  | AUTHRESULT_DEVICE_ABNORMAL
  | AUTHRESULT_AUTH_HEADER_ERROR
  | AUTHRESULT_REQUESTID_NOT_FOUND
  | AUTHRESULT_DEVICE_NOT_ALLOWED
  | AUTHRESULT_UNKNOWN_ERROR

definition Authenticator_verify :: "(string \<Rightarrow> string) \<Rightarrow> Credential \<Rightarrow> string \<Rightarrow> bool" where
  "Authenticator_verify sha1 credential userToken =
     (HexEncoder_encode (sha1 (cr_salt credential @ userToken)) True '''' = cr_token credential)"

definition getCredential :: "(string \<Rightarrow> string) \<Rightarrow> u32 \<Rightarrow> string \<Rightarrow> Credential" where
  "getCredential sha1 randNum userToken =
     (let salt = to_dec (unat randNum)
      in \<lparr>cr_token = HexEncoder_encode (sha1 (salt @ userToken)) True '''', cr_salt = salt\<rparr>)"

definition client_differs :: "ClientVersion \<Rightarrow> ClientVersion \<Rightarrow> bool" where
  "client_differs r l \<longleftrightarrow> cv_osType r \<noteq> cv_osType l \<or> cv_osVersion r \<noteq> cv_osVersion l
     \<or> cv_phoneModel r \<noteq> cv_phoneModel l \<or> cv_bcmVersion r \<noteq> cv_bcmVersion l
     \<or> cv_bcmBuildCode r \<noteq> cv_bcmBuildCode l \<or> cv_areaCode r \<noteq> cv_areaCode l \<or> cv_langCode r \<noteq> cv_langCode l"

definition ClientVersion_new :: ClientVersion where
  "ClientVersion_new = \<lparr>cv_osType = 0, cv_osVersion = [], cv_phoneModel = [], cv_bcmVersion = [],
     cv_bcmBuildCode = 0, cv_areaCode = 0, cv_langCode = []\<rparr>"

text \<open>The result, the account afterwards and what was written; \<open>None\<close> when the account has no
  authenticated device, which the code dereferences without a check.\<close>

definition checkAndUpdateDevice ::
    "int \<Rightarrow> (Account \<Rightarrow> DeviceField \<Rightarrow> dao_code) \<Rightarrow> Account \<Rightarrow> ClientVersion option
      \<Rightarrow> (bool \<times> Account \<times> (Account \<times> DeviceField) option) option" where
  "checkAndUpdateDevice today dao account client =
     (case getAuthDevice account of
        None \<Rightarrow> None
      | Some device \<Rightarrow>
          (let md0 = ModifyAccount_new account
           in case getMutableDevice (d_id device) md0 of
                None \<Rightarrow> None
              | Some mDev \<Rightarrow>
                  (let b1 = (sint (d_lastSeenTime device) \<noteq> today);
                       md1 = (if b1 then device_set_lastseentime mDev (word_of_int today) md0 else md0);
                       cv = (case d_clientVersion device of Some c \<Rightarrow> c | None \<Rightarrow> ClientVersion_new);
                       (b2, md2) = (case client of
                                      Some c \<Rightarrow> if client_differs c cv then (True, device_mutable_clientversion mDev c md1) else (False, md1)
                                    | None \<Rightarrow> (False, md1))
                   in if \<not> (b1 \<or> b2) then Some (True, md_account md2, None)
                      else let (r, w) = updateDevice dao md2 (a_authDeviceId (md_account md2))
                           in Some (r, md_account md2, w))))"

definition Authenticator_auth ::
    "(string \<Rightarrow> string) \<Rightarrow> u32 \<Rightarrow> nat \<Rightarrow> nat \<Rightarrow> (string \<Rightarrow> dao_code \<times> Account option) \<Rightarrow> int
      \<Rightarrow> (Account \<Rightarrow> DeviceField \<Rightarrow> dao_code) \<Rightarrow> AuthorizationHeader \<Rightarrow> ClientVersion option \<Rightarrow> Account \<Rightarrow> AuthType
      \<Rightarrow> (AuthResult \<times> Account \<times> (Account \<times> DeviceField) option) option" where
  "Authenticator_auth sha1 master st_deleted st_normal dao_get today dao authHeader client account0 type =
     (if type = AUTHTYPE_NO_AUTH then Some (AUTHRESULT_SUCESS, account0, None)
      else
        let deviceId = word_of_int (ah_deviceId authHeader)
        in if type = AUTHTYPE_ALLOW_MASTER \<and> deviceId \<noteq> master then Some (AUTHRESULT_DEVICE_NOT_ALLOWED, account0, None)
           else if type = AUTHTYPE_ALLOW_SLAVE \<and> deviceId = master then Some (AUTHRESULT_DEVICE_NOT_ALLOWED, account0, None)
           else
             let (res, loaded) = AccountsManager_get dao_get (ah_uid authHeader);
                 account = (case loaded of Some a \<Rightarrow> a | None \<Rightarrow> account0)
             in if res = Dao_Success
                then if a_state account = st_deleted then Some (AUTHRESULT_ACCOUNT_DELETED, account, None)
                     else case getDevice account deviceId of
                            None \<Rightarrow> Some (AUTHRESULT_DEVICE_NOT_FOUND, account, None)
                          | Some device \<Rightarrow>
                              if d_state device \<noteq> st_normal then Some (AUTHRESULT_DEVICE_ABNORMAL, account, None)
                              else let account1 = account\<lparr>a_authDeviceId := deviceId\<rparr>
                                   in if Authenticator_verify sha1
                                           \<lparr>cr_token = d_authToken device, cr_salt = d_salt device\<rparr> (ah_token authHeader)
                                      then map_option (\<lambda>(ok, a, w). (if ok then AUTHRESULT_SUCESS else AUTHRESULT_UNKNOWN_ERROR, a, w))
                                             (checkAndUpdateDevice today dao account1 client)
                                      else Some (AUTHRESULT_TOKEN_VERIFY_FAILED, account1, None)
                else if res = Dao_NoSuchData then Some (AUTHRESULT_ACCOUNT_NOT_FOUND, account, None)
                else Some (AUTHRESULT_UNKNOWN_ERROR, account, None))"

definition refreshAuthenticated :: "(string \<Rightarrow> dao_code \<times> Account option) \<Rightarrow> Account \<Rightarrow> Account" where
  "refreshAuthenticated dao_get account =
     (let (res, newOne) = AccountsManager_get dao_get (a_uid account)
      in if res = Dao_Success
         then (case newOne of Some a \<Rightarrow> a\<lparr>a_authDeviceId := a_authDeviceId account\<rparr> | None \<Rightarrow> account)
         else account)"

section \<open>Lemmas\<close>

lemma find_find_index: "List.find P xs = map_option (\<lambda>k. xs ! k) (find_index P xs)"
  by (induction xs) (auto simp: option.map_comp comp_def)

lemma getMutable_of_getDevice:
  "getDevice a i = Some d \<Longrightarrow> \<exists>k. getMutableDevice i (ModifyAccount_new a) = Some k \<and> k < length (a_devices a) \<and> a_devices a ! k = d"
  using find_index_Some by (fastforce simp: getDevice_def getMutableDevice_def ModifyAccount_new_def find_find_index)

lemma set_device_devices:
  "a_devices (md_account (set_device k upd f m)) =
    (let ds = a_devices (md_account m) in if k < length ds then ds[k := upd (ds ! k)] else ds)"
  by (simp add: set_device_def Let_def)

text \<open>A record with one entry, of the device \<open>i\<close>, that lists only fields of \<open>F\<close>.\<close>

definition single_entry :: "u32 \<Rightarrow> string set \<Rightarrow> ModifyAccount \<Rightarrow> bool" where
  "single_entry i F m \<longleftrightarrow> (\<exists>df. af_devices (md_field m) = [df] \<and> df_id df = i \<and> \<not> df_isCreate df \<and> \<not> df_isErase df
     \<and> set (df_modifyFields df) \<subseteq> F)"

lemma set_device_single:
  assumes "k < length (a_devices (md_account m))" and "\<And>x. d_id (upd x) = d_id x"
    and "i = d_id (a_devices (md_account m) ! k)"
    and "af_devices (md_field m) = [] \<or> single_entry i F m"
  shows "single_entry i (insert f F) (set_device k upd f m)"
  using assms
  by (auto simp: single_entry_def set_device_def Let_def addStringDeviceField_def checkFieldName_def)

lemma set_device_frame [simp, frame]:
  "a_authDeviceId (md_account (set_device k upd f m)) = a_authDeviceId (md_account m)"
  "md_miss (set_device k upd f m) = md_miss m"
  by (simp_all add: set_device_def Let_def)

text \<open>What the update of an authenticated device writes.\<close>

lemma check_update:
  assumes "getAuthDevice account = Some device"
  shows "\<exists>ok a w. checkAndUpdateDevice today dao account client = Some (ok, a, w)
    \<and> (w = None \<longrightarrow> ok)
    \<and> (w = None \<longleftrightarrow> sint (d_lastSeenTime device) = today
         \<and> (\<forall>c. client = Some c \<longrightarrow>
              \<not> client_differs c (case d_clientVersion device of Some v \<Rightarrow> v | None \<Rightarrow> ClientVersion_new)))
    \<and> (\<forall>acc df. w = Some (acc, df) \<longrightarrow> df_id df = d_id device
         \<and> set (df_modifyFields df) \<subseteq> {''clientVersion'', ''lastSeenTime''}
         \<and> \<not> df_isCreate df \<and> \<not> df_isErase df \<and> ok = (dao acc df = Dao_Success))"
proof -
  let ?m0 = "ModifyAccount_new account"
  let ?cv = "case d_clientVersion device of Some v \<Rightarrow> v | None \<Rightarrow> ClientVersion_new"
  have i: "d_id device = a_authDeviceId account"
    using assms by (auto simp: getAuthDevice_def find_Some_iff)
  have "getDevice account (d_id device) = Some device" using assms i by (simp add: getDevice_def getAuthDevice_def)
  then obtain k where k: "getMutableDevice (d_id device) ?m0 = Some k" "k < length (a_devices account)" "a_devices account ! k = device"
    using getMutable_of_getDevice by blast
  let ?seen = "device_set_lastseentime k (word_of_int today)"
  have m0: "a_devices (md_account ?m0) = a_devices account" "af_devices (md_field ?m0) = []" "fields_of ?m0 j = {}"
    "a_authDeviceId (md_account ?m0) = a_authDeviceId account" "md_miss ?m0 = []" for j
    by (simp_all add: ModifyAccount_new_def fields_of_def)
  define b1 where "b1 = (sint (d_lastSeenTime device) \<noteq> today)"
  define b2 where "b2 = (\<exists>c. client = Some c \<and> client_differs c ?cv)"
  define m1 where "m1 = (if b1 then ?seen ?m0 else ?m0)"
  define m2 where "m2 = (if b2 then device_mutable_clientversion k (the client) m1 else m1)"
  have m1: "length (a_devices (md_account m1)) = length (a_devices account)" "d_id (a_devices (md_account m1) ! k) = d_id device"
    "a_authDeviceId (md_account m1) = a_authDeviceId account" "md_miss m1 = []"
    using k m0 by (simp_all add: m1_def device_set_lastseentime_def set_device_devices Let_def)
  have e1: "b1 \<Longrightarrow> single_entry (d_id device) {''lastSeenTime''} m1"
    unfolding m1_def device_set_lastseentime_def
    by (simp, rule set_device_single) (use k m0 in simp_all)
  have e1': "af_devices (md_field m1) = [] \<or> single_entry (d_id device) {''lastSeenTime''} m1"
    using e1 m0 by (cases b1) (simp_all add: m1_def)
  have "b2 \<Longrightarrow> single_entry (d_id device) {''clientVersion'', ''lastSeenTime''} m2"
    unfolding m2_def device_mutable_clientversion_def
    by (simp, rule set_device_single) (use k m1 e1' in simp_all)
  moreover have "b1 \<Longrightarrow> \<not> b2 \<Longrightarrow> single_entry (d_id device) {''clientVersion'', ''lastSeenTime''} m2"
    using e1 by (auto simp: m2_def single_entry_def)
  ultimately have e2: "b1 \<or> b2 \<Longrightarrow> single_entry (d_id device) {''clientVersion'', ''lastSeenTime''} m2"
    by blast
  have m2: "a_authDeviceId (md_account m2) = d_id device" "md_miss m2 = []"
    using m1 i by (simp_all add: m2_def device_mutable_clientversion_def)
  have eq: "checkAndUpdateDevice today dao account client =
      (if \<not> (b1 \<or> b2) then Some (True, md_account m2, None)
       else let (r, w) = updateDevice dao m2 (a_authDeviceId (md_account m2)) in Some (r, md_account m2, w))"
    using assms k(1) by (auto simp: checkAndUpdateDevice_def Let_def b1_def b2_def m1_def m2_def split: option.splits)
  show ?thesis
  proof (cases "b1 \<or> b2")
    case False
    with eq show ?thesis by (auto simp: b1_def b2_def)
  next
    case True
    then obtain df where df: "af_devices (md_field m2) = [df]" "df_id df = d_id device" "\<not> df_isCreate df"
      "\<not> df_isErase df" "set (df_modifyFields df) \<subseteq> {''clientVersion'', ''lastSeenTime''}"
      using e2 unfolding single_entry_def by blast
    then have "updateDevice dao m2 (a_authDeviceId (md_account m2)) = (dao (md_account m2) df = Dao_Success, Some (md_account m2, df))"
      by (simp add: updateDevice_def isModifyAccountFieldOK_def m2)
    with True eq df show ?thesis by (auto simp: b1_def b2_def)
  qed
qed

section \<open>Properties\<close>

text \<open>A credential made for a token verifies that token, whatever the random salt.\<close>

lemma credential_verifies:
  "Authenticator_verify sha1 (getCredential sha1 randNum token) token"
  by (simp add: Authenticator_verify_def getCredential_def Let_def)



text \<open>Authentication writes at most once a day per client version, and only its two fields: for
  an account with an authenticated device, nothing is written exactly when the device was already
  seen today and the client version, if given, is the stored one; otherwise one record is written
  for that device, which lists at most the last-seen time and the client version and neither
  creates nor erases it.\<close>

lemma auth_update_minimal:
  assumes "getAuthDevice account = Some device"
  shows "\<exists>ok a w. checkAndUpdateDevice today dao account client = Some (ok, a, w)
    \<and> (w = None \<longleftrightarrow> sint (d_lastSeenTime device) = today
         \<and> (\<forall>c. client = Some c \<longrightarrow>
              \<not> client_differs c (case d_clientVersion device of Some v \<Rightarrow> v | None \<Rightarrow> ClientVersion_new)))
    \<and> (\<forall>acc df. w = Some (acc, df) \<longrightarrow> df_id df = d_id device
         \<and> set (df_modifyFields df) \<subseteq> {''clientVersion'', ''lastSeenTime''} \<and> \<not> df_isCreate df \<and> \<not> df_isErase df)"
  using check_update [OF assms, of today dao client] by blast

theorem auth_update_minimal_witness:
  "\<exists>ok a w. checkAndUpdateDevice 7 (\<lambda>_ _. Dao_Success) demo_account None = Some (ok, a, w) \<and> w \<noteq> None"
proof -
  have "getAuthDevice demo_account = Some (Device_new\<lparr>d_id := 1\<rparr>)"
    by (simp add: demo_account_def getAuthDevice_def)
  from auth_update_minimal [OF this, of 7 "\<lambda>_ _. Dao_Success" None] show ?thesis
    by (auto simp: Device_new_def)
qed

end
