(* ===== verification/Http_Router.thy ===== *)
theory Http_Router
  imports Authenticator Limiter_Executor
begin

text \<open>
  \<open>src/http/http_route.cpp\<close> and \<open>src/http/http_router.cpp\<close>: routes with fixed, parameter
  and splat segments, the choice of the route for a request, the parsing of the query, and the
  invocation of a route's handler. The routes are a map from names (verb and path) to routes,
  searched from the greatest name down. Handlers, serializers and filters are functions; an
  exception of \<open>UrlEncoder::decode\<close> or of a handler is an error value.
\<close>

section \<open>Segments\<close>

datatype SegmentType = SegNone | SegFixed | SegParameter | SegSplat

record Segment =
  seg_type :: SegmentType
  seg_raw :: string

definition Segment_new :: "string \<Rightarrow> Segment" where
  "Segment_new raw =
     \<lparr>seg_type =
        (if raw \<noteq> [] \<and> hd raw = CHR '':'' then SegParameter
         else if raw \<noteq> [] \<and> hd raw = CHR ''*'' then (if length raw > 1 then SegNone else SegSplat)
         else SegFixed),
      seg_raw = raw\<rparr>"

definition Segment_match :: "Segment \<Rightarrow> string \<Rightarrow> bool" where
  "Segment_match seg raw =
     (if seg_type seg = SegNone then False
      else if seg_type seg = SegFixed then raw = seg_raw seg
      else True)"

definition fromPath :: "string \<Rightarrow> Segment list" where
  "fromPath path = map Segment_new (filter (\<lambda>p. p \<noteq> []) (getline_all (CHR ''/'') path))"

section \<open>HttpRoute\<close>

record HttpRoute =
  rt_verb :: verb
  rt_path :: string
  rt_authType :: AuthType
  rt_hasHandler :: bool
  rt_segments :: "Segment list"

definition HttpRoute_new :: "verb \<Rightarrow> string \<Rightarrow> AuthType \<Rightarrow> bool \<Rightarrow> HttpRoute" where
  "HttpRoute_new v path type hasHandler =
     \<lparr>rt_verb = v, rt_path = path, rt_authType = type, rt_hasHandler = hasHandler, rt_segments = fromPath path\<rparr>"

definition HttpRoute_name :: "HttpRoute \<Rightarrow> string" where
  "HttpRoute_name r = rt_verb r @ ''_'' @ rt_path r"

type_synonym params = "(string \<times> string) list"

text \<open>The loop of \<open>match\<close>: the answer and the parameters, which stay when the match fails
  later; a segment that cannot be decoded raises.\<close>

fun route_match_loop :: "Segment list \<Rightarrow> Segment list \<Rightarrow> params \<Rightarrow> cpp_error + bool \<times> params" where
  "route_match_loop (seg # segs) (reqSeg # reqSegs) params =
     (if \<not> Segment_match seg (seg_raw reqSeg) then Inr (False, params)
      else case UrlEncoder_decode (seg_raw reqSeg) of
             Inl e \<Rightarrow> Inl e
           | Inr tmp \<Rightarrow>
               route_match_loop segs reqSegs
                 (if seg_type seg = SegParameter then sm_put (seg_raw seg) tmp params
                  else if seg_type seg = SegSplat then sm_put tmp tmp params
                  else params))"
| "route_match_loop _ _ params = Inr (True, params)"

definition HttpRoute_match :: "HttpRoute \<Rightarrow> verb \<Rightarrow> string \<Rightarrow> params \<Rightarrow> cpp_error + bool \<times> params" where
  "HttpRoute_match r v path params =
     (if \<not> rt_hasHandler r then Inr (False, params)
      else if v \<noteq> rt_verb r then Inr (False, params)
      else let reqSegments = fromPath path
           in if length reqSegments \<noteq> length (rt_segments r) then Inr (False, params)
              else route_match_loop (rt_segments r) reqSegments params)"

section \<open>HttpRouter\<close>

record HttpRouter =
  hr_routes :: "(string \<times> HttpRoute) list"
  hr_observers :: "nat list"

definition HttpRouter_add :: "verb \<Rightarrow> string \<Rightarrow> AuthType \<Rightarrow> bool \<Rightarrow> HttpRouter \<Rightarrow> HttpRouter \<times> (nat \<times> Api) list" where
  "HttpRouter_add v path type hasHandler router =
     (let route = HttpRoute_new v path type hasHandler
      in (router\<lparr>hr_routes := sm_put (HttpRoute_name route) route (hr_routes router)\<rparr>,
          map (\<lambda>item. (item, mk_api v path)) (hr_observers router)))"

datatype MatchStatus = MATCHED | FILTERED | MISMATCHED

record MatchResult =
  mr_status :: MatchStatus
  mr_filterStatus :: nat
  mr_filterReason :: string
  mr_route :: "HttpRoute option"

definition MatchResult_new :: MatchResult where
  "MatchResult_new = \<lparr>mr_status = MISMATCHED, mr_filterStatus = 460,
     mr_filterReason = ''Resource Restricted by Filter'', mr_route = None\<rparr>"

text \<open>The loop over the filters, which write status and reason, and the loop over the routes.\<close>

fun filter_loop :: "(limiter_request \<Rightarrow> nat \<times> string \<Rightarrow> bool \<times> nat \<times> string) list \<Rightarrow> limiter_request \<Rightarrow> nat \<times> string
    \<Rightarrow> bool \<times> nat \<times> string" where
  "filter_loop [] header st = (False, st)"
| "filter_loop (f # fs) header st =
     (let (hit, st') = f header st in if hit then (True, st') else filter_loop fs header st')"

fun route_loop :: "HttpRoute list \<Rightarrow> verb \<Rightarrow> string \<Rightarrow> params \<Rightarrow> cpp_error + HttpRoute option \<times> params" where
  "route_loop [] v path params = Inr (None, params)"
| "route_loop (r # rs) v path params =
     (case HttpRoute_match r v path params of
        Inl e \<Rightarrow> Inl e
      | Inr (hit, params') \<Rightarrow> if hit then Inr (Some r, params') else route_loop rs v path params')"

text \<open>The scan of the query: the characters since \<open>lastPos\<close>, the key, and the parameters.\<close>

fun query_loop :: "string \<Rightarrow> string \<Rightarrow> string \<Rightarrow> params \<Rightarrow> cpp_error + params" where
  "query_loop [] cur key queryParams = Inr queryParams"
| "query_loop (c # cs) cur key queryParams =
     (if c = CHR ''='' then query_loop cs [] cur queryParams
      else if c = CHR ''&'' then
        (if key \<noteq> [] \<and> cur \<noteq> [] then
           (case UrlEncoder_decode cur of
              Inl e \<Rightarrow> Inl e
            | Inr val \<Rightarrow> query_loop cs [] [] (sm_put key val queryParams))
         else query_loop cs [] [] queryParams)
      else query_loop cs (cur @ [c]) key queryParams)"

definition parseUri :: "string \<Rightarrow> params \<Rightarrow> cpp_error + string \<times> params" where
  "parseUri uri queryParams =
     (if CHR ''?'' \<notin> set uri then Inr (uri, queryParams)
      else let target = takeWhile (\<lambda>c. c \<noteq> CHR ''?'') uri;
               query = tl (dropWhile (\<lambda>c. c \<noteq> CHR ''?'') uri) @ ''&''
           in map_sum id (\<lambda>qp. (target, qp)) (query_loop query [] [] queryParams))"

definition HttpRouter_match ::
    "(limiter_request \<Rightarrow> nat \<times> string \<Rightarrow> bool \<times> nat \<times> string) list \<Rightarrow> HttpRouter \<Rightarrow> limiter_request \<Rightarrow> params \<Rightarrow> params
      \<Rightarrow> cpp_error + MatchResult \<times> params \<times> params" where
  "HttpRouter_match m_filters router header queryParams pathParams =
     (case parseUri (req_target header) queryParams of
        Inl e \<Rightarrow> Inl e
      | Inr (path, qp) \<Rightarrow>
          (let (hit, status, reason) =
                 filter_loop m_filters header (mr_filterStatus MatchResult_new, mr_filterReason MatchResult_new);
               mr = MatchResult_new\<lparr>mr_filterStatus := status, mr_filterReason := reason\<rparr>
           in if hit then Inr (mr\<lparr>mr_status := FILTERED\<rparr>, qp, pathParams)
              else case route_loop (map snd (rev (hr_routes router))) (req_verb header) path pathParams of
                     Inl e \<Rightarrow> Inl e
                   | Inr (Some r, pp) \<Rightarrow> Inr (mr\<lparr>mr_status := MATCHED, mr_route := Some r\<rparr>, qp, pp)
                   | Inr (None, pp) \<Rightarrow> Inr (mr\<lparr>mr_status := MISMATCHED\<rparr>, qp, pp)))"

section \<open>Invoking the handler\<close>

record 'e HttpContext =
  hc_reqBody :: string
  hc_contentType :: string
  hc_requestEntity :: "'e option"
  hc_responseEntity :: "'e option"
  hc_status :: nat
  hc_resBody :: string
  hc_resContentType :: string
  hc_resContentLength :: nat
  hc_statStatus :: nat
  hc_statMessage :: string
  hc_statError :: bool

definition http_fail :: "nat \<Rightarrow> string \<Rightarrow> string \<Rightarrow> bool \<Rightarrow> 'e HttpContext \<Rightarrow> 'e HttpContext" where
  "http_fail status body message isError c =
     c\<lparr>hc_status := status, hc_resBody := body, hc_statStatus := status, hc_statMessage := message,
       hc_statError := isError \<or> hc_statError c\<rparr>"

text \<open>Before the handler: \<open>Inl\<close> is an early return.\<close>

definition invoke_request :: "(string \<Rightarrow> bool \<times> 'e option) option \<Rightarrow> 'e HttpContext \<Rightarrow> 'e HttpContext + 'e HttpContext" where
  "invoke_request reqSerializer c =
     (case reqSerializer of
        None \<Rightarrow> Inr c
      | Some deserialize \<Rightarrow>
          if hc_reqBody c = [] then Inl (http_fail 400 ''Body cannot be empty'' ''body is empty'' False c)
          else if \<not> has_substring ''application/json'' (hc_contentType c)
          then Inl (http_fail 400 ''The content-type should be application/json'' ''content-type is not application/json'' False c)
          else let (ok, ent) = deserialize (hc_reqBody c); c' = c\<lparr>hc_requestEntity := ent\<rparr>
               in if \<not> ok then Inl (http_fail 400 ''The body deserialize failed!'' ''request body deserialize failed'' False c')
                  else Inr c')"

text \<open>After the handler.\<close>

definition invoke_response :: "('e \<Rightarrow> string option) option \<Rightarrow> 'e HttpContext \<Rightarrow> 'e HttpContext" where
  "invoke_response resSerializer c =
     (let finish = (\<lambda>c. let c' = (if hc_status c = 0
                                 then c\<lparr>hc_status := 500, hc_statStatus := 500,
                                        hc_statMessage := ''should set a response status'', hc_statError := True\<rparr>
                                 else c)
                       in c'\<lparr>hc_statStatus := hc_status c'\<rparr>)
      in case hc_responseEntity c of
           None \<Rightarrow> finish c
         | Some ent \<Rightarrow>
             (case resSerializer of
                None \<Rightarrow> http_fail 500 ''miss a serializer of response!'' ''response serialize failed'' True c
              | Some serialize \<Rightarrow>
                  (case serialize ent of
                     None \<Rightarrow> http_fail 500 ''serialize response failed!'' ''response serialize failed'' True c
                   | Some payload \<Rightarrow>
                       (let c' = c\<lparr>hc_resContentType := ''application/json; charset=utf-8'', hc_resContentLength := length payload,
                                   hc_resBody := payload\<rparr>
                        in finish (if hc_status c' = 0 then c'\<lparr>hc_status := 200\<rparr> else c')))))"

text \<open>A handler returns the context it leaves and the exception it throws, if it throws one, with
  its text. Only a \<open>std::exception\<close> is caught.\<close>

definition invokeHandler ::
    "(string \<Rightarrow> bool \<times> 'e option) option \<Rightarrow> ('e \<Rightarrow> string option) option
      \<Rightarrow> ('e HttpContext \<Rightarrow> 'e HttpContext \<times> (cpp_error \<times> string) option)
      \<Rightarrow> 'e HttpContext \<Rightarrow> cpp_error + 'e HttpContext" where
  "invokeHandler reqSerializer resSerializer handler c =
     (case invoke_request reqSerializer c of
        Inl c' \<Rightarrow> Inr c'
      | Inr c' \<Rightarrow>
          (case handler c' of
             (c'', None) \<Rightarrow> Inr (invoke_response resSerializer c'')
           | (c'', Some (err, what)) \<Rightarrow> catch_std (Inl err)
               (Inr (c''\<lparr>hc_status := 500, hc_statStatus := 500, hc_statMessage := ''unhandle exception: '' @ what,
                         hc_statError := True\<rparr>))))"

section \<open>Lemmas: the response\<close>

lemma invoke_request_fail: "invoke_request rs c = Inl c' \<Longrightarrow> hc_status c' = 400 \<and> hc_statStatus c' = 400"
  by (auto simp: invoke_request_def http_fail_def Let_def split: option.splits if_splits prod.splits)

lemma invoke_response_status:
  "hc_status (invoke_response rs c) \<noteq> 0 \<and> hc_statStatus (invoke_response rs c) = hc_status (invoke_response rs c)"
  by (simp add: invoke_response_def http_fail_def Let_def split: option.splits)

section \<open>Lemmas: which route is chosen\<close>

definition norm_path :: "string list \<Rightarrow> string" where
  "norm_path segs = concat (map (\<lambda>s. CHR ''/'' # s) segs)"

lemma split_norm_path:
  "\<forall>s \<in> set segs. CHR ''/'' \<notin> set s \<Longrightarrow> split_on (CHR ''/'') (norm_path segs) = [] # segs"
proof (induction segs)
  case Nil
  show ?case by (simp add: norm_path_def)
next
  case (Cons s segs)
  then have IH: "split_on (CHR ''/'') (norm_path segs) = [] # segs" and s: "CHR ''/'' \<notin> set s" by simp_all
  have "split_on (CHR ''/'') (s @ norm_path segs) = s # segs"
  proof (cases segs)
    case Nil
    with s show ?thesis by (simp add: norm_path_def)
  next
    case (Cons t ts)
    then have "norm_path segs = CHR ''/'' # t @ norm_path ts" by (simp add: norm_path_def)
    with s IH show ?thesis by (simp add: split_on_Cons)
  qed
  then show ?case by (simp add: norm_path_def split_on_Cons)
qed

lemma fromPath_norm:
  assumes "\<forall>s \<in> set segs. s \<noteq> [] \<and> CHR ''/'' \<notin> set s"
  shows "fromPath (norm_path segs) = map Segment_new segs"
proof -
  have "filter (\<lambda>p. p \<noteq> []) (getline_all (CHR ''/'') p) = filter (\<lambda>p. p \<noteq> []) (split_on (CHR ''/'') p)" for p
  proof -
    have "filter P (butlast xs) = filter P xs" if "xs \<noteq> []" "\<not> P (last xs)" for P and xs :: "string list"
      using that by (metis append_butlast_last_id append_Nil2 filter.simps filter_append)
    then show ?thesis by (simp add: getline_all_def Let_def)
  qed
  moreover have "filter (\<lambda>p. p \<noteq> []) segs = segs" using assms by (simp add: filter_id_conv)
  ultimately show ?thesis using assms by (simp add: fromPath_def split_norm_path)
qed

lemma Segment_match_new:
  "Segment_match (Segment_new p) t \<Longrightarrow> p = t \<or> p \<noteq> [] \<and> (hd p = CHR '':'' \<or> hd p = CHR ''*'')"
  by (auto simp: Segment_match_def Segment_new_def split: if_splits)

lemma norm_path_less:
  assumes "list_all2 (\<lambda>p t. Segment_match (Segment_new p) t) ps ts" and "\<forall>t \<in> set ts. plain_segment t" and "ps \<noteq> ts"
  shows "norm_path ps < norm_path ts"
  using assms
proof (induction ps ts rule: list_all2_induct)
  case Nil
  then show ?case by simp
next
  case (Cons p ps t ts)
  show ?case
  proof (cases "p = t")
    case True
    with Cons show ?thesis by (simp add: norm_path_def append_less_append)
  next
    case False
    have star: "CHR ''*'' < c" if "CHR '':'' < c" for c
      using that by (rule less_trans [rotated]) simp
    from False Cons.hyps(1) Cons.prems(1) have "p \<noteq> []" "t \<noteq> []" "hd p < hd t"
      using Segment_match_new [of p t] star by (auto simp: plain_segment_def)
    then show ?thesis by (cases p; cases t) (auto simp: norm_path_def)
  qed
qed

lemma route_match_loop_decodable:
  assumes "length segs = length reqs" and "\<forall>r \<in> set reqs. \<exists>s. UrlEncoder_decode (seg_raw r) = Inr s"
  shows "\<exists>pp. route_match_loop segs reqs params = Inr (list_all2 (\<lambda>s r. Segment_match s (seg_raw r)) segs reqs, pp)"
  using assms
proof (induction segs reqs arbitrary: params rule: list_induct2)
  case Nil
  show ?case by simp
next
  case (Cons s segs r reqs)
  then obtain x where "UrlEncoder_decode (seg_raw r) = Inr x" by auto
  with Cons show ?case by simp
qed

text \<open>A table of routes in the form the server has: each under its name, with a handler and a path
  of non-empty segments.\<close>

definition routes_ok :: "(string \<times> HttpRoute) list \<Rightarrow> bool" where
  "routes_ok rs \<longleftrightarrow> sm_ok rs \<and> (\<forall>(n, q) \<in> set rs. n = HttpRoute_name q \<and>
     (\<exists>qs. q = HttpRoute_new (rt_verb q) (norm_path qs) (rt_authType q) True \<and> (\<forall>s \<in> set qs. s \<noteq> [] \<and> CHR ''/'' \<notin> set s)))"

lemma route_match_norm:
  assumes "q = HttpRoute_new qv (norm_path qs) ty True" and "\<forall>s \<in> set qs. s \<noteq> [] \<and> CHR ''/'' \<notin> set s"
    and "\<forall>s \<in> set segs. s \<noteq> [] \<and> CHR ''/'' \<notin> set s" and "\<forall>s \<in> set segs. \<exists>x. UrlEncoder_decode s = Inr x"
  shows "\<exists>pp. HttpRoute_match q v (norm_path segs) params =
    Inr (v = qv \<and> list_all2 (\<lambda>p t. Segment_match (Segment_new p) t) qs segs, pp)"
proof -
  have q: "rt_segments q = map Segment_new qs" "rt_verb q = qv" "rt_hasHandler q"
    using assms(1) fromPath_norm [OF assms(2)] by (simp_all add: HttpRoute_new_def)
  have raw: "seg_raw (Segment_new t) = t" for t by (simp add: Segment_new_def)
  show ?thesis
  proof (cases "length qs = length segs")
    case False
    then have "\<not> list_all2 (\<lambda>p t. Segment_match (Segment_new p) t) qs segs" by (auto dest: list_all2_lengthD)
    with False q show ?thesis by (auto simp: HttpRoute_match_def fromPath_norm [OF assms(3)])
  next
    case True
    then obtain pp where "route_match_loop (map Segment_new qs) (map Segment_new segs) params =
        Inr (list_all2 (\<lambda>s r. Segment_match s (seg_raw r)) (map Segment_new qs) (map Segment_new segs), pp)"
      using route_match_loop_decodable [of "map Segment_new qs" "map Segment_new segs" params] assms(4)
      by (auto simp: raw)
    then show ?thesis using q True
      by (auto simp: HttpRoute_match_def fromPath_norm [OF assms(3)] raw list_all2_map1 list_all2_map2)
  qed
qed

lemma route_loop_first:
  assumes "\<And>q params. q \<in> set pre \<Longrightarrow> \<exists>pp. HttpRoute_match q v path params = Inr (False, pp)"
    and "\<And>params. \<exists>pp. HttpRoute_match r v path params = Inr (True, pp)"
  shows "\<exists>pp. route_loop (pre @ r # post) v path params = Inr (Some r, pp)"
  using assms(1)
proof (induction pre arbitrary: params)
  case Nil
  from assms(2) obtain pp where "HttpRoute_match r v path params = Inr (True, pp)" by blast
  then show ?case by simp
next
  case (Cons q pre)
  from Cons.prems obtain pp where "HttpRoute_match q v path params = Inr (False, pp)"
    by (meson list.set_intros(1))
  with Cons show ?case by simp
qed

section \<open>Lemmas: the query\<close>

definition query_string :: "(string \<times> string) list \<Rightarrow> string" where
  "query_string ps = join_with (CHR ''&'') (map (\<lambda>(k, v). k @ ''='' @ UrlEncoder_encode v) ps)"

lemma url_encode_chars: "c \<in> set (UrlEncoder_encode v) \<Longrightarrow> url_unreserved c \<or> c = CHR ''%''"
proof -
  have hex: "\<forall>d \<in> set hexmapUpper. url_unreserved d"
    by (simp add: hexmapUpper_def url_unreserved_def is_digit_def is_upper_def is_lower_def)
  have "unat (drop_bit 4 (byte_of x AND 0xF0)) < length hexmapUpper" "unat (byte_of x AND 0x0F) < length hexmapUpper" for x
    using unat_nibble_high [of "byte_of x"] unat_nibble_low [of "byte_of x"] unat_nibble_low [of "drop_bit 4 (byte_of x)"]
    by (simp_all add: nibble_low nibble_high)
  then have "\<forall>d \<in> set (HexEncoder_encode [x] False ''%''). url_unreserved d \<or> d = CHR ''%''" for x
    using hex by (auto simp: HexEncoder_encode_def Let_def)
  then show "c \<in> set (UrlEncoder_encode v) \<Longrightarrow> url_unreserved c \<or> c = CHR ''%''"
    by (auto simp: UrlEncoder_encode_def split: if_splits)
qed

lemma url_encode_nonempty: "v \<noteq> [] \<Longrightarrow> UrlEncoder_encode v \<noteq> []"
  by (cases v) (auto simp: UrlEncoder_encode_def HexEncoder_encode_def Let_def)

lemma url_encode_no_delim: "CHR ''='' \<notin> set (UrlEncoder_encode v)" "CHR ''&'' \<notin> set (UrlEncoder_encode v)"
  using url_encode_chars [of "CHR ''=''" v] url_encode_chars [of "CHR ''&''" v]
  by (auto simp: url_unreserved_def is_digit_def is_upper_def is_lower_def)

lemma query_loop_plain:
  "CHR ''='' \<notin> set s \<Longrightarrow> CHR ''&'' \<notin> set s \<Longrightarrow> query_loop (s @ cs) cur key qp = query_loop cs (cur @ s) key qp"
  by (induction s arbitrary: cur) auto

lemma query_loop_pair:
  assumes "k \<noteq> []" "CHR ''='' \<notin> set k" "CHR ''&'' \<notin> set k" "v \<noteq> []"
  shows "query_loop ((k @ ''='' @ UrlEncoder_encode v) @ CHR ''&'' # cs) [] [] qp = query_loop cs [] [] (sm_put k v qp)"
proof -
  have "query_loop (k @ CHR ''='' # UrlEncoder_encode v @ CHR ''&'' # cs) [] [] qp
      = query_loop (UrlEncoder_encode v @ CHR ''&'' # cs) [] k qp"
    using assms(2,3) by (simp add: query_loop_plain)
  also have "\<dots> = query_loop (CHR ''&'' # cs) (UrlEncoder_encode v) k qp"
    using url_encode_no_delim by (simp add: query_loop_plain)
  also have "\<dots> = query_loop cs [] [] (sm_put k v qp)"
    using assms(1,4) url_encode_nonempty url_decode_encode by simp
  finally show ?thesis by simp
qed

lemma query_loop_pairs:
  assumes "\<forall>(k, v) \<in> set ps. k \<noteq> [] \<and> CHR ''='' \<notin> set k \<and> CHR ''&'' \<notin> set k \<and> v \<noteq> []" and "ps \<noteq> []"
  shows "query_loop (query_string ps @ ''&'') [] [] qp = Inr (fold (\<lambda>(k, v). sm_put k v) ps qp)"
  using assms
proof (induction ps arbitrary: qp)
  case Nil
  then show ?case by simp
next
  case (Cons p ps)
  obtain k v where p: "p = (k, v)" by (cases p)
  with Cons.prems have kv: "k \<noteq> []" "CHR ''='' \<notin> set k" "CHR ''&'' \<notin> set k" "v \<noteq> []" by auto
  show ?case
  proof (cases "ps = []")
    case True
    with p query_loop_pair [OF kv, of "[]" qp] show ?thesis by (simp add: query_string_def)
  next
    case False
    then have "query_string (p # ps) @ ''&'' = (k @ ''='' @ UrlEncoder_encode v) @ CHR ''&'' # query_string ps @ ''&''"
      by (simp add: query_string_def p join_with_Cons)
    with query_loop_pair [OF kv, of "query_string ps @ ''&''" qp] Cons False p show ?thesis by simp
  qed
qed

section \<open>Properties\<close>

text \<open>C27. A route of fixed segments wins: if the table holds the fixed route of a path, whose segments
  begin above the colon, have no slash and decode, then the search from the greatest name
  down finds that route, whatever routes with parameters or splats match the path too.\<close>

theorem fixed_route_wins:
  assumes ok: "routes_ok rs" and r: "r = HttpRoute_new v (norm_path segs) ty True" and rin: "(HttpRoute_name r, r) \<in> set rs"
    and segs: "\<forall>s \<in> set segs. plain_segment s \<and> hd s \<noteq> CHR ''*'' \<and> CHR ''/'' \<notin> set s"
    and dec: "\<forall>s \<in> set segs. \<exists>x. UrlEncoder_decode s = Inr x"
  shows "\<exists>pp. route_loop (map snd (rev rs)) v (norm_path segs) params = Inr (Some r, pp)"
proof -
  have ne: "\<forall>s \<in> set segs. s \<noteq> [] \<and> CHR ''/'' \<notin> set s" using segs by (auto simp: plain_segment_def)
  obtain post pre where rs: "rs = post @ (HttpRoute_name r, r) # pre" using rin by (meson split_list)
  have self: "\<exists>pp. HttpRoute_match r v (norm_path segs) ps = Inr (True, pp)" for ps
  proof -
    have "list_all2 (\<lambda>p t. Segment_match (Segment_new p) t) segs segs"
      using segs by (auto simp: list_all2_same Segment_match_def Segment_new_def plain_segment_def)
    with route_match_norm [OF r ne ne dec, of v ps] show ?thesis by simp
  qed
  have other: "\<exists>pp. HttpRoute_match q v (norm_path segs) ps = Inr (False, pp)" if "q \<in> set (map snd (rev pre))" for q ps
  proof -
    from that obtain n where nq: "(n, q) \<in> set pre" by auto
    then have "(n, q) \<in> set rs" by (simp add: rs)
    with ok obtain qs where q: "n = HttpRoute_name q" "q = HttpRoute_new (rt_verb q) (norm_path qs) (rt_authType q) True"
      "\<forall>s \<in> set qs. s \<noteq> [] \<and> CHR ''/'' \<notin> set s" unfolding routes_ok_def by fast
    have less: "HttpRoute_name r < n" using ok nq by (fastforce simp: routes_ok_def rs sm_ok_def sorted_wrt_append)
    have "\<not> (v = rt_verb q \<and> list_all2 (\<lambda>p t. Segment_match (Segment_new p) t) qs segs)"
    proof
      assume m: "v = rt_verb q \<and> list_all2 (\<lambda>p t. Segment_match (Segment_new p) t) qs segs"
      then have "norm_path qs \<le> norm_path segs"
        using norm_path_less [of qs segs] segs by (cases "qs = segs") (auto intro: less_imp_le)
      moreover have "rt_path q = norm_path qs" "rt_path r = norm_path segs" "rt_verb r = v"
        using q(2) r by (metis HttpRoute.select_convs(2) HttpRoute_new_def) (simp_all add: r HttpRoute_new_def)
      ultimately show False using less m append_less_append [of "v @ ''_''"] by (simp add: q(1) HttpRoute_name_def)
    qed
    with route_match_norm [OF q(2,3) ne dec, of v ps] show ?thesis by simp
  qed
  from route_loop_first [where pre = "map snd (rev pre)", OF other self, where post = "map snd (rev post)" and params = params] show ?thesis by (simp add: rs)
qed

definition demo_routes :: "(string \<times> HttpRoute) list" where
  "demo_routes =
     [(''GET_/p/:uid'', HttpRoute_new ''GET'' (norm_path [''p'', '':uid'']) AUTHTYPE_ALLOW_ALL True),
      (''GET_/p/keys'', HttpRoute_new ''GET'' (norm_path [''p'', ''keys'']) AUTHTYPE_ALLOW_ALL True)]"

theorem fixed_route_wins_witness:
  "\<exists>r pp. route_loop (map snd (rev demo_routes)) ''GET'' ''/p/keys'' [] = Inr (Some r, pp) \<and> rt_path r = ''/p/keys''"
proof -
  let ?r = "HttpRoute_new ''GET'' (norm_path [''p'', ''keys'']) AUTHTYPE_ALLOW_ALL True"
  have np: "norm_path [''p'', ''keys''] = ''/p/keys''" "norm_path [''p'', '':uid''] = ''/p/:uid''" by (simp_all add: norm_path_def)
  have names: "HttpRoute_name ?r = ''GET_/p/keys''"
    "HttpRoute_name (HttpRoute_new ''GET'' (norm_path [''p'', '':uid'']) AUTHTYPE_ALLOW_ALL True) = ''GET_/p/:uid''"
    by (simp_all add: HttpRoute_name_def HttpRoute_new_def np)
  have shape: "\<exists>qs. HttpRoute_new w (norm_path ps) ty True = HttpRoute_new (rt_verb (HttpRoute_new w (norm_path ps) ty True)) (norm_path qs)
      (rt_authType (HttpRoute_new w (norm_path ps) ty True)) True \<and> (\<forall>s \<in> set qs. s \<noteq> [] \<and> CHR ''/'' \<notin> set s)"
    if "\<forall>s \<in> set ps. s \<noteq> [] \<and> CHR ''/'' \<notin> set s" for w ps ty
    using that by (intro exI [of _ ps]) (simp add: HttpRoute_new_def)
  have "routes_ok demo_routes"
    using names shape [of "[''p'', ''keys'']"] shape [of "[''p'', '':uid'']"]
    by (simp add: routes_ok_def demo_routes_def sm_ok_def)
  then have "\<exists>pp. route_loop (map snd (rev demo_routes)) ''GET'' (norm_path [''p'', ''keys'']) [] = Inr (Some ?r, pp)"
    by (rule fixed_route_wins [OF _ refl]) (simp_all add: names demo_routes_def plain_segment_def)
  then show ?thesis by (simp add: np) (auto simp: HttpRoute_new_def)
qed

text \<open>The query of a URI round-trips: for parameters with non-empty keys free of \<open>=\<close> and
  \<open>&\<close> and non-empty values, and a path without a question mark, parsing the path followed by
  the encoded query gives the path back and enters exactly those parameters, the last value of a
  key winning.\<close>

lemma query_roundtrip:
  assumes "CHR ''?'' \<notin> set path" and "ps \<noteq> []"
    and "\<forall>(k, v) \<in> set ps. k \<noteq> [] \<and> CHR ''='' \<notin> set k \<and> CHR ''&'' \<notin> set k \<and> v \<noteq> []"
  shows "parseUri (path @ ''?'' @ query_string ps) qp = Inr (path, fold (\<lambda>(k, v). sm_put k v) ps qp)"
proof -
  have "takeWhile (\<lambda>c. c \<noteq> CHR ''?'') (path @ ''?'' @ query_string ps) = path"
    using assms(1) by (simp add: takeWhile_append takeWhile_eq_all_conv)
  moreover have "tl (dropWhile (\<lambda>c. c \<noteq> CHR ''?'') (path @ ''?'' @ query_string ps)) = query_string ps"
    using assms(1) by (subst dropWhile_append2) auto
  ultimately show ?thesis
    using query_loop_pairs [OF assms(3,2), of qp] by (simp add: parseUri_def Let_def)
qed

theorem query_roundtrip_witness:
  "parseUri (''/p'' @ ''?'' @ query_string [(''a'', ''x y''), (''b'', ''&'')]) [] = Inr (''/p'', [(''a'', ''x y''), (''b'', ''&'')])"
  using query_roundtrip [of "''/p''" "[(''a'', ''x y''), (''b'', ''&'')]" "[]"] by simp

text \<open>C39. A request never leaves with an unknown status: whenever \<open>invokeHandler\<close> returns, the
  response has a status, and the statistics record that same status. (It does not return when the
  handler throws something other than a \<open>std::exception\<close>.)\<close>

theorem invoke_sets_status:
  assumes "invokeHandler reqSerializer resSerializer handler c = Inr c'"
  shows "hc_status c' \<noteq> 0 \<and> hc_statStatus c' = hc_status c'"
proof (cases "invoke_request reqSerializer c")
  case (Inl d)
  with assms invoke_request_fail [OF this] show ?thesis by (auto simp: invokeHandler_def)
next
  case (Inr d)
  obtain d' ex where h: "handler d = (d', ex)" by (cases "handler d")
  show ?thesis
  proof (cases ex)
    case None
    with assms Inr h invoke_response_status show ?thesis by (auto simp: invokeHandler_def)
  next
    case (Some ew)
    obtain e w where ew: "ew = (e, w)" by (cases ew)
    with assms Inr h Some show ?thesis by (cases e) (auto simp: invokeHandler_def)
  qed
qed

definition demo_context :: "nat HttpContext" where
  "demo_context = \<lparr>hc_reqBody = [], hc_contentType = [], hc_requestEntity = None, hc_responseEntity = None, hc_status = 0,
     hc_resBody = [], hc_resContentType = [], hc_resContentLength = 0, hc_statStatus = 0, hc_statMessage = [], hc_statError = False\<rparr>"

theorem invoke_sets_status_witness:
  "\<exists>c'. invokeHandler None None (\<lambda>c. (c, None)) demo_context = Inr c' \<and> hc_status c' \<noteq> 0"
  using invoke_sets_status [of None None "\<lambda>c. (c, None)" demo_context]
  by (simp add: invokeHandler_def invoke_request_def)



end
