(* ===== verification/Dispatch_Address.thy ===== *)
theory Dispatch_Address
  imports Bcm_Prelude
begin

text \<open>
  \<open>src/dispatcher/dispatch_address.cpp\<close>: the address of a device, the user and the number of the
  device, and its serialized form, which names the device's channel and orders addresses in maps
  and sets.
\<close>

section \<open>Definitions\<close>

record DispatchAddress =
  da_uid :: string
  da_deviceid :: u32

definition getSerialized :: "DispatchAddress \<Rightarrow> string" where
  "getSerialized a = da_uid a @ '':'' @ to_dec (unat (da_deviceid a))"

definition getSerializedForOnlineNotify :: "DispatchAddress \<Rightarrow> string" where
  "getSerializedForOnlineNotify a = ''on:'' @ da_uid a @ '':'' @ to_dec (unat (da_deviceid a))"

text \<open>Fields after the second are ignored; the number is read as an \<open>unsigned long\<close> and cut to
  32 bits.\<close>

definition deserialize :: "string \<Rightarrow> DispatchAddress option" where
  "deserialize serialized =
     (case split_on (CHR '':'') serialized of
        uid # dev # _ \<Rightarrow>
          (case stoul dev of
             None \<Rightarrow> None
           | Some n \<Rightarrow> Some \<lparr>da_uid = uid, da_deviceid = word_of_nat n\<rparr>)
      | _ \<Rightarrow> None)"

definition address_less :: "DispatchAddress \<Rightarrow> DispatchAddress \<Rightarrow> bool" where
  "address_less lhs rhs \<longleftrightarrow> getSerialized lhs < getSerialized rhs"

section \<open>Lemmas\<close>

lemma unat_u32_less: "unat (w :: u32) < 2 ^ 64"
proof -
  have "unat w < 2 ^ 32" using unsigned_less [of w, where ?'a = nat] by simp
  then show ?thesis by simp
qed

lemma to_dec_no_colon: "CHR '':'' \<notin> set (to_dec n)"
  using to_dec_digits [of "CHR '':''" n] by (auto simp: is_digit_def)

lemma split_getSerialized:
  "split_on (CHR '':'') (getSerialized a) = split_on (CHR '':'') (da_uid a) @ [to_dec (unat (da_deviceid a))]"
  by (simp add: getSerialized_def split_on_snoc to_dec_no_colon)

text \<open>The serialized form determines the address, also for a user name with a colon in it, so the
  order on serialized forms is an order on addresses.\<close>

lemma getSerialized_inj [simp]: "getSerialized a = getSerialized b \<longleftrightarrow> a = b"
proof
  assume eq: "getSerialized a = getSerialized b"
  then have "split_on (CHR '':'') (da_uid a) = split_on (CHR '':'') (da_uid b)"
    and "to_dec (unat (da_deviceid a)) = to_dec (unat (da_deviceid b))"
    using split_getSerialized [of a] split_getSerialized [of b] by simp_all
  then have "da_uid a = da_uid b" and "da_deviceid a = da_deviceid b"
    by (metis join_split_on, metis to_dec_inj word_unat_eq_iff)
  then show "a = b" by simp
qed simp

lemma address_less_linear: "address_less a b \<or> a = b \<or> address_less b a"
  using less_linear [of "getSerialized a" "getSerialized b"] by (auto simp: address_less_def)

lemma deserialize_getSerialized:
  "CHR '':'' \<notin> set (da_uid a) \<Longrightarrow> deserialize (getSerialized a) = Some a"
  by (simp add: deserialize_def split_getSerialized stoul_to_dec [OF unat_u32_less] del: stoul_to_dec)

section \<open>Properties\<close>

text \<open>Addresses round-trip through the name of their channel exactly when the user name has no
  colon: a name with a colon is cut there, and a channel so named is taken for another
  device's or refused.\<close>

lemma address_roundtrip: "deserialize (getSerialized a) = Some a \<longleftrightarrow> CHR '':'' \<notin> set (da_uid a)"
proof
  assume r: "deserialize (getSerialized a) = Some a"
  obtain t ts where ts: "split_on (CHR '':'') (da_uid a) = t # ts"
    by (meson neq_Nil_conv split_on_not_Nil)
  then obtain d rest where "split_on (CHR '':'') (getSerialized a) = t # d # rest"
    by (cases ts) (auto simp: split_getSerialized)
  with r have "da_uid a = t" by (auto simp: deserialize_def split: option.splits)
  moreover have "CHR '':'' \<notin> set t"
    using ts split_on_no_delim [of t "CHR '':''" "da_uid a"] by simp
  ultimately show "CHR '':'' \<notin> set (da_uid a)" by simp
qed (rule deserialize_getSerialized)

end
