(* ===== verification/Push_Notification.thy ===== *)
theory Push_Notification
  imports Dispatch_Address Authenticator
begin

text \<open>
  \<open>src/push/push_notification.cpp\<close>, \<open>src/crypto/fnv.cpp\<close> and the two functions of
  \<open>src/utils/sender_utils.cpp\<close> that decide what a push may say about the sender: the
  notification for a device that is not connected and the push service that carries it. The JSON
  content is a datatype of what the methods put there. The numbers of the operating systems come
  with the protocol definitions and are parameters.
\<close>

section \<open>The hash of the target\<close>

definition FNV_step :: "u32 \<Rightarrow> char \<Rightarrow> u32" where
  "FNV_step uHash c = (uHash XOR ucast (byte_of c)) * 16777619"

definition FNV_hash :: "string \<Rightarrow> u32" where
  "FNV_hash key = foldl FNV_step 0x811C9DC5 key"

section \<open>Notification\<close>

datatype push_content =
    NoContent
  | ContactChat string
  | GroupChat string string
  | FriendReq string int string

record Notification =
  nt_content :: push_content
  nt_targetId :: "u32 option"
  nt_badge :: int
  nt_target :: DispatchAddress
  nt_apnsType :: string
  nt_apnsId :: string
  nt_voipId :: string
  nt_fcmId :: string
  nt_umengId :: string
  nt_clientVersion :: ClientVersion
  nt_class :: int

definition Notification_new :: Notification where
  "Notification_new = \<lparr>nt_content = NoContent, nt_targetId = None, nt_badge = -1,
     nt_target = \<lparr>da_uid = [], da_deviceid = 0\<rparr>, nt_apnsType = [], nt_apnsId = [], nt_voipId = [], nt_fcmId = [],
     nt_umengId = [], nt_clientVersion = ClientVersion_new, nt_class = 0\<rparr>"

definition notification_chat :: "string \<Rightarrow> Notification \<Rightarrow> Notification" where
  "notification_chat senderUid n = n\<lparr>nt_content := ContactChat senderUid, nt_targetId := None\<rparr>"

definition notification_group :: "string \<Rightarrow> string \<Rightarrow> Notification \<Rightarrow> Notification" where
  "notification_group groupId messageId n = n\<lparr>nt_content := GroupChat messageId groupId, nt_targetId := None\<rparr>"

definition notification_friendReq :: "string \<Rightarrow> string \<Rightarrow> int \<Rightarrow> Notification \<Rightarrow> Notification" where
  "notification_friendReq senderUid payload type n = n\<lparr>nt_content := FriendReq senderUid type payload, nt_targetId := None\<rparr>"

definition setTargetAddress :: "DispatchAddress \<Rightarrow> Notification \<Rightarrow> Notification" where
  "setTargetAddress address n =
     (let n' = (if da_uid address \<noteq> [] then n\<lparr>nt_targetId := Some (FNV_hash (da_uid address))\<rparr> else n)
      in n'\<lparr>nt_target := address\<rparr>)"

definition clientversion :: "Device \<Rightarrow> ClientVersion" where
  "clientversion device = (case d_clientVersion device of None \<Rightarrow> ClientVersion_new | Some v \<Rightarrow> v)"

definition setDeviceInfo :: "Device \<Rightarrow> Notification \<Rightarrow> Notification" where
  "setDeviceInfo device n =
     n\<lparr>nt_apnsType := d_apnType device, nt_apnsId := d_apnId device, nt_voipId := d_voipApnId device,
       nt_fcmId := d_gcmId device, nt_umengId := d_umengId device, nt_clientVersion := clientversion device\<rparr>"

definition useUmengFirst :: "nat \<Rightarrow> ClientVersion \<Rightarrow> bool" where
  "useUmengFirst os_android cv =
     (if cv_osType cv \<noteq> os_android then False
      else list_ex (\<lambda>model. has_substring model (map to_lower (cv_phoneModel cv))) [''xiaomi'', ''huawei''])"

definition getPushType :: "nat \<Rightarrow> nat \<Rightarrow> Notification \<Rightarrow> string" where
  "getPushType os_android os_ios n =
     (if cv_osType (nt_clientVersion n) = os_android then
        (if useUmengFirst os_android (nt_clientVersion n) \<and> nt_umengId n \<noteq> [] then ''umeng''
         else if nt_fcmId n \<noteq> [] then ''fcm''
         else if nt_umengId n \<noteq> [] then ''umeng''
         else [])
      else if cv_osType (nt_clientVersion n) = os_ios then ''apns''
      else [])"

definition isSupportApnsPush :: "nat \<Rightarrow> Notification \<Rightarrow> bool" where
  "isSupportApnsPush os_ios n =
     (if cv_osType (nt_clientVersion n) = os_ios then
        (case split_on (CHR ''.'') (cv_osVersion (nt_clientVersion n)) of
           major # _ # _ \<Rightarrow> (case stoi major of None \<Rightarrow> False | Some osv \<Rightarrow> 13 \<le> osv)
         | _ \<Rightarrow> False)
      else False)"

section \<open>What a push may say about the sender\<close>

record EncryptSenderConfig =
  es_iosVersion :: u64
  es_androidVersion :: u64
  es_plainUidSupport :: bool

definition isClientVersionSupportEncryptSender :: "nat \<Rightarrow> nat \<Rightarrow> Device \<Rightarrow> EncryptSenderConfig \<Rightarrow> bool" where
  "isClientVersionSupportEncryptSender os_ios os_android device cfg =
     (let clientVer = clientversion device
      in if cv_osType clientVer = os_ios then \<not> cv_bcmBuildCode clientVer < es_iosVersion cfg
         else if cv_osType clientVer = os_android then \<not> cv_bcmBuildCode clientVer < es_androidVersion cfg
         else False)"

definition getSourceInPushService :: "nat \<Rightarrow> nat \<Rightarrow> Device \<Rightarrow> string \<Rightarrow> string \<Rightarrow> EncryptSenderConfig \<Rightarrow> string" where
  "getSourceInPushService os_ios os_android device source sourceExtra cfg =
     (if source = [] then sourceExtra
      else if isClientVersionSupportEncryptSender os_ios os_android device cfg then sourceExtra
      else source)"

end
