(* ===== verification/Messages_Manager.thy ===== *)
theory Messages_Manager
  imports Bcm_Prelude
begin

text \<open>
  \<open>src/store/messages_manager.cpp\<close>: the store of messages for devices that are not connected.
  The database behind it (\<open>dao::StoredMessages\<close>) is a record of functions on a state of any
  type, so that its answers, errors included, are arbitrary; what a theorem relies on is stated
  there. The enumerations of the protocol are numbers.
\<close>

section \<open>Messages\<close>

record Envelope =
  env_type :: int
  env_source :: string
  env_sourceDevice :: u32
  env_sourceRegistration :: u32
  env_sourceExtra :: string
  env_relay :: string
  env_timestamp :: u64
  env_legacyMessage :: string
  env_content :: string
  env_push :: int

definition Envelope_new :: Envelope where
  "Envelope_new = \<lparr>env_type = 0, env_source = [], env_sourceDevice = 0, env_sourceRegistration = 0,
     env_sourceExtra = [], env_relay = [], env_timestamp = 0, env_legacyMessage = [], env_content = [], env_push = 0\<rparr>"

record StoredMessage =
  st_id :: u64
  st_msgType :: int
  st_destination :: string
  st_destinationDeviceId :: u32
  st_destinationRegistrationId :: u32
  st_source :: string
  st_sourceDeviceId :: u32
  st_sourceRegistrationId :: u32
  st_sourceExtra :: string
  st_relay :: string
  st_timestamp :: u64
  st_content :: string

section \<open>The database\<close>

record 's StoredMessages =
  sd_set :: "StoredMessage \<Rightarrow> 's \<Rightarrow> dao_code \<times> u32 \<times> 's"
  sd_get :: "string \<Rightarrow> u32 \<Rightarrow> nat \<Rightarrow> 's \<Rightarrow> dao_code \<times> StoredMessage list"
  sd_del :: "string \<Rightarrow> u64 list \<Rightarrow> 's \<Rightarrow> dao_code \<times> 's"
  sd_clear :: "string \<Rightarrow> 's \<Rightarrow> dao_code \<times> 's"
  sd_clearDevice :: "string \<Rightarrow> u32 \<Rightarrow> 's \<Rightarrow> dao_code \<times> 's"

section \<open>Operations\<close>

text \<open>The message that \<open>store\<close> writes; its id is given by the database.\<close>

definition store_message :: "string \<Rightarrow> u32 \<Rightarrow> u32 \<Rightarrow> Envelope \<Rightarrow> StoredMessage" where
  "store_message destination destinationDeviceId destinationRegistrationId envelope =
     \<lparr>st_id = 0, st_msgType = env_type envelope, st_destination = destination,
      st_destinationDeviceId = destinationDeviceId, st_destinationRegistrationId = destinationRegistrationId,
      st_source = env_source envelope, st_sourceDeviceId = env_sourceDevice envelope,
      st_sourceRegistrationId = env_sourceRegistration envelope, st_sourceExtra = env_sourceExtra envelope,
      st_relay = env_relay envelope, st_timestamp = env_timestamp envelope, st_content = env_content envelope\<rparr>"

definition MessagesManager_store ::
    "'s StoredMessages \<Rightarrow> string \<Rightarrow> u32 \<Rightarrow> u32 \<Rightarrow> Envelope \<Rightarrow> 's \<Rightarrow> bool \<times> u32 \<times> 's" where
  "MessagesManager_store dao destination destinationDeviceId destinationRegistrationId envelope s =
     (let (err, storedCount, s') =
            sd_set dao (store_message destination destinationDeviceId destinationRegistrationId envelope) s
      in (err = Dao_Success, storedCount, s'))"

text \<open>The answer, the messages and \<open>hasMore\<close>.\<close>

definition MessagesManager_get ::
    "'s StoredMessages \<Rightarrow> string \<Rightarrow> u32 \<Rightarrow> nat \<Rightarrow> 's \<Rightarrow> bool \<times> StoredMessage list \<times> bool" where
  "MessagesManager_get dao destination destinationDeviceId maxCount s =
     (let (err, outMessages) = sd_get dao destination destinationDeviceId maxCount s
      in if err = Dao_NoSuchData then (True, outMessages, False)
         else if err \<noteq> Dao_Success then (False, outMessages, False)
         else (True, outMessages, maxCount \<le> length outMessages))"

definition MessagesManager_clear :: "'s StoredMessages \<Rightarrow> string \<Rightarrow> u32 option \<Rightarrow> 's \<Rightarrow> bool \<times> 's" where
  "MessagesManager_clear dao destination destinationDeviceId s =
     (let (err, s') = (case destinationDeviceId of
                         Some d \<Rightarrow> sd_clearDevice dao destination d s
                       | None \<Rightarrow> sd_clear dao destination s)
      in (err = Dao_Success, s'))"

definition MessagesManager_del :: "'s StoredMessages \<Rightarrow> string \<Rightarrow> u64 list \<Rightarrow> 's \<Rightarrow> bool \<times> 's" where
  "MessagesManager_del dao destination msgIds s =
     (let (err, s') = sd_del dao destination msgIds s in (err = Dao_Success, s'))"

definition MessagesManager_convert :: "StoredMessage \<Rightarrow> Envelope" where
  "MessagesManager_convert message =
     (let e0 = Envelope_new\<lparr>env_type := st_msgType message, env_timestamp := st_timestamp message,
                 env_source := st_source message, env_sourceDevice := st_sourceDeviceId message,
                 env_sourceRegistration := st_sourceRegistrationId message, env_sourceExtra := st_sourceExtra message\<rparr>;
          e1 = (if st_relay message \<noteq> [] then e0\<lparr>env_relay := st_relay message\<rparr> else e0)
      in if st_content message \<noteq> [] then e1\<lparr>env_content := st_content message\<rparr> else e1)"

section \<open>Lemmas\<close>

text \<open>Storing keeps everything of an envelope but its push class and its deprecated body.\<close>

lemma convert_store [simp]: "MessagesManager_convert (store_message d dev reg e) = e\<lparr>env_push := 0, env_legacyMessage := []\<rparr>"
  by (cases e) (simp add: MessagesManager_convert_def store_message_def Envelope_new_def Let_def)

lemma snd_MessagesManager_store:
  "snd (snd (MessagesManager_store dao d dev reg e s)) = snd (snd (sd_set dao (store_message d dev reg e) s))"
  by (simp add: MessagesManager_store_def Let_def split_beta)

lemma snd_MessagesManager_del: "snd (MessagesManager_del dao d ids s) = snd (sd_del dao d ids s)"
  by (simp add: MessagesManager_del_def Let_def split_beta)

lemma get_messages: "fst (snd (MessagesManager_get dao d dev n s)) = snd (sd_get dao d dev n s)"
  by (simp add: MessagesManager_get_def Let_def split_beta)

lemma get_hasMore_length:
  "MessagesManager_get dao d dev n s = (ok, ms, True) \<Longrightarrow> n \<le> length ms"
  by (auto simp: MessagesManager_get_def Let_def split: prod.splits if_splits)

end
