(* ===== verification/Dispatch_Channel.thy ===== *)
theory Dispatch_Channel
  imports Push_Notification Messages_Manager
begin

text \<open>
  \<open>src/dispatcher/dispatch_channel.cpp\<close>: the channel of one connected device. It reacts to the
  messages of the device's Redis channel, sends requests over the websocket and, on each
  response, deletes, keeps, republishes or stores what was sent. A request is a task posted to a
  fiber pool: \<open>*_prepare\<close> is the function \<open>before\<close> of the task, \<open>*_response\<close> the
  function \<open>after\<close>, and a step relation runs tasks in any interleaving. Databases, Redis, the
  push service, the protocol buffers, the cipher and the authenticated account are the functions
  of a \<open>Context\<close>. A wall clock appears where the source reads one for a decision, not where
  it only measures durations.
\<close>

section \<open>Messages of the channel\<close>

datatype PubSubType =
    UNKNOWN | KEEPALIVE | QUERY_DB | DELIVER | CONNECTED | CLOSE | CHECK | QUERY_ONLINE | FRIEND | MULTI_DEVICE | NOTIFICATION

datatype MultiDeviceType =
    DeviceLogin | DeviceLogout | DeviceAvatarSync | DeviceAuth | DeviceKickedByOther | DeviceKickedByMaster | MasterLogout
  | MultiDeviceOther

record MultiDeviceMessage =
  md_type :: MultiDeviceType
  md_content :: string

datatype FriendEventType = FRIEND_REQUEST | FRIEND_REPLY | DELETE_FRIEND

record FriendEvent =
  fe_id :: int
  fe_data :: string

text \<open>The entries of a friend message, each in its serialized form.\<close>

record FriendMessage =
  fm_requests :: "string list"
  fm_replies :: "string list"
  fm_deletes :: "string list"

record Request =
  rq_verb :: string
  rq_path :: string
  rq_body :: string

section \<open>The context\<close>

text \<open>\<open>cx_account refresh\<close> is the account the session returns, read again from the database when
  \<open>refresh\<close> is set; \<open>cx_publish\<close> returns the number of subscribers reached, 0 when
  Redis fails; \<open>cx_cipher key plaintext\<close> is the initialization vector and the ciphertext.\<close>

record 's Context =
  cx_master :: u32
  cx_receipt :: int
  cx_noise :: int
  cx_ios :: nat
  cx_android :: nat
  cx_config :: EncryptSenderConfig
  cx_account :: "bool \<Rightarrow> Account"
  cx_managerAlive :: bool
  cx_now :: int
  cx_b64dec :: "string \<Rightarrow> string"
  cx_b64size :: "nat \<Rightarrow> nat"
  cx_cipher :: "string \<Rightarrow> string \<Rightarrow> string \<times> string"
  cx_hmac :: "string \<Rightarrow> string \<Rightarrow> string"
  cx_envelope :: "Envelope \<Rightarrow> string"
  cx_parseEnvelope :: "string \<Rightarrow> Envelope option"
  cx_mailbox :: "Envelope list \<Rightarrow> string"
  cx_pubsub :: "PubSubType \<Rightarrow> string \<Rightarrow> string"
  cx_parsePubsub :: "string \<Rightarrow> (PubSubType \<times> string) option"
  cx_multi :: "MultiDeviceMessage \<Rightarrow> string option"
  cx_parseMulti :: "string \<Rightarrow> MultiDeviceMessage option"
  cx_friend :: "FriendMessage \<Rightarrow> string option"
  cx_friendString :: "FriendMessage \<Rightarrow> string"
  cx_parseFriend :: "string \<Rightarrow> FriendMessage option"
  cx_parseEntry :: "FriendEventType \<Rightarrow> string \<Rightarrow> string option"
  cx_dao :: "'s StoredMessages"
  cx_publish :: "string \<Rightarrow> string \<Rightarrow> string \<Rightarrow> 's \<Rightarrow> int \<times> 's"
  cx_push :: "string \<Rightarrow> Notification \<Rightarrow> 's \<Rightarrow> 's"
  cx_addFriendEvent :: "string \<Rightarrow> FriendEventType \<Rightarrow> string \<Rightarrow> 's \<Rightarrow> dao_code \<times> 's"
  cx_getFriendEvents :: "string \<Rightarrow> FriendEventType \<Rightarrow> nat \<Rightarrow> 's \<Rightarrow> dao_code \<times> FriendEvent list"
  cx_delFriendEvents :: "string \<Rightarrow> FriendEventType \<Rightarrow> int list \<Rightarrow> 's \<Rightarrow> dao_code \<times> 's"

section \<open>The channel\<close>

datatype task =
    SendP2p Envelope "u64 option" bool
  | SendStored
  | SendEmpty
  | SendGroup string
  | SendMulti MultiDeviceMessage
  | SendFriend FriendMessage
  | SendStoredFriend "FriendEventType list"

record Channel =
  c_identity :: u64
  c_address :: DispatchAddress
  c_requestIdAuth :: bool
  c_available :: bool
  c_connected :: bool
  c_tasks :: "task list"

definition DispatchChannel_new :: "u64 \<Rightarrow> DispatchAddress \<Rightarrow> bool \<Rightarrow> Channel" where
  "DispatchChannel_new identity address requestIdAuth =
     \<lparr>c_identity = identity, c_address = address, c_requestIdAuth = requestIdAuth, c_available = False,
      c_connected = True, c_tasks = []\<rparr>"

definition post_task :: "task \<Rightarrow> Channel \<Rightarrow> Channel" where
  "post_task t c = c\<lparr>c_tasks := c_tasks c @ [t]\<rparr>"

definition kMaxCountDispatchOnce :: nat where
  "kMaxCountDispatchOnce = 50"

definition kMaxGetFriendEventsCount :: nat where
  "kMaxGetFriendEventsCount = 100"

definition successful :: "nat \<Rightarrow> bool" where
  "successful status \<longleftrightarrow> status div 100 = 2"

text \<open>A slave device reads its account again before it is used.\<close>

definition session_account :: "'s Context \<Rightarrow> Channel \<Rightarrow> Account" where
  "session_account x c = cx_account x (da_deviceid (c_address c) \<noteq> cx_master x)"

section \<open>Encryption and receipts\<close>

definition encrypt :: "'s Context \<Rightarrow> string \<Rightarrow> string \<Rightarrow> string option" where
  "encrypt x signalingKey plaintext =
     (let decodedSignalingKey = Base64_decode (cx_b64dec x) (cx_b64size x) signalingKey False
      in if length decodedSignalingKey < 32 + 20 then None
         else let cipherKey = take 32 decodedSignalingKey;
                  macKey = take 20 (drop 32 decodedSignalingKey);
                  (iv, body) = cx_cipher x cipherKey plaintext;
                  cipherField = char_of_byte 1 # iv @ body;
                  hmacField = cx_hmac x macKey cipherField
              in if length hmacField < 10 then None else Some (cipherField @ take 10 hmacField))"

definition publishMessage :: "'s Context \<Rightarrow> DispatchAddress \<Rightarrow> string \<Rightarrow> 's \<Rightarrow> bool \<times> 's" where
  "publishMessage x address message s =
     (let (n, s') = cx_publish x (da_uid address) (getSerialized address) message s in (0 < n, s'))"

text \<open>When the connection was closed before an answer came, the message goes to the device's channel
  again, where another connection of the device may take it.\<close>

definition republish :: "'s Context \<Rightarrow> Channel \<Rightarrow> nat \<Rightarrow> string \<Rightarrow> 's \<Rightarrow> bool \<times> 's" where
  "republish x c status message s =
     (if status = 444 then publishMessage x (c_address c) message s else (False, s))"

definition isSupportDispatchBatch :: "'s Context \<Rightarrow> Channel \<Rightarrow> bool" where
  "isSupportDispatchBatch x c =
     (case getAuthDevice (session_account x c) of
        None \<Rightarrow> False
      | Some device \<Rightarrow>
          (let cliVer = clientversion device
           in if cv_osType cliVer = cx_ios x then 1235 \<le> cv_bcmBuildCode cliVer
              else if cv_osType cliVer = cx_android x then 1105 \<le> cv_bcmBuildCode cliVer
              else False))"

definition isMessageStaleAndClientObsolete :: "'s Context \<Rightarrow> Channel \<Rightarrow> StoredMessage \<Rightarrow> bool" where
  "isMessageStaleAndClientObsolete x c message =
     (case getAuthDevice (session_account x c) of
        None \<Rightarrow> False
      | Some device \<Rightarrow>
          st_destinationRegistrationId message \<noteq> 0
          \<and> st_destinationRegistrationId message \<noteq> d_registrationId device
          \<and> st_source message \<noteq> []
          \<and> \<not> isClientVersionSupportEncryptSender (cx_ios x) (cx_android x) device (cx_config x))"

definition sendReceipt :: "'s Context \<Rightarrow> Channel \<Rightarrow> Envelope \<Rightarrow> string \<Rightarrow> 's \<Rightarrow> bool \<times> 's" where
  "sendReceipt x c envelope payload s =
     (if env_type envelope = cx_receipt x then (True, s)
      else case getAuthDevice (session_account x c) of
             None \<Rightarrow> (False, s)
           | Some device \<Rightarrow>
               (let receipt = Envelope_new\<lparr>env_type := cx_receipt x, env_source := a_uid (session_account x c),
                      env_sourceDevice := d_id device, env_sourceRegistration := d_registrationId device,
                      env_timestamp := env_timestamp envelope, env_relay := env_relay envelope, env_content := payload\<rparr>
                in if \<not> cx_managerAlive x then (False, s)
                   else let (published, s1) =
                              publishMessage x \<lparr>da_uid = env_source envelope, da_deviceid = env_sourceDevice envelope\<rparr>
                                (cx_pubsub x DELIVER (cx_envelope x receipt)) s
                        in if published then (True, s1)
                           else let (ok, _, s2) =
                                      MessagesManager_store (cx_dao x) (env_source envelope) (env_sourceDevice envelope)
                                        (env_sourceRegistration envelope) receipt s1
                                in (ok, s2)))"

section \<open>Stored messages\<close>

text \<open>The loop over a batch: the ids to delete, the ids to send and the envelopes, each in order.\<close>

fun stored_loop :: "'s Context \<Rightarrow> Channel \<Rightarrow> StoredMessage list \<Rightarrow> 's \<Rightarrow> u64 list \<times> u64 list \<times> Envelope list \<times> 's" where
  "stored_loop x c [] s = ([], [], [], s)"
| "stored_loop x c (message # messages) s =
     (let envelope = MessagesManager_convert message
      in if isMessageStaleAndClientObsolete x c message then
           (let (sent, s1) = sendReceipt x c envelope ''STALE'' s;
                (dels, ids, mailbox, s2) = stored_loop x c messages s1
            in ((if sent then st_id message # dels else dels), ids, mailbox, s2))
         else let (dels, ids, mailbox, s2) = stored_loop x c messages s
              in (dels, st_id message # ids, envelope # mailbox, s2))"

text \<open>What a task passes from \<open>before\<close> to \<open>after\<close>.\<close>

datatype passing =
    PassNothing
  | PassMailbox bool "Envelope list" "u64 list"
  | PassFriends "int list" "int list" "int list" "FriendEventType list"

definition stored_prepare :: "'s Context \<Rightarrow> Channel \<times> 's \<Rightarrow> (Request \<times> passing) option \<times> Channel \<times> 's" where
  "stored_prepare x st =
     (let (c, s) = st; account = cx_account x True
      in case getAuthDevice account of
           None \<Rightarrow> (None, c, s)
         | Some device \<Rightarrow>
             if \<not> cx_managerAlive x then (None, c, s)
             else let (ret, messages, hasMore) =
                        MessagesManager_get (cx_dao x) (a_uid account) (a_authDeviceId account) kMaxCountDispatchOnce s
                  in if \<not> ret then (None, c, s)
                     else if messages = [] then (None, post_task SendEmpty c, s)
                     else let (toDelete, toSend, mailbox, s1) = stored_loop x c messages s;
                              s2 = (if toDelete \<noteq> [] then snd (MessagesManager_del (cx_dao x) (a_uid account) toDelete s1) else s1)
                          in if mailbox = [] then (None, post_task SendEmpty c, s2)
                             else case encrypt x (d_signalingKey device) (cx_mailbox x mailbox) of
                                    None \<Rightarrow> (None, c, s2)
                                  | Some payload \<Rightarrow>
                                      (Some (\<lparr>rq_verb = ''PUT'', rq_path = ''/api/v1/messages'', rq_body = payload\<rparr>,
                                             PassMailbox hasMore mailbox toSend), c, s2))"

text \<open>The loop of the one-by-one protocol: the ids to delete and the tasks posted.\<close>

fun legacy_loop :: "'s Context \<Rightarrow> Channel \<Rightarrow> StoredMessage list \<Rightarrow> nat \<Rightarrow> bool \<Rightarrow> 's \<Rightarrow> u64 list \<times> task list \<times> 's" where
  "legacy_loop x c [] count hasMore s = ([], [], s)"
| "legacy_loop x c (message # messages) count hasMore s =
     (let envelope = MessagesManager_convert message
      in if isMessageStaleAndClientObsolete x c message then
           (let (sent, s1) = sendReceipt x c envelope ''STALE'' s;
                (dels, ts, s2) = legacy_loop x c messages count hasMore s1
            in ((if sent then st_id message # dels else dels), ts, s2))
         else let count' = count - 1;
                  (dels, ts, s2) = legacy_loop x c messages count' hasMore s
              in (dels, SendP2p envelope (Some (st_id message)) (count' = 0 \<and> hasMore) # ts, s2))"

definition sendStoredMessagesLegacy :: "'s Context \<Rightarrow> Channel \<times> 's \<Rightarrow> Channel \<times> 's" where
  "sendStoredMessagesLegacy x st =
     (let (c, s) = st; account = cx_account x True
      in case getAuthDevice account of
           None \<Rightarrow> (c, s)
         | Some _ \<Rightarrow>
             if \<not> cx_managerAlive x then (c, s)
             else let (ret, messages, hasMore) =
                        MessagesManager_get (cx_dao x) (a_uid account) (a_authDeviceId account) kMaxCountDispatchOnce s
                  in if \<not> ret \<or> messages = [] then (c, s)
                     else let (toDelete, ts, s1) = legacy_loop x c messages (length messages) hasMore s;
                              c1 = fold post_task ts c;
                              s2 = (if toDelete \<noteq> [] then snd (MessagesManager_del (cx_dao x) (a_uid account) toDelete s1) else s1)
                          in (if \<not> hasMore then post_task SendEmpty c1 else c1, s2))"

definition sendStoredMessages :: "'s Context \<Rightarrow> Channel \<times> 's \<Rightarrow> Channel \<times> 's" where
  "sendStoredMessages x st =
     (let (c, s) = st
      in if \<not> isSupportDispatchBatch x c then sendStoredMessagesLegacy x (c, s)
         else (post_task SendStored c, s))"

definition stored_response :: "'s Context \<Rightarrow> bool \<Rightarrow> u64 list \<Rightarrow> nat \<Rightarrow> Channel \<times> 's \<Rightarrow> Channel \<times> 's" where
  "stored_response x hasMore sentMessagesIds status st =
     (let (c, s) = st; account = cx_account x True
      in case getAuthDevice account of
           None \<Rightarrow> (c, s)
         | Some _ \<Rightarrow>
             if successful status then
               (if \<not> cx_managerAlive x then (c, s)
                else let s1 = snd (MessagesManager_del (cx_dao x) (a_uid account) sentMessagesIds s)
                     in if hasMore then sendStoredMessages x (c, s1) else (post_task SendEmpty c, s1))
             else (c, s))"

section \<open>Messages between users\<close>

definition p2p_prepare :: "'s Context \<Rightarrow> Channel \<Rightarrow> Envelope \<Rightarrow> Request option" where
  "p2p_prepare x c envelope =
     (case getAuthDevice (session_account x c) of
        None \<Rightarrow> None
      | Some device \<Rightarrow>
          (case encrypt x (d_signalingKey device) (cx_envelope x envelope) of
             None \<Rightarrow> None
           | Some payload \<Rightarrow> Some \<lparr>rq_verb = ''PUT'', rq_path = ''/api/v1/message'', rq_body = payload\<rparr>))"

definition p2p_notification :: "'s Context \<Rightarrow> Channel \<Rightarrow> Device \<Rightarrow> Envelope \<Rightarrow> u32 \<Rightarrow> Notification" where
  "p2p_notification x c device envelope storedMessagesCount =
     (let src = getSourceInPushService (cx_ios x) (cx_android x) device (env_source envelope) (env_sourceExtra envelope) (cx_config x);
          n = notification_chat src Notification_new
      in (setDeviceInfo device (setTargetAddress (c_address c) (n\<lparr>nt_badge := sint storedMessagesCount\<rparr>)))
           \<lparr>nt_class := env_push envelope\<rparr>)"

text \<open>The part of the response that runs when the message has to be kept for later.\<close>

definition p2p_keep :: "'s Context \<Rightarrow> Channel \<Rightarrow> Device \<Rightarrow> Envelope \<Rightarrow> 's \<Rightarrow> 's" where
  "p2p_keep x c device envelope s =
     (let (ret, storedMessagesCount, s2) =
            MessagesManager_store (cx_dao x) (a_uid (session_account x c)) (d_id device) (d_registrationId device) envelope s
      in if \<not> ret then s2
         else if d_id device \<noteq> cx_master x then s2
         else if env_type envelope = cx_receipt x \<or> env_push envelope = -1 \<or> \<not> isDevicePushable (cx_now x) device then s2
         else let notification = p2p_notification x c device envelope storedMessagesCount;
                  pushType = getPushType (cx_android x) (cx_ios x) notification
              in if pushType \<noteq> [] then cx_push x pushType notification s2 else s2)"

definition p2p_response :: "'s Context \<Rightarrow> Envelope \<Rightarrow> u64 option \<Rightarrow> bool \<Rightarrow> nat \<Rightarrow> Channel \<times> 's \<Rightarrow> Channel \<times> 's" where
  "p2p_response x envelope storageId remain status st =
     (let (c, s) = st; account = session_account x c
      in case getAuthDevice account of
           None \<Rightarrow> (c, s)
         | Some device \<Rightarrow>
             if \<not> cx_managerAlive x then (c, s)
             else if successful status then
               (let s1 = (case storageId of None \<Rightarrow> s | Some i \<Rightarrow> snd (MessagesManager_del (cx_dao x) (a_uid account) [i] s))
                in if remain then sendStoredMessages x (c, s1) else (c, s1))
             else if env_type envelope = cx_noise x then (c, s)
             else if storageId \<noteq> None then (c, s)
             else let (republished, s1) = republish x c status (cx_pubsub x DELIVER (cx_envelope x envelope)) s
                  in if republished then (c, s1) else (c, p2p_keep x c device envelope s1))"

section \<open>Groups and devices\<close>

definition group_prepare :: "string \<Rightarrow> Request" where
  "group_prepare message = \<lparr>rq_verb = ''PUT'', rq_path = ''/api/v1/group_message'', rq_body = message\<rparr>"

definition empty_prepare :: Request where
  "empty_prepare = \<lparr>rq_verb = ''PUT'', rq_path = ''/api/v1/queue/empty'', rq_body = []\<rparr>"

definition channel_drop :: "Channel \<Rightarrow> Channel" where
  "channel_drop c = c\<lparr>c_available := False, c_connected := False\<rparr>"

definition multi_prepare :: "'s Context \<Rightarrow> MultiDeviceMessage \<Rightarrow> Request option" where
  "multi_prepare x message =
     map_option (\<lambda>payload. \<lparr>rq_verb = ''PUT'', rq_path = ''/api/v1/devices'', rq_body = payload\<rparr>) (cx_multi x message)"

definition multi_response :: "'s Context \<Rightarrow> MultiDeviceMessage \<Rightarrow> nat \<Rightarrow> Channel \<Rightarrow> Channel" where
  "multi_response x message status c =
     (if \<not> cx_managerAlive x then c
      else if successful status then c
      else case md_type message of
             DeviceLogin \<Rightarrow> c
           | DeviceLogout \<Rightarrow> c
           | DeviceAvatarSync \<Rightarrow> c
           | DeviceAuth \<Rightarrow> channel_drop c
           | DeviceKickedByOther \<Rightarrow> channel_drop c
           | DeviceKickedByMaster \<Rightarrow> channel_drop c
           | MasterLogout \<Rightarrow> channel_drop c
           | MultiDeviceOther \<Rightarrow> c)"

section \<open>Friend events\<close>

definition friend_prepare :: "'s Context \<Rightarrow> FriendMessage \<Rightarrow> Request option" where
  "friend_prepare x message =
     map_option (\<lambda>payload. \<lparr>rq_verb = ''PUT'', rq_path = ''/api/v1/friends'', rq_body = payload\<rparr>) (cx_friend x message)"

fun add_events :: "'s Context \<Rightarrow> string \<Rightarrow> FriendEventType \<Rightarrow> string list \<Rightarrow> 's \<Rightarrow> 's" where
  "add_events x uid ty [] s = s"
| "add_events x uid ty (e # es) s = add_events x uid ty es (snd (cx_addFriendEvent x uid ty e s))"

definition friend_response :: "'s Context \<Rightarrow> FriendMessage \<Rightarrow> nat \<Rightarrow> Channel \<times> 's \<Rightarrow> Channel \<times> 's" where
  "friend_response x message status st =
     (let (c, s) = st; uid = da_uid (c_address c)
      in case getAuthDevice (session_account x c) of
           None \<Rightarrow> (c, s)
         | Some _ \<Rightarrow>
             if \<not> cx_managerAlive x then (c, s)
             else if successful status then (c, s)
             else let (republished, s1) = republish x c status (cx_pubsub x FRIEND (cx_friendString x message)) s
                  in if republished then (c, s1)
                     else (c, add_events x uid DELETE_FRIEND (fm_deletes message)
                                (add_events x uid FRIEND_REPLY (fm_replies message)
                                  (add_events x uid FRIEND_REQUEST (fm_requests message) s1))))"

text \<open>One of the three alike parts of \<open>sendStoredFriendEventMessages\<close>: the entries that parse,
  their ids and whether there may be more; \<open>None\<close> when the database fails. An event that does
  not parse is skipped.\<close>

definition parsed_events :: "'s Context \<Rightarrow> FriendEventType \<Rightarrow> FriendEvent list \<Rightarrow> (string \<times> int) list" where
  "parsed_events x ty events =
     List.map_filter (\<lambda>e. map_option (\<lambda>d. (d, fe_id e)) (cx_parseEntry x ty (fe_data e))) events"

definition read_events ::
    "'s Context \<Rightarrow> string \<Rightarrow> FriendEventType list \<Rightarrow> FriendEventType \<Rightarrow> 's \<Rightarrow> (string list \<times> int list \<times> FriendEventType list) option" where
  "read_events x uid types ty s =
     (if ty \<notin> set types then Some ([], [], [])
      else let (ec, events) = cx_getFriendEvents x uid ty kMaxGetFriendEventsCount s
           in if ec \<noteq> Dao_Success \<and> ec \<noteq> Dao_NoSuchData then None
              else Some (map fst (parsed_events x ty events), map snd (parsed_events x ty events),
                         if kMaxGetFriendEventsCount \<le> length events then [ty] else []))"

definition storedFriend_prepare ::
    "'s Context \<Rightarrow> FriendEventType list \<Rightarrow> Channel \<times> 's \<Rightarrow> (Request \<times> passing) option" where
  "storedFriend_prepare x types st =
     (let (c, s) = st; uid = da_uid (c_address c)
      in if \<not> cx_managerAlive x then None
         else case (read_events x uid types FRIEND_REQUEST s, read_events x uid types FRIEND_REPLY s,
                    read_events x uid types DELETE_FRIEND s) of
                (Some (reqs, requestIds, m1), Some (reps, replyIds, m2), Some (dels, deletionIds, m3)) \<Rightarrow>
                  if reqs = [] \<and> reps = [] \<and> dels = [] then None
                  else map_option
                         (\<lambda>payload. (\<lparr>rq_verb = ''PUT'', rq_path = ''/api/v1/friends'', rq_body = payload\<rparr>,
                                     PassFriends requestIds replyIds deletionIds (m1 @ m2 @ m3)))
                         (cx_friend x \<lparr>fm_requests = reqs, fm_replies = reps, fm_deletes = dels\<rparr>)
              | _ \<Rightarrow> None)"

text \<open>Deleting the events of one kind after they were sent: whether there was an error.\<close>

definition del_events :: "'s Context \<Rightarrow> string \<Rightarrow> FriendEventType \<Rightarrow> int list \<Rightarrow> bool \<times> 's \<Rightarrow> bool \<times> 's" where
  "del_events x uid ty ids es =
     (let (hasError, s) = es
      in if ids = [] then (hasError, s)
         else let (ec, s') = cx_delFriendEvents x uid ty ids s
              in (hasError \<or> (ec \<noteq> Dao_Success \<and> ec \<noteq> Dao_NoSuchData), s'))"

definition storedFriend_response ::
    "'s Context \<Rightarrow> int list \<Rightarrow> int list \<Rightarrow> int list \<Rightarrow> FriendEventType list \<Rightarrow> nat \<Rightarrow> Channel \<times> 's \<Rightarrow> Channel \<times> 's" where
  "storedFriend_response x requestIds replyIds deletionIds moreEventTypes status st =
     (let (c, s) = st; uid = da_uid (c_address c)
      in case getAuthDevice (session_account x c) of
           None \<Rightarrow> (c, s)
         | Some _ \<Rightarrow>
             if \<not> cx_managerAlive x then (c, s)
             else if successful status then
               (let (hasError, s') = del_events x uid DELETE_FRIEND deletionIds
                                       (del_events x uid FRIEND_REPLY replyIds
                                         (del_events x uid FRIEND_REQUEST requestIds (False, s)))
                in (if \<not> hasError \<and> moreEventTypes \<noteq> [] then post_task (SendStoredFriend moreEventTypes) c else c, s'))
             else (c, s))"

section \<open>Events of the channel\<close>

definition onDispatchSubscribed :: "'s Context \<Rightarrow> Channel \<times> 's \<Rightarrow> Channel \<times> 's" where
  "onDispatchSubscribed x st =
     (let (c, s) = st
      in if c_available c then (c, s)
         else let c1 = c\<lparr>c_available := True\<rparr>
              in if c_requestIdAuth c then (c1, s)
                 else let (c2, s2) = sendStoredMessages x (c1, s)
                      in if da_deviceid (c_address c) \<noteq> cx_master x then (c2, s2)
                         else (post_task (SendStoredFriend [FRIEND_REQUEST, FRIEND_REPLY, DELETE_FRIEND]) c2, s2))"

definition onDispatchUnsubscribed :: "bool \<Rightarrow> Channel \<Rightarrow> Channel" where
  "onDispatchUnsubscribed kicking c =
     (let c1 = c\<lparr>c_available := False\<rparr> in if kicking then c1\<lparr>c_connected := False\<rparr> else c1)"

definition onDispatchGroupMessage :: "string \<Rightarrow> Channel \<Rightarrow> Channel" where
  "onDispatchGroupMessage message c = (if \<not> c_available c then c else post_task (SendGroup message) c)"

definition onDispatchRedisMessage :: "'s Context \<Rightarrow> string \<Rightarrow> Channel \<times> 's \<Rightarrow> Channel \<times> 's" where
  "onDispatchRedisMessage x message st =
     (let (c, s) = st
      in if \<not> c_available c then (c, s)
         else case cx_parsePubsub x message of
                None \<Rightarrow> (c, s)
              | Some (ty, content) \<Rightarrow>
                  (case ty of
                     QUERY_DB \<Rightarrow> sendStoredMessages x (c, s)
                   | DELIVER \<Rightarrow>
                       (case cx_parseEnvelope x content of
                          None \<Rightarrow> (c, s)
                        | Some envelope \<Rightarrow> (post_task (SendP2p envelope None False) c, s))
                   | CONNECTED \<Rightarrow>
                       (if content \<noteq> [] \<and> content \<noteq> to_dec (unat (c_identity c)) then (channel_drop c, s) else (c, s))
                   | MULTI_DEVICE \<Rightarrow>
                       (case cx_parseMulti x content of
                          None \<Rightarrow> (c, s)
                        | Some msg \<Rightarrow> (post_task (SendMulti msg) c, s))
                   | CLOSE \<Rightarrow> (c, s)
                   | KEEPALIVE \<Rightarrow> (c, s)
                   | CHECK \<Rightarrow> (c, s)
                   | QUERY_ONLINE \<Rightarrow> (c, s)
                   | FRIEND \<Rightarrow>
                       (case cx_parseFriend x content of
                          None \<Rightarrow> (c, s)
                        | Some friendMsg \<Rightarrow> (post_task (SendFriend friendMsg) c, s))
                   | NOTIFICATION \<Rightarrow> (onDispatchGroupMessage content c, s)
                   | UNKNOWN \<Rightarrow> (c, s)))"

section \<open>Running tasks\<close>

text \<open>\<open>dispatch\<close>: the part of a task before the request, and the part after the response. When
  the first gives no request the task is over.\<close>

fun task_prepare :: "'s Context \<Rightarrow> task \<Rightarrow> Channel \<times> 's \<Rightarrow> (Request \<times> passing) option \<times> Channel \<times> 's" where
  "task_prepare x (SendP2p envelope storageId remain) st =
     (map_option (\<lambda>r. (r, PassNothing)) (p2p_prepare x (fst st) envelope), st)"
| "task_prepare x SendStored st = stored_prepare x st"
| "task_prepare x SendEmpty st = (Some (empty_prepare, PassNothing), st)"
| "task_prepare x (SendGroup message) st = (Some (group_prepare message, PassNothing), st)"
| "task_prepare x (SendMulti message) st = (map_option (\<lambda>r. (r, PassNothing)) (multi_prepare x message), st)"
| "task_prepare x (SendFriend message) st = (map_option (\<lambda>r. (r, PassNothing)) (friend_prepare x message), st)"
| "task_prepare x (SendStoredFriend types) st = (storedFriend_prepare x types st, st)"

fun task_response :: "'s Context \<Rightarrow> task \<Rightarrow> passing \<Rightarrow> nat \<Rightarrow> Channel \<times> 's \<Rightarrow> Channel \<times> 's" where
  "task_response x (SendP2p envelope storageId remain) p status st = p2p_response x envelope storageId remain status st"
| "task_response x SendStored (PassMailbox hasMore mailbox ids) status st = stored_response x hasMore ids status st"
| "task_response x (SendMulti message) p status st = (multi_response x message status (fst st), snd st)"
| "task_response x (SendFriend message) p status st = friend_response x message status st"
| "task_response x (SendStoredFriend types) (PassFriends requestIds replyIds deletionIds moreTypes) status st =
     storedFriend_response x requestIds replyIds deletionIds moreTypes status st"
| "task_response x t p status st = st"

record 's Session =
  ss_channel :: Channel
  ss_world :: 's
  ss_pending :: "(task \<times> passing) list"
  ss_acked :: "u64 list"

text \<open>The ids of the stored messages that a request carries.\<close>

fun carried :: "task \<Rightarrow> passing \<Rightarrow> u64 list" where
  "carried (SendP2p envelope (Some i) remain) p = [i]"
| "carried SendStored (PassMailbox hasMore mailbox ids) = ids"
| "carried t p = []"

text \<open>The steps of a session: a posted task starts; a pending request is answered, with any status,
  which is remembered when it was successful; or an event arrives. Nothing else is ordered.\<close>

inductive session_step :: "'s Context \<Rightarrow> 's Session \<Rightarrow> 's Session \<Rightarrow> bool" for x :: "'s Context" where
  start_none:
    "c_tasks c = pre @ t # post \<Longrightarrow> task_prepare x t (c\<lparr>c_tasks := pre @ post\<rparr>, s) = (None, c', s') \<Longrightarrow>
     session_step x \<lparr>ss_channel = c, ss_world = s, ss_pending = ps, ss_acked = as\<rparr>
       \<lparr>ss_channel = c', ss_world = s', ss_pending = ps, ss_acked = as\<rparr>"
| start_request:
    "c_tasks c = pre @ t # post \<Longrightarrow> task_prepare x t (c\<lparr>c_tasks := pre @ post\<rparr>, s) = (Some (r, p), c', s') \<Longrightarrow>
     session_step x \<lparr>ss_channel = c, ss_world = s, ss_pending = ps, ss_acked = as\<rparr>
       \<lparr>ss_channel = c', ss_world = s', ss_pending = ps @ [(t, p)], ss_acked = as\<rparr>"
| response:
    "task_response x t p status (c, s) = (c', s') \<Longrightarrow>
     as' = (if successful status then carried t p @ as else as) \<Longrightarrow>
     session_step x \<lparr>ss_channel = c, ss_world = s, ss_pending = ps1 @ (t, p) # ps2, ss_acked = as\<rparr>
       \<lparr>ss_channel = c', ss_world = s', ss_pending = ps1 @ ps2, ss_acked = as'\<rparr>"
| subscribed:
    "onDispatchSubscribed x (c, s) = (c', s') \<Longrightarrow>
     session_step x \<lparr>ss_channel = c, ss_world = s, ss_pending = ps, ss_acked = as\<rparr>
       \<lparr>ss_channel = c', ss_world = s', ss_pending = ps, ss_acked = as\<rparr>"
| redis_message:
    "onDispatchRedisMessage x m (c, s) = (c', s') \<Longrightarrow>
     session_step x \<lparr>ss_channel = c, ss_world = s, ss_pending = ps, ss_acked = as\<rparr>
       \<lparr>ss_channel = c', ss_world = s', ss_pending = ps, ss_acked = as\<rparr>"
| unsubscribed:
    "session_step x \<lparr>ss_channel = c, ss_world = s, ss_pending = ps, ss_acked = as\<rparr>
       \<lparr>ss_channel = onDispatchUnsubscribed kicking c, ss_world = s, ss_pending = ps, ss_acked = as\<rparr>"

inductive session_run :: "'s Context \<Rightarrow> 's Session \<Rightarrow> 's Session \<Rightarrow> bool" for x :: "'s Context" where
  run_refl: "session_run x a a"
| run_step: "session_run x a b \<Longrightarrow> session_step x b d \<Longrightarrow> session_run x a d"

section \<open>Lemmas: what a channel does to the store\<close>

text \<open>What is assumed of the databases: ids are unique, reading returns stored messages, deleting by
  id deletes no others, and no other call deletes anything.\<close>

definition grows :: "('s \<Rightarrow> StoredMessage list) \<Rightarrow> 's \<Rightarrow> 's \<Rightarrow> bool" where
  "grows contents s s' \<longleftrightarrow> set (contents s) \<subseteq> set (contents s')"

definition store_sound :: "'s Context \<Rightarrow> ('s \<Rightarrow> StoredMessage list) \<Rightarrow> bool" where
  "store_sound x contents \<longleftrightarrow>
     (\<forall>s. distinct (map st_id (contents s)))
   \<and> (\<forall>d dev n s. set (snd (sd_get (cx_dao x) d dev n s)) \<subseteq> set (contents s))
   \<and> (\<forall>d ids s. {m \<in> set (contents s). st_id m \<notin> set ids} \<subseteq> set (contents (snd (sd_del (cx_dao x) d ids s))))
   \<and> (\<forall>m s. grows contents s (snd (snd (sd_set (cx_dao x) m s))))
   \<and> (\<forall>uid ch m s. grows contents s (snd (cx_publish x uid ch m s)))
   \<and> (\<forall>ty n s. grows contents s (cx_push x ty n s))
   \<and> (\<forall>uid ty d s. grows contents s (snd (cx_addFriendEvent x uid ty d s)))
   \<and> (\<forall>uid ty ids s. grows contents s (snd (cx_delFriendEvents x uid ty ids s)))"

lemma grows_refl [simp]: "grows contents s s"
  by (simp add: grows_def)

lemma grows_trans: "grows contents s s1 \<Longrightarrow> grows contents s1 s2 \<Longrightarrow> grows contents s s2"
  by (auto simp: grows_def)

lemma store_soundD:
  assumes "store_sound x contents"
  shows "distinct (map st_id (contents s))"
    and "set (snd (sd_get (cx_dao x) d dev n s)) \<subseteq> set (contents s)"
    and "m \<in> set (contents s) \<Longrightarrow> st_id m \<notin> set ids \<Longrightarrow> m \<in> set (contents (snd (sd_del (cx_dao x) d ids s)))"
    and "grows contents s (snd (snd (sd_set (cx_dao x) m s)))"
    and "grows contents s (snd (cx_publish x uid ch msg s))"
    and "grows contents s (cx_push x pty nn s)"
    and "grows contents s (snd (cx_addFriendEvent x uid ty dat s))"
    and "grows contents s (snd (cx_delFriendEvents x uid ty eids s))"
proof -
  note S = assms [unfolded store_sound_def]
  show "distinct (map st_id (contents s))" using S by (elim conjE) (rule spec)
  show "set (snd (sd_get (cx_dao x) d dev n s)) \<subseteq> set (contents s)" using S by (elim conjE) (simp only:)
  show "m \<in> set (contents s) \<Longrightarrow> st_id m \<notin> set ids \<Longrightarrow> m \<in> set (contents (snd (sd_del (cx_dao x) d ids s)))"
    using S by (elim conjE) blast
  show "grows contents s (snd (snd (sd_set (cx_dao x) m s)))" using S by (elim conjE) (simp only:)
  show "grows contents s (snd (cx_publish x uid ch msg s))" using S by (elim conjE) (simp only:)
  show "grows contents s (cx_push x pty nn s)" using S by (elim conjE) (simp only:)
  show "grows contents s (snd (cx_addFriendEvent x uid ty dat s))" using S by (elim conjE) (simp only:)
  show "grows contents s (snd (cx_delFriendEvents x uid ty eids s))" using S by (elim conjE) (simp only:)
qed

lemma snd_publishMessage: "snd (publishMessage x a m s) = snd (cx_publish x (da_uid a) (getSerialized a) m s)"
  by (simp add: publishMessage_def Let_def split_beta)

lemma store_grows: "store_sound x contents \<Longrightarrow> grows contents s (snd (snd (MessagesManager_store (cx_dao x) d dev reg e s)))"
  by (simp add: snd_MessagesManager_store store_soundD)

lemma publish_grows: "store_sound x contents \<Longrightarrow> grows contents s (snd (publishMessage x a m s))"
  by (simp add: snd_publishMessage store_soundD)

lemma republish_grows: "store_sound x contents \<Longrightarrow> grows contents s (snd (republish x c status m s))"
  by (simp add: republish_def publish_grows)

lemma sendReceipt_grows:
  assumes "store_sound x contents"
  shows "grows contents s (snd (sendReceipt x c e p s))"
proof -
  have "grows contents s (snd (snd (MessagesManager_store (cx_dao x) d dev reg e' (snd (publishMessage x a m s)))))" for d dev reg e' a m
    by (rule grows_trans [OF publish_grows [OF assms] store_grows [OF assms]])
  then show ?thesis using publish_grows [OF assms]
    by (simp add: sendReceipt_def Let_def split_beta split: option.splits)
qed

lemma add_events_grows: "store_sound x contents \<Longrightarrow> grows contents s (add_events x uid ty es s)"
proof (induction es arbitrary: s)
  case Nil
  show ?case by simp
next
  case (Cons e es)
  show ?case using grows_trans [OF store_soundD(7) [OF Cons.prems] Cons.IH [OF Cons.prems]] by simp
qed

lemma del_events_grows: "store_sound x contents \<Longrightarrow> grows contents (snd es) (snd (del_events x uid ty ids es))"
  using store_soundD(8) [of x contents "snd es" uid ty ids]
  by (simp add: del_events_def Let_def split_beta)

lemma p2p_keep_grows:
  assumes "store_sound x contents"
  shows "grows contents s (p2p_keep x c device e s)"
proof -
  have "grows contents s (cx_push x pt n (snd (snd (MessagesManager_store (cx_dao x) d dev reg e' s))))" for pt n d dev reg e'
    by (rule grows_trans [OF store_grows [OF assms] store_soundD(6) [OF assms]])
  then show ?thesis using store_grows [OF assms] by (simp add: p2p_keep_def Let_def split_beta)
qed

text \<open>\<open>kept\<close>: the messages that leave the store were acknowledged or are stale.\<close>

definition kept :: "'s Context \<Rightarrow> Channel \<Rightarrow> ('s \<Rightarrow> StoredMessage list) \<Rightarrow> u64 list \<Rightarrow> 's \<Rightarrow> 's \<Rightarrow> bool" where
  "kept x c contents acked s s' \<longleftrightarrow>
     (\<forall>m \<in> set (contents s). m \<in> set (contents s') \<or> st_id m \<in> set acked \<or> isMessageStaleAndClientObsolete x c m)"

lemma grows_kept: "grows contents s s' \<Longrightarrow> kept x c contents acked s s'"
  by (auto simp: grows_def kept_def)

lemma kept_refl [simp]: "kept x c contents acked s s"
  by (simp add: kept_def)

lemma kept_trans: "kept x c contents A s s1 \<Longrightarrow> kept x c contents B s1 s2 \<Longrightarrow> set A \<subseteq> set B \<Longrightarrow> kept x c contents B s s2"
  unfolding kept_def by blast

lemma kept_mono: "kept x c contents A s s1 \<Longrightarrow> set A \<subseteq> set B \<Longrightarrow> kept x c contents B s s1"
  unfolding kept_def by blast

lemma del_kept: "store_sound x contents \<Longrightarrow> kept x c contents ids s (snd (MessagesManager_del (cx_dao x) d ids s))"
  unfolding kept_def snd_MessagesManager_del by (blast dest: store_soundD(3))

text \<open>Deleting stale messages of the store loses no others, since ids are unique.\<close>

lemma del_stale_kept:
  assumes sound: "store_sound x contents" and "grows contents s s1"
    and stale: "\<forall>i \<in> set ids. \<exists>m \<in> set (contents s). st_id m = i \<and> isMessageStaleAndClientObsolete x c m"
  shows "kept x c contents acked s (snd (MessagesManager_del (cx_dao x) d ids s1))"
  unfolding kept_def
proof
  fix m assume m: "m \<in> set (contents s)"
  show "m \<in> set (contents (snd (MessagesManager_del (cx_dao x) d ids s1))) \<or> st_id m \<in> set acked
      \<or> isMessageStaleAndClientObsolete x c m"
  proof (cases "st_id m \<in> set ids")
    case True
    with stale obtain m' where m': "m' \<in> set (contents s)" "st_id m' = st_id m" "isMessageStaleAndClientObsolete x c m'"
      by blast
    have "inj_on st_id (set (contents s))" using store_soundD(1) [OF sound] by (simp add: distinct_map)
    with m m' have "m' = m" by (auto dest: inj_onD)
    with m' show ?thesis by simp
  next
    case False
    have "m \<in> set (contents s1)" using assms(2) m by (auto simp: grows_def)
    with False show ?thesis by (simp add: snd_MessagesManager_del store_soundD(3) [OF sound])
  qed
qed

text \<open>The loops over a batch only add to the store, and put on the list of deletions only ids of stale
  messages of the batch.\<close>

lemma stored_loop_facts:
  assumes "store_sound x contents" and "stored_loop x c ms s = (dels, ids, mailbox, s')"
  shows "grows contents s s'"
    and "\<forall>i \<in> set dels. \<exists>m \<in> set ms. st_id m = i \<and> isMessageStaleAndClientObsolete x c m"
proof -
  have "grows contents s (snd (snd (snd (stored_loop x c ms s))))
      \<and> (\<forall>i \<in> set (fst (stored_loop x c ms s)). \<exists>m \<in> set ms. st_id m = i \<and> isMessageStaleAndClientObsolete x c m)"
  proof (induction ms arbitrary: s)
    case (Cons m ms)
    then show ?case by (auto simp: Let_def split_beta intro: grows_trans [OF sendReceipt_grows [OF assms(1)]])
  qed simp
  with assms(2) show "grows contents s s'"
    and "\<forall>i \<in> set dels. \<exists>m \<in> set ms. st_id m = i \<and> isMessageStaleAndClientObsolete x c m" by simp_all
qed

lemma legacy_loop_facts:
  assumes "store_sound x contents" and "legacy_loop x c ms n h s = (dels, ts, s')"
  shows "grows contents s s'"
    and "\<forall>i \<in> set dels. \<exists>m \<in> set ms. st_id m = i \<and> isMessageStaleAndClientObsolete x c m"
proof -
  have "grows contents s (snd (snd (legacy_loop x c ms n h s)))
      \<and> (\<forall>i \<in> set (fst (legacy_loop x c ms n h s)). \<exists>m \<in> set ms. st_id m = i \<and> isMessageStaleAndClientObsolete x c m)"
  proof (induction ms arbitrary: s n)
    case (Cons m ms)
    then show ?case by (auto simp: Let_def split_beta intro: grows_trans [OF sendReceipt_grows [OF assms(1)]])
  qed simp
  with assms(2) show "grows contents s s'"
    and "\<forall>i \<in> set dels. \<exists>m \<in> set ms. st_id m = i \<and> isMessageStaleAndClientObsolete x c m" by simp_all
qed

lemma batch_kept:
  assumes sound: "store_sound x contents" and "grows contents s s1"
    and get: "MessagesManager_get (cx_dao x) d dev n s = (ret, ms, hasMore)"
    and "\<forall>i \<in> set dels. \<exists>m \<in> set ms. st_id m = i \<and> isMessageStaleAndClientObsolete x c m"
  shows "kept x c contents acked s (if dels \<noteq> [] then snd (MessagesManager_del (cx_dao x) u dels s1) else s1)"
proof -
  have "set ms \<subseteq> set (contents s)"
    using get_messages [of "cx_dao x" d dev n s] get store_soundD(2) [OF sound, of d dev n s] by simp
  with assms(4) have "\<forall>i \<in> set dels. \<exists>m \<in> set (contents s). st_id m = i \<and> isMessageStaleAndClientObsolete x c m" by blast
  with del_stale_kept [OF sound assms(2)] grows_kept [OF assms(2)] show ?thesis by simp
qed

lemma post_task_address [simp]: "c_address (post_task t c) = c_address c"
  by (simp add: post_task_def)

lemma fold_post_task: "fold post_task ts c = c\<lparr>c_tasks := c_tasks c @ ts\<rparr>"
  by (induction ts arbitrary: c) (simp_all add: post_task_def)

lemma stored_prepare_kept:
  assumes sound: "store_sound x contents" and "stored_prepare x (c, s) = (r, c', s')"
  shows "kept x c contents acked s s'" and "c_address c' = c_address c"
proof -
  obtain ret ms hasMore where get: "MessagesManager_get (cx_dao x) (a_uid (cx_account x True)) (a_authDeviceId (cx_account x True))
      kMaxCountDispatchOnce s = (ret, ms, hasMore)" by (metis prod_cases3)
  obtain dels ids mb s1 where loop: "stored_loop x c ms s = (dels, ids, mb, s1)" by (metis prod_cases4)
  note k = batch_kept [OF sound stored_loop_facts(1) [OF sound loop] get stored_loop_facts(2) [OF sound loop]]
  have "kept x c contents acked s (snd (snd (stored_prepare x (c, s))))
      \<and> c_address (fst (snd (stored_prepare x (c, s)))) = c_address c"
    using k [where u = "a_uid (cx_account x True)" and acked = acked]
    by (simp add: stored_prepare_def Let_def get loop split: option.splits if_splits)
  with assms(2) show "kept x c contents acked s s'" and "c_address c' = c_address c" by simp_all
qed

lemma sendStoredMessages_kept:
  assumes sound: "store_sound x contents" and "sendStoredMessages x (c, s) = (c', s')"
  shows "kept x c contents acked s s'" and "c_address c' = c_address c"
proof -
  obtain ret ms hasMore where get: "MessagesManager_get (cx_dao x) (a_uid (cx_account x True)) (a_authDeviceId (cx_account x True))
      kMaxCountDispatchOnce s = (ret, ms, hasMore)" by (metis prod_cases3)
  obtain dels ts s1 where loop: "legacy_loop x c ms (length ms) hasMore s = (dels, ts, s1)" by (metis prod_cases3)
  note k = batch_kept [OF sound legacy_loop_facts(1) [OF sound loop] get legacy_loop_facts(2) [OF sound loop]]
  have "kept x c contents acked s (snd (sendStoredMessages x (c, s))) \<and> c_address (fst (sendStoredMessages x (c, s))) = c_address c"
    using k [where u = "a_uid (cx_account x True)" and acked = acked]
    by (simp add: sendStoredMessages_def sendStoredMessagesLegacy_def Let_def get loop fold_post_task split: option.splits)
  with assms(2) show "kept x c contents acked s s'" and "c_address c' = c_address c" by simp_all
qed

lemma kept_address: "c_address c' = c_address c \<Longrightarrow> kept x c' contents A s s' = kept x c contents A s s'"
  by (simp add: kept_def isMessageStaleAndClientObsolete_def session_account_def)

text \<open>The one place where an acknowledged message is deleted and the next batch is asked for.\<close>

lemma del_then_send_kept:
  assumes "store_sound x contents"
    and "(if hasMore then sendStoredMessages x (c, s1) else (c0, s1)) = (c', s')" and "c_address c0 = c_address c"
    and "kept x c contents ids s s1"
  shows "kept x c contents ids s s'" and "c_address c' = c_address c"
  using assms(2-4) sendStoredMessages_kept [OF assms(1), of c s1 c' s'] kept_trans [OF assms(4)]
  by (auto split: if_splits)

lemma stored_response_kept:
  assumes sound: "store_sound x contents" and r: "stored_response x hasMore ids status (c, s) = (c', s')"
  shows "kept x c contents (if successful status then ids else []) s s'" and "c_address c' = c_address c"
  using r del_then_send_kept [OF sound _ post_task_address del_kept [OF sound]]
  by (auto simp: stored_response_def Let_def split: option.splits if_splits)

lemma p2p_response_kept:
  assumes sound: "store_sound x contents" and r: "p2p_response x e storageId remain status (c, s) = (c', s')"
  shows "kept x c contents (if successful status then carried (SendP2p e storageId remain) p else []) s s'
    \<and> c_address c' = c_address c"
proof (cases "successful status \<and> getAuthDevice (session_account x c) \<noteq> None \<and> cx_managerAlive x")
  case True
  let ?ids = "carried (SendP2p e storageId remain) p"
  define s1 where "s1 = (case storageId of None \<Rightarrow> s
    | Some i \<Rightarrow> snd (MessagesManager_del (cx_dao x) (a_uid (session_account x c)) [i] s))"
  have k: "kept x c contents ?ids s s1" using del_kept [OF sound] by (cases storageId) (simp_all add: s1_def)
  from True obtain d where "getAuthDevice (session_account x c) = Some d" by blast
  with r True have st: "(if remain then sendStoredMessages x (c, s1) else (c, s1)) = (c', s')"
    by (simp add: p2p_response_def Let_def s1_def split: if_splits)
  from del_then_send_kept [OF sound st refl k] True show ?thesis by simp
next
  case False
  have "grows contents s (p2p_keep x c d e (snd (republish x c status m s)))" for d m
    by (rule grows_trans [OF republish_grows [OF sound] p2p_keep_grows [OF sound]])
  with False republish_grows [OF sound]
  have "grows contents s (snd (p2p_response x e storageId remain status (c, s)))
      \<and> c_address (fst (p2p_response x e storageId remain status (c, s))) = c_address c"
    by (auto simp: p2p_response_def Let_def split_beta split: option.split)
  with r show ?thesis by (simp add: grows_kept)
qed

lemma friend_response_kept:
  assumes sound: "store_sound x contents" and r: "friend_response x m status (c, s) = (c', s')"
  shows "kept x c contents A s s' \<and> c_address c' = c_address c"
proof -
  let ?u = "da_uid (c_address c)"
  have "grows contents s (add_events x ?u DELETE_FRIEND ds (add_events x ?u FRIEND_REPLY rs
      (add_events x ?u FRIEND_REQUEST qs (snd (republish x c status msg s)))))" for ds rs qs msg
    by (intro grows_trans [OF _ add_events_grows [OF sound]] republish_grows [OF sound])
  then have "grows contents s (snd (friend_response x m status (c, s)))
      \<and> c_address (fst (friend_response x m status (c, s))) = c_address c"
    using republish_grows [OF sound]
    by (auto simp: friend_response_def Let_def split_beta split: option.split)
  with r show ?thesis by (simp add: grows_kept)
qed

lemma storedFriend_response_kept:
  assumes sound: "store_sound x contents" and r: "storedFriend_response x a b d ty status (c, s) = (c', s')"
  shows "kept x c contents A s s' \<and> c_address c' = c_address c"
proof -
  have "grows contents t (snd (del_events x uid DELETE_FRIEND d (del_events x uid FRIEND_REPLY b (del_events x uid FRIEND_REQUEST a (False, t)))))"
    for t uid
    using grows_trans [OF grows_trans] del_events_grows [OF sound] by (metis snd_conv)
  then have "grows contents s (snd (storedFriend_response x a b d ty status (c, s)))
      \<and> c_address (fst (storedFriend_response x a b d ty status (c, s))) = c_address c"
    by (simp add: storedFriend_response_def Let_def split_beta split: option.split)
  with r show ?thesis by (simp add: grows_kept)
qed

lemma task_prepare_kept:
  assumes sound: "store_sound x contents" and r: "task_prepare x t (c, s) = (q, c', s')"
  shows "kept x c contents A s s' \<and> c_address c' = c_address c"
proof (cases "t = SendStored")
  case True
  with r show ?thesis using stored_prepare_kept [OF sound] by auto
next
  case False
  with r have "s' = s" and "c' = c" by (cases t; simp)+
  then show ?thesis by simp
qed

lemma multi_response_address [simp]: "c_address (multi_response x m status c) = c_address c"
  by (simp add: multi_response_def channel_drop_def split: MultiDeviceType.split)

lemma task_response_kept:
  assumes sound: "store_sound x contents" and r: "task_response x t p status (c, s) = (c', s')"
  shows "kept x c contents (if successful status then carried t p else []) s s' \<and> c_address c' = c_address c"
proof (cases t)
  case (SendP2p e i m)
  with r p2p_response_kept [OF sound, of e i m status c s c' s' p] show ?thesis by (simp split: if_splits)
next
  case SendStored
  with r stored_response_kept [OF sound] show ?thesis by (cases p) (auto split: if_splits)
next
  case (SendStoredFriend types)
  with r storedFriend_response_kept [OF sound] show ?thesis by (cases p) auto
next
  case (SendFriend m)
  with r friend_response_kept [OF sound, of m status c s c' s'] show ?thesis by simp
qed (use r in auto)

lemma onDispatchGroupMessage_address [simp]: "c_address (onDispatchGroupMessage m c) = c_address c"
  by (simp add: onDispatchGroupMessage_def)

lemma onDispatchUnsubscribed_address [simp]: "c_address (onDispatchUnsubscribed k c) = c_address c"
  by (simp add: onDispatchUnsubscribed_def Let_def)

lemma onDispatchSubscribed_kept:
  assumes sound: "store_sound x contents" and r: "onDispatchSubscribed x (c, s) = (c', s')"
  shows "kept x c contents A s s' \<and> c_address c' = c_address c"
proof -
  let ?c = "c\<lparr>c_available := True\<rparr>"
  obtain c2 s2 where st: "sendStoredMessages x (?c, s) = (c2, s2)" by (metis surj_pair)
  have "kept x c contents A s s2" and "c_address c2 = c_address c"
    using sendStoredMessages_kept(1) [OF sound st, of A] sendStoredMessages_kept(2) [OF sound st]
    by (simp_all add: kept_address [of ?c c])
  with r show ?thesis by (auto simp: onDispatchSubscribed_def Let_def st split: if_split_asm)
qed

lemma onDispatchRedisMessage_kept:
  assumes sound: "store_sound x contents" and r: "onDispatchRedisMessage x m (c, s) = (c', s')"
  shows "kept x c contents A s s' \<and> c_address c' = c_address c"
  using r sendStoredMessages_kept [OF sound, of c s c' s']
  by (auto simp: onDispatchRedisMessage_def channel_drop_def Let_def split: option.split_asm if_split_asm PubSubType.split_asm prod.split_asm)

lemma session_step_kept:
  assumes sound: "store_sound x contents" and "session_step x a b"
  shows "kept x (ss_channel a) contents (ss_acked b) (ss_world a) (ss_world b)
    \<and> c_address (ss_channel b) = c_address (ss_channel a) \<and> set (ss_acked a) \<subseteq> set (ss_acked b)"
  using assms(2)
proof cases
  case (start_none c pre t post s c' s' ps as)
  with task_prepare_kept [OF sound start_none(4)] show ?thesis
    by (simp add: kept_address [of "c\<lparr>c_tasks := pre @ post\<rparr>" c])
next
  case (start_request c pre t post s r p c' s' ps as)
  with task_prepare_kept [OF sound start_request(4)] show ?thesis
    by (simp add: kept_address [of "c\<lparr>c_tasks := pre @ post\<rparr>" c])
next
  case (response t p status c s c' s' as' as ps1 ps2)
  with task_response_kept [OF sound response(3)] show ?thesis
    by (auto split: if_splits intro: kept_mono)
next
  case (subscribed c s c' s' ps as)
  with onDispatchSubscribed_kept [OF sound subscribed(3)] show ?thesis by simp
next
  case (redis_message m c s c' s' ps as)
  with onDispatchRedisMessage_kept [OF sound redis_message(3)] show ?thesis by simp
qed simp

section \<open>A concrete context\<close>

definition demo_device :: Device where
  "demo_device = Device_new\<lparr>d_id := 1, d_registrationId := 7, d_signalingKey := ''AAAA'',
     d_clientVersion := Some (ClientVersion_new\<lparr>cv_osType := 1, cv_bcmBuildCode := 2000\<rparr>)\<rparr>"

definition demo_user :: Account where
  "demo_user = \<lparr>a_uid = ''bob'', a_publicKey = [], a_identityKey = [], a_state = 0, a_name = [], a_avater = [], a_nickname = [], a_slaveDeviceNum = 0,
     a_ldAvatar = [], a_hdAvatar = [], a_profileKeys = [], a_privacy = None, a_contactsFilters = None,
     a_devices = [demo_device], a_authDeviceId = 1\<rparr>"

text \<open>A database with room for one message.\<close>

definition demo_slot :: "StoredMessage option StoredMessages" where
  "demo_slot = \<lparr>sd_set = (\<lambda>m s. case s of None \<Rightarrow> (Dao_Success, 1, Some m) | Some _ \<Rightarrow> (Dao_Error, 1, s)),
     sd_get = (\<lambda>d dev n s. case s of None \<Rightarrow> (Dao_NoSuchData, []) | Some m \<Rightarrow> (Dao_Success, [m])),
     sd_del = (\<lambda>d ids s. (Dao_Success, case s of None \<Rightarrow> None | Some m \<Rightarrow> if st_id m \<in> set ids then None else Some m)),
     sd_clear = (\<lambda>d s. (Dao_Success, None)), sd_clearDevice = (\<lambda>d dev s. (Dao_Success, None))\<rparr>"

definition demo_cx :: "'s StoredMessages \<Rightarrow> 's Context" where
  "demo_cx dao = \<lparr>cx_master = 1, cx_receipt = 5, cx_noise = 9, cx_ios = 2, cx_android = 1,
     cx_config = \<lparr>es_iosVersion = 0, es_androidVersion = 0, es_plainUidSupport = True\<rparr>, cx_account = (\<lambda>_. demo_user), cx_managerAlive = True, cx_now = 0,
     cx_b64dec = (\<lambda>_. replicate 60 (CHR ''k'')), cx_b64size = (\<lambda>_. 60), cx_cipher = (\<lambda>k p. ([], p)), cx_hmac = (\<lambda>k p. replicate 32 (CHR ''h'')),
     cx_envelope = env_content, cx_parseEnvelope = (\<lambda>_. None), cx_mailbox = (\<lambda>es. concat (map env_content es)),
     cx_pubsub = (\<lambda>_ c. c), cx_parsePubsub = (\<lambda>_. None), cx_multi = (\<lambda>_. None), cx_parseMulti = (\<lambda>_. None),
     cx_friend = (\<lambda>_. None), cx_friendString = (\<lambda>_. []), cx_parseFriend = (\<lambda>_. None), cx_parseEntry = (\<lambda>_ _. None),
     cx_dao = dao, cx_publish = (\<lambda>_ _ _ s. (0, s)), cx_push = (\<lambda>_ _ s. s), cx_addFriendEvent = (\<lambda>_ _ _ s. (Dao_Success, s)),
     cx_getFriendEvents = (\<lambda>_ _ _ s. (Dao_NoSuchData, [])), cx_delFriendEvents = (\<lambda>_ _ _ s. (Dao_Success, s))\<rparr>"

definition demo_message :: StoredMessage where
  "demo_message = (store_message ''bob'' 1 7 (Envelope_new\<lparr>env_source := ''amy'', env_content := ''hi''\<rparr>))\<lparr>st_id := 3\<rparr>"

definition demo_channel :: Channel where
  "demo_channel = (DispatchChannel_new 4096 \<lparr>da_uid = ''bob'', da_deviceid = 1\<rparr> False)\<lparr>c_tasks := [SendStored]\<rparr>"

definition demo_session :: "StoredMessage option Session" where
  "demo_session = \<lparr>ss_channel = demo_channel, ss_world = Some demo_message, ss_pending = [], ss_acked = []\<rparr>"

definition slot_contents :: "StoredMessage option \<Rightarrow> StoredMessage list" where
  "slot_contents s = (case s of None \<Rightarrow> [] | Some m \<Rightarrow> [m])"

lemma demo_sound: "store_sound (demo_cx demo_slot) slot_contents"
  by (auto simp: store_sound_def grows_def demo_cx_def demo_slot_def slot_contents_def split: option.splits)


section \<open>Properties\<close>

text \<open>C1. No stored message is lost: in every interleaving of the tasks, responses and events of a
  session, a message that leaves the store was carried by a request which the device answered with
  success, or it was encrypted for an earlier registration of a device that cannot be told so (it is
  stale and its sender was sent a receipt saying so). This assumes of the database that ids are unique,
  that it returns stored messages, and that it deletes only what it is told to.\<close>

theorem stored_not_lost:
  assumes "store_sound x contents" and "session_run x a b" and "m \<in> set (contents (ss_world a))"
  shows "m \<in> set (contents (ss_world b)) \<or> st_id m \<in> set (ss_acked b)
    \<or> isMessageStaleAndClientObsolete x (ss_channel a) m"
proof -
  from assms(2) have "kept x (ss_channel a) contents (ss_acked b) (ss_world a) (ss_world b)
      \<and> c_address (ss_channel b) = c_address (ss_channel a)"
  proof induction
    case (run_step a b d)
    from session_step_kept [OF assms(1) run_step.hyps(2)] run_step.IH show ?case
      by (auto simp: kept_address [of "ss_channel b" "ss_channel a"] intro: kept_trans)
  qed simp
  with assms(3) show ?thesis by (auto simp: kept_def)
qed

lemma prepared: "map_option snd (fst t) = Some p \<Longrightarrow> snd t = u \<Longrightarrow> \<exists>r. t = (Some (r, p), u)"
  by (cases t) auto

theorem stored_not_lost_witness:
  "\<exists>b. session_run (demo_cx demo_slot) demo_session b \<and> slot_contents (ss_world b) = [] \<and> st_id demo_message \<in> set (ss_acked b)"
proof -
  let ?x = "demo_cx demo_slot" and ?c = "demo_channel\<lparr>c_tasks := []\<rparr>"
  define mb where "mb = PassMailbox False [MessagesManager_convert demo_message] [3]"
  define b where "b = \<lparr>ss_channel = post_task SendEmpty ?c, ss_world = None :: StoredMessage option, ss_pending = [], ss_acked = [3]\<rparr>"
  have "map_option snd (fst (task_prepare ?x SendStored (?c, Some demo_message))) = Some mb"
    and "snd (task_prepare ?x SendStored (?c, Some demo_message)) = (?c, Some demo_message)"
    unfolding mb_def by code_simp+
  then obtain r where p: "task_prepare ?x SendStored (?c, Some demo_message) = (Some (r, mb), ?c, Some demo_message)"
    by (rule prepared [THEN exE])
  have q: "task_response ?x SendStored mb 200 (?c, Some demo_message) = (post_task SendEmpty ?c, None)"
    unfolding mb_def by code_simp
  have tasks: "c_tasks demo_channel = [] @ SendStored # []" by code_simp
  have s1: "session_step ?x demo_session \<lparr>ss_channel = ?c, ss_world = Some demo_message, ss_pending = [] @ [(SendStored, mb)], ss_acked = []\<rparr>"
    unfolding demo_session_def by (rule start_request [OF tasks]) (use p in simp)
  have s2: "session_step ?x \<lparr>ss_channel = ?c, ss_world = Some demo_message, ss_pending = [] @ [(SendStored, mb)], ss_acked = []\<rparr> b"
    unfolding b_def using response [OF q refl, of "[]" "[]" "[]"] by (simp add: successful_def mb_def)
  have run: "session_run ?x demo_session b"
    by (rule run_step [OF run_step [OF run_refl s1] s2])
  have "\<not> isMessageStaleAndClientObsolete ?x (ss_channel demo_session) demo_message" by code_simp
  moreover have "demo_message \<in> set (slot_contents (ss_world demo_session))"
    by (simp add: demo_session_def slot_contents_def)
  moreover have "slot_contents (ss_world b) = []" by (simp add: b_def slot_contents_def)
  ultimately show ?thesis using stored_not_lost [OF demo_sound run] run by auto
qed

section \<open>Running the tasks of a channel in order\<close>

text \<open>The tasks one after the other, each request answered with the status that \<open>resp\<close> gives: the
  requests sent and the final state. The fuel bounds the number of tasks run.\<close>

fun run_tasks :: "'s Context \<Rightarrow> (Request \<Rightarrow> nat) \<Rightarrow> nat \<Rightarrow> Channel \<times> 's \<Rightarrow> Request list \<times> Channel \<times> 's" where
  "run_tasks x resp 0 st = ([], st)"
| "run_tasks x resp (Suc n) (c, s) =
     (case c_tasks c of
        [] \<Rightarrow> ([], c, s)
      | t # ts \<Rightarrow>
          (case task_prepare x t (c\<lparr>c_tasks := ts\<rparr>, s) of
             (None, st') \<Rightarrow> run_tasks x resp n st'
           | (Some (r, p), st') \<Rightarrow>
               (let (rs, st'') = run_tasks x resp n (task_response x t p (resp r) st') in (r # rs, st''))))"

lemma run_tasks_request:
  "c_tasks c = t # ts \<Longrightarrow> task_prepare x t (c\<lparr>c_tasks := ts\<rparr>, s) = (Some (r, p), st') \<Longrightarrow> task_response x t p (resp r) st' = st'' \<Longrightarrow>
   run_tasks x resp (Suc n) (c, s) = (r # fst (run_tasks x resp n st''), snd (run_tasks x resp n st''))"
  by (simp add: split_beta Let_def)

lemma stored_loop_fresh:
  "\<forall>m \<in> set ms. \<not> isMessageStaleAndClientObsolete x c m \<Longrightarrow>
   stored_loop x c ms s = ([], map st_id ms, map MessagesManager_convert ms, s)"
  by (induction ms) (simp_all add: Let_def)

lemma filter_taken:
  "distinct (map st_id ms) \<Longrightarrow> filter (\<lambda>m. st_id m \<notin> st_id ` set (take n ms)) ms = drop n ms"
proof -
  assume d: "distinct (map st_id ms)"
  have "distinct (map st_id (take n ms) @ map st_id (drop n ms))" using d by (simp flip: map_append)
  then have "\<forall>m \<in> set (drop n ms). st_id m \<notin> st_id ` set (take n ms)" unfolding distinct_append by auto
  then have "filter (\<lambda>m. st_id m \<notin> st_id ` set (take n ms)) (take n ms @ drop n ms) = drop n ms"
    by (subst filter_append) (simp add: filter_empty_conv filter_id_conv)
  then show ?thesis by (simp only: append_take_drop_id)
qed

lemma session_account_tasks [simp]: "session_account x (c\<lparr>c_tasks := ts\<rparr>) = session_account x c"
  by (simp add: session_account_def)

lemma stale_tasks [simp]:
  "isMessageStaleAndClientObsolete x (c\<lparr>c_tasks := ts\<rparr>) m = isMessageStaleAndClientObsolete x c m"
  by (simp add: isMessageStaleAndClientObsolete_def)

lemma batch_tasks [simp]: "isSupportDispatchBatch x (c\<lparr>c_tasks := ts\<rparr>) = isSupportDispatchBatch x c"
  by (simp add: isSupportDispatchBatch_def)

text \<open>What the store of one device promises: reading returns its first messages, and deleting removes
  exactly the ids given.\<close>

definition exact_store :: "'s Context \<Rightarrow> ('s \<Rightarrow> StoredMessage list) \<Rightarrow> bool" where
  "exact_store x contents \<longleftrightarrow>
     (\<forall>s n. sd_get (cx_dao x) (a_uid (cx_account x True)) (a_authDeviceId (cx_account x True)) n s
              = (if contents s = [] then Dao_NoSuchData else Dao_Success, take n (contents s)))
   \<and> (\<forall>s ids. contents (snd (sd_del (cx_dao x) (a_uid (cx_account x True)) ids s))
              = filter (\<lambda>m. st_id m \<notin> set ids) (contents s))"

definition mailbox_request :: "'s Context \<Rightarrow> Device \<Rightarrow> StoredMessage list \<Rightarrow> Request" where
  "mailbox_request x device ms = \<lparr>rq_verb = ''PUT'', rq_path = ''/api/v1/messages'',
     rq_body = the (encrypt x (d_signalingKey device) (cx_mailbox x (map MessagesManager_convert ms)))\<rparr>"

text \<open>One round: either there was nothing and the device is told so, or the first messages are sent,
  deleted, and the next round or the end is posted.\<close>

lemma stored_round_empty:
  assumes "getAuthDevice (cx_account x True) = Some device" and "cx_managerAlive x" and "exact_store x contents"
    and "contents s = []"
  shows "stored_prepare x (c, s) = (None, post_task SendEmpty c, s)"
  using assms by (simp add: stored_prepare_def exact_store_def MessagesManager_get_def Let_def)

lemma stored_round:
  assumes dev: "getAuthDevice (cx_account x True) = Some device" and alive: "cx_managerAlive x" and ex: "exact_store x contents"
    and ne: "contents s \<noteq> []" and fresh: "\<forall>m \<in> set (contents s). \<not> isMessageStaleAndClientObsolete x c m"
    and enc: "\<forall>p. encrypt x (d_signalingKey device) p \<noteq> None" and batch: "isSupportDispatchBatch x c"
    and dist: "distinct (map st_id (contents s))" and ok: "successful status"
  shows "\<exists>p s'. stored_prepare x (c, s) = (Some (mailbox_request x device (take 50 (contents s)), p), c, s)
    \<and> task_response x SendStored p status (c, s) = (post_task (if 50 \<le> length (contents s) then SendStored else SendEmpty) c, s')
    \<and> contents s' = drop 50 (contents s)"
proof -
  let ?ms = "take 50 (contents s)" and ?u = "a_uid (cx_account x True)"
  have get: "MessagesManager_get (cx_dao x) ?u (a_authDeviceId (cx_account x True)) kMaxCountDispatchOnce s
      = (True, ?ms, 50 \<le> length (contents s))"
    using ex ne by (simp add: exact_store_def MessagesManager_get_def Let_def kMaxCountDispatchOnce_def)
  have loop: "stored_loop x c ?ms s = ([], map st_id ?ms, map MessagesManager_convert ?ms, s)"
    by (rule stored_loop_fresh) (use fresh in \<open>auto dest: in_set_takeD\<close>)
  obtain q where q: "encrypt x (d_signalingKey device) (cx_mailbox x (map MessagesManager_convert ?ms)) = Some q"
    using enc by blast
  let ?p = "PassMailbox (50 \<le> length (contents s)) (map MessagesManager_convert ?ms) (map st_id ?ms)"
  let ?s = "snd (MessagesManager_del (cx_dao x) ?u (map st_id ?ms) s)"
  have "stored_prepare x (c, s) = (Some (mailbox_request x device ?ms, ?p), c, s)"
    using ne q by (simp add: stored_prepare_def Let_def dev alive get loop mailbox_request_def)
  moreover have "task_response x SendStored ?p status (c, s) = (post_task (if 50 \<le> length (contents s) then SendStored else SendEmpty) c, ?s)"
    using batch by (simp add: stored_response_def sendStoredMessages_def Let_def dev alive ok)
  moreover have "contents ?s = drop 50 (contents s)"
    using ex filter_taken [OF dist] by (simp add: snd_MessagesManager_del exact_store_def)
  ultimately show ?thesis by blast
qed


definition demo_list_store :: "StoredMessage list StoredMessages" where
  "demo_list_store = \<lparr>sd_set = (\<lambda>m s. (Dao_Success, 1, s @ [m])),
     sd_get = (\<lambda>d dev n s. (if s = [] then Dao_NoSuchData else Dao_Success, take n s)),
     sd_del = (\<lambda>d ids s. (Dao_Success, filter (\<lambda>m. st_id m \<notin> set ids) s)),
     sd_clear = (\<lambda>d s. (Dao_Success, [])), sd_clearDevice = (\<lambda>d dev s. (Dao_Success, []))\<rparr>"


lemma legacy_loop_posts:
  assumes "length (filter (\<lambda>m. \<not> isMessageStaleAndClientObsolete x c m) ms) \<le> n"
  shows "((\<exists>e i. SendP2p e i True \<in> set (fst (snd (legacy_loop x c ms n hasMore s))))
      \<longleftrightarrow> hasMore \<and> 0 < n \<and> length (filter (\<lambda>m. \<not> isMessageStaleAndClientObsolete x c m) ms) = n)
    \<and> SendEmpty \<notin> set (fst (snd (legacy_loop x c ms n hasMore s)))"
  using assms
proof (induction ms arbitrary: n s)
  case (Cons m ms)
  show ?case
  proof (cases "isMessageStaleAndClientObsolete x c m")
    case True
    with Cons show ?thesis by (simp add: Let_def split_beta)
  next
    case False
    then obtain k where n: "n = Suc k" using Cons.prems by (cases n) auto
    with False Cons.IH [of k s] Cons.prems show ?thesis by (auto simp: Let_def split_beta)
  qed
qed auto

text \<open>The one-by-one protocol stops at a stale message: when a batch was full, so that more messages
  may be waiting, the task that asks for the next batch is posted exactly when no message of the batch
  is stale, and the device is not told that the queue is empty either. With a stale message in the batch
  the messages behind it wait until the device connects again.\<close>

lemma legacy_continues_iff:
  assumes "getAuthDevice (cx_account x True) \<noteq> None" and "cx_managerAlive x"
    and get: "MessagesManager_get (cx_dao x) (a_uid (cx_account x True)) (a_authDeviceId (cx_account x True)) kMaxCountDispatchOnce s
      = (True, ms, True)"
  shows "\<exists>ts. c_tasks (fst (sendStoredMessagesLegacy x (c, s))) = c_tasks c @ ts
    \<and> ((\<exists>e i. SendP2p e i True \<in> set ts) \<longleftrightarrow> (\<forall>m \<in> set ms. \<not> isMessageStaleAndClientObsolete x c m))
    \<and> SendEmpty \<notin> set ts"
proof -
  let ?ns = "\<lambda>m. \<not> isMessageStaleAndClientObsolete x c m"
  obtain d ts s1 where loop: "legacy_loop x c ms (length ms) True s = (d, ts, s1)" by (metis prod_cases3)
  have ne: "ms \<noteq> []" using get_hasMore_length [OF get] by (auto simp: kMaxCountDispatchOnce_def)
  have "length (filter ?ns ms) = length ms \<longleftrightarrow> (\<forall>m \<in> set ms. ?ns m)"
    by (metis filter_id_conv length_filter_less order_less_irrefl)
  with legacy_loop_posts [of x c ms "length ms" True s] loop ne
  have "((\<exists>e i. SendP2p e i True \<in> set ts) \<longleftrightarrow> (\<forall>m \<in> set ms. ?ns m)) \<and> SendEmpty \<notin> set ts"
    by (simp add: length_filter_le)
  moreover have "c_tasks (fst (sendStoredMessagesLegacy x (c, s))) = c_tasks c @ ts"
    using assms(1,2) ne by (auto simp: sendStoredMessagesLegacy_def Let_def get loop fold_post_task)
  ultimately show ?thesis by blast
qed

definition demo_batch :: "StoredMessage list" where
  "demo_batch = map (\<lambda>i. demo_message\<lparr>st_id := of_nat i\<rparr>) [0..<50]"

theorem legacy_continues_iff_witness:
  "\<exists>ts. c_tasks (fst (sendStoredMessagesLegacy (demo_cx demo_list_store) (demo_channel, demo_batch))) = SendStored # ts
    \<and> (\<exists>e i. SendP2p e i True \<in> set ts)"
proof -
  let ?x = "demo_cx demo_list_store"
  have "MessagesManager_get (cx_dao ?x) u d kMaxCountDispatchOnce demo_batch = (True, demo_batch, True)" for u d
    by (simp add: MessagesManager_get_def Let_def demo_cx_def demo_list_store_def kMaxCountDispatchOnce_def demo_batch_def)
  moreover have "getAuthDevice (cx_account ?x True) \<noteq> None" "cx_managerAlive ?x"
    by (simp_all add: demo_cx_def demo_user_def getAuthDevice_def demo_device_def Device_new_def)
  ultimately obtain ts where ts: "c_tasks (fst (sendStoredMessagesLegacy ?x (demo_channel, demo_batch))) = c_tasks demo_channel @ ts"
    "(\<exists>e i. SendP2p e i True \<in> set ts) \<longleftrightarrow> (\<forall>m \<in> set demo_batch. \<not> isMessageStaleAndClientObsolete ?x demo_channel m)"
    using legacy_continues_iff [of ?x demo_batch demo_batch demo_channel] by blast
  have "\<not> isMessageStaleAndClientObsolete ?x demo_channel (demo_message\<lparr>st_id := i\<rparr>)" for i
    by (simp add: isMessageStaleAndClientObsolete_def isClientVersionSupportEncryptSender_def demo_message_def
      store_message_def session_account_def demo_cx_def demo_user_def getAuthDevice_def demo_device_def Device_new_def)
  with ts show ?thesis by (auto simp: demo_batch_def demo_channel_def)
qed

end
