(* ===== verification/Dispatch_Manager.thy ===== *)
theory Dispatch_Manager
  imports Dispatch_Channel Std_Map
begin

text \<open>
  \<open>src/dispatcher/dispatch_manager.cpp\<close>: which channel serves which address. Channels are objects
  on a heap, under their identities (the addresses of the objects in memory); the map from addresses
  to dispatchers holds identities, and its key is the serialized address, by which the source orders it.
  Calls to Redis and to the listeners are entries of a log. Messages for channels wait in a queue that a
  bridge thread empties: \<open>dispatch_batch\<close> is one turn of its loop. Every public operation is one
  step, and the order of steps is arbitrary. Each channel has its own context (its session).
\<close>

section \<open>State\<close>

datatype MessageType =
    TYPE_REDIS_CONNECTED | TYPE_REDIS_DISCONNECTED | TYPE_REDIS_SUBSCRIBED | TYPE_REDIS_UNSUBSCRIBED | TYPE_REDIS_MESSAGE
  | TYPE_GROUP_MESSAGE

record Message =
  mg_type :: MessageType
  mg_address :: "DispatchAddress option"
  mg_content :: string

datatype manager_call =
    Publish DispatchAddress string
  | DeleteBadge string
  | PublishOnline string string
  | RedisSubscribe string string
  | RedisUnsubscribe string string
  | UserOnline nat DispatchAddress
  | UserOffline nat DispatchAddress

record 's Manager =
  dm_dispatchers :: "(string \<times> u64) list"
  dm_channels :: "u64 \<Rightarrow> Channel option"
  dm_listeners :: "nat list"
  dm_queue :: "Message list"
  dm_calls :: "manager_call list"
  dm_world :: 's

definition Manager_new :: "'s \<Rightarrow> 's Manager" where
  "Manager_new s = \<lparr>dm_dispatchers = [], dm_channels = Map.empty, dm_listeners = [], dm_queue = [], dm_calls = [], dm_world = s\<rparr>"

definition call_out :: "manager_call \<Rightarrow> 's Manager \<Rightarrow> 's Manager" where
  "call_out e m = m\<lparr>dm_calls := dm_calls m @ [e]\<rparr>"

section \<open>The table of dispatchers\<close>

definition getDispatcher :: "DispatchAddress \<Rightarrow> 's Manager \<Rightarrow> u64 option" where
  "getDispatcher address m = map_of (dm_dispatchers m) (getSerialized address)"

definition replaceDispatcher :: "DispatchAddress \<Rightarrow> u64 \<Rightarrow> 's Manager \<Rightarrow> u64 option \<times> 's Manager" where
  "replaceDispatcher address dispatcher m =
     (map_of (dm_dispatchers m) (getSerialized address),
      m\<lparr>dm_dispatchers := sm_put (getSerialized address) dispatcher (dm_dispatchers m)\<rparr>)"

text \<open>\<open>dispatcher->getIdentity()\<close> is the pointer itself; \<open>UINT64_MAX\<close> stands for any.\<close>

definition delDispatcher :: "DispatchAddress \<Rightarrow> u64 \<Rightarrow> 's Manager \<Rightarrow> u64 option \<times> 's Manager" where
  "delDispatcher address dispatcherId m =
     (case map_of (dm_dispatchers m) (getSerialized address) of
        None \<Rightarrow> (None, m)
      | Some dispatcher \<Rightarrow>
          if dispatcherId \<noteq> 0xFFFFFFFFFFFFFFFF \<and> dispatcherId \<noteq> dispatcher then (None, m)
          else (Some dispatcher, m\<lparr>dm_dispatchers := sm_del (getSerialized address) (dm_dispatchers m)\<rparr>))"

definition getDispatchCount :: "'s Manager \<Rightarrow> nat" where
  "getDispatchCount m = length (dm_dispatchers m)"

section \<open>Calling a channel\<close>

definition on_channel :: "u64 \<Rightarrow> (Channel \<times> 's \<Rightarrow> Channel \<times> 's) \<Rightarrow> 's Manager \<Rightarrow> 's Manager" where
  "on_channel i f m =
     (case dm_channels m i of
        None \<Rightarrow> m
      | Some c \<Rightarrow> (let (c', s') = f (c, dm_world m) in m\<lparr>dm_channels := (dm_channels m)(i \<mapsto> c'), dm_world := s'\<rparr>))"

definition unsubscribe_channel :: "u64 \<Rightarrow> bool \<Rightarrow> 's Manager \<Rightarrow> 's Manager" where
  "unsubscribe_channel i kicking m = on_channel i (\<lambda>(c, s). (onDispatchUnsubscribed kicking c, s)) m"

fun status_loop :: "nat list \<Rightarrow> DispatchAddress \<Rightarrow> bool \<Rightarrow> 's Manager \<Rightarrow> 's Manager" where
  "status_loop [] address bOnline m = m"
| "status_loop (listener # ls) address bOnline m =
     status_loop ls address bOnline
       (call_out (if bOnline then UserOnline listener address else UserOffline listener address) m)"

definition onUserStatusChange :: "DispatchAddress \<Rightarrow> bool \<Rightarrow> 's Manager \<Rightarrow> 's Manager" where
  "onUserStatusChange address bOnline m = status_loop (dm_listeners m) address bOnline m"

definition registerUserStatusListener :: "nat \<Rightarrow> 's Manager \<Rightarrow> 's Manager" where
  "registerUserStatusListener l m = m\<lparr>dm_listeners := sort (if l \<in> set (dm_listeners m) then dm_listeners m else l # dm_listeners m)\<rparr>"

definition unregisterUserStatusListener :: "nat \<Rightarrow> 's Manager \<Rightarrow> 's Manager" where
  "unregisterUserStatusListener l m = m\<lparr>dm_listeners := filter (\<lambda>k. k \<noteq> l) (dm_listeners m)\<rparr>"

section \<open>Subscribing\<close>

text \<open>\<open>newId\<close> is the identity of the channel that is allocated. The answers of Redis are only
  logged by the source.\<close>

definition subscribe :: "(u64 \<Rightarrow> 's Context) \<Rightarrow> DispatchAddress \<Rightarrow> u64 \<Rightarrow> bool \<Rightarrow> 's Manager \<Rightarrow> u64 \<times> 's Manager" where
  "subscribe X address newId requestIdAuth m =
     (let m0 = m\<lparr>dm_channels := (dm_channels m)(newId \<mapsto> DispatchChannel_new newId address requestIdAuth)\<rparr>;
          (oldDispatcher, m1) = replaceDispatcher address newId m0;
          connectNotify = cx_pubsub (X newId) CONNECTED (to_dec (unat newId));
          m2 = call_out (Publish address connectNotify) m1;
          m3 = call_out (DeleteBadge (da_uid address)) m2;
          m4 = call_out (PublishOnline (getSerializedForOnlineNotify address) connectNotify) m3;
          m5 = call_out (RedisSubscribe (da_uid address) (getSerialized address)) m4;
          m6 = onUserStatusChange address True m5;
          m7 = (case oldDispatcher of None \<Rightarrow> m6 | Some old \<Rightarrow> unsubscribe_channel old True m6)
      in (newId, m7))"

definition unsubscribe :: "DispatchAddress \<Rightarrow> u64 \<Rightarrow> 's Manager \<Rightarrow> 's Manager" where
  "unsubscribe address dispatcherId m =
     (case delDispatcher address dispatcherId m of
        (None, m1) \<Rightarrow> m1
      | (Some dispatcher, m1) \<Rightarrow>
          onUserStatusChange address False
            (unsubscribe_channel dispatcher False
              (call_out (RedisUnsubscribe (da_uid address) (getSerialized address)) m1)))"

definition kick :: "DispatchAddress \<Rightarrow> 's Manager \<Rightarrow> 's Manager" where
  "kick address m =
     (let m0 = call_out (RedisUnsubscribe (da_uid address) (getSerialized address)) m
      in case delDispatcher address 0xFFFFFFFFFFFFFFFF m0 of
           (None, m1) \<Rightarrow> m1
         | (Some dispatcher, m1) \<Rightarrow> onUserStatusChange address False (unsubscribe_channel dispatcher True m1))"

section \<open>The queue\<close>

definition enqueueMessage :: "Message \<Rightarrow> 's Manager \<Rightarrow> 's Manager" where
  "enqueueMessage message m = m\<lparr>dm_queue := dm_queue m @ [message]\<rparr>"

definition enqueueMessages :: "Message list \<Rightarrow> 's Manager \<Rightarrow> 's Manager" where
  "enqueueMessages messages m = m\<lparr>dm_queue := dm_queue m @ messages\<rparr>"

definition onSubscribe :: "string \<Rightarrow> 's Manager \<Rightarrow> 's Manager" where
  "onSubscribe serializedAddress m =
     (if serializedAddress = [] then m
      else case deserialize serializedAddress of
             None \<Rightarrow> m
           | Some address \<Rightarrow> enqueueMessage \<lparr>mg_type = TYPE_REDIS_SUBSCRIBED, mg_address = Some address, mg_content = []\<rparr> m)"

definition onMessage :: "string \<Rightarrow> string \<Rightarrow> 's Manager \<Rightarrow> 's Manager" where
  "onMessage serializedAddress serializedMessage m =
     (if serializedAddress = [] \<or> serializedMessage = [] then m
      else case deserialize serializedAddress of
             None \<Rightarrow> m
           | Some address \<Rightarrow>
               enqueueMessage \<lparr>mg_type = TYPE_REDIS_MESSAGE, mg_address = Some address, mg_content = serializedMessage\<rparr> m)"

definition group_message :: "string \<Rightarrow> DispatchAddress \<Rightarrow> Message" where
  "group_message message destination = \<lparr>mg_type = TYPE_GROUP_MESSAGE, mg_address = Some destination, mg_content = message\<rparr>"

definition sendGroupMessage :: "DispatchAddress list \<Rightarrow> string \<Rightarrow> 's Manager \<Rightarrow> 's Manager" where
  "sendGroupMessage destinations message m =
     (if destinations = [] \<or> message = [] then m
      else enqueueMessages (map (group_message message) destinations) m)"

text \<open>The destinations of each message are a \<open>std::set\<close>: a sorted list here. Null pointers are
  \<open>None\<close>.\<close>

definition group_queue :: "(DispatchAddress list option \<times> string option) list \<Rightarrow> Message list" where
  "group_queue messages =
     concat (map (\<lambda>(ds, msg). case (ds, msg) of
                    (Some destinations, Some message) \<Rightarrow> map (group_message message) destinations
                  | _ \<Rightarrow> []) messages)"

definition sendGroupMessages :: "(DispatchAddress list option \<times> string option) list \<Rightarrow> 's Manager \<Rightarrow> 's Manager" where
  "sendGroupMessages messages m =
     (if messages = [] then m
      else if group_queue messages = [] then m
      else enqueueMessages (group_queue messages) m)"

definition dispatch_message :: "(u64 \<Rightarrow> 's Context) \<Rightarrow> Message \<Rightarrow> 's Manager \<Rightarrow> 's Manager" where
  "dispatch_message X message m =
     (case mg_address message of
        None \<Rightarrow> m
      | Some address \<Rightarrow>
          (case getDispatcher address m of
             None \<Rightarrow> m
           | Some dispatcher \<Rightarrow>
               (case mg_type message of
                  TYPE_REDIS_CONNECTED \<Rightarrow> m
                | TYPE_REDIS_DISCONNECTED \<Rightarrow> m
                | TYPE_REDIS_SUBSCRIBED \<Rightarrow> on_channel dispatcher (onDispatchSubscribed (X dispatcher)) m
                | TYPE_REDIS_UNSUBSCRIBED \<Rightarrow> unsubscribe_channel dispatcher False m
                | TYPE_REDIS_MESSAGE \<Rightarrow> on_channel dispatcher (onDispatchRedisMessage (X dispatcher) (mg_content message)) m
                | TYPE_GROUP_MESSAGE \<Rightarrow> on_channel dispatcher (\<lambda>(c, s). (onDispatchGroupMessage (mg_content message) c, s)) m)))"

text \<open>One turn of the loop of \<open>dispatchMessages\<close>: the queue is taken as a whole and its messages
  are handled in order. On an empty queue the thread waits.\<close>

definition dispatch_batch :: "(u64 \<Rightarrow> 's Context) \<Rightarrow> 's Manager \<Rightarrow> 's Manager" where
  "dispatch_batch X m = fold (dispatch_message X) (dm_queue m) (m\<lparr>dm_queue := []\<rparr>)"

section \<open>Steps\<close>

datatype manager_op =
    Subscribe DispatchAddress u64 bool
  | Unsubscribe DispatchAddress u64
  | Kick DispatchAddress
  | OnSubscribe string
  | OnMessage string string
  | SendGroups "(DispatchAddress list option \<times> string option) list"
  | DispatchBatch
  | TaskStarts u64 task
  | TaskAnswered u64 task passing nat
  | Destroy u64

fun manager_step :: "(u64 \<Rightarrow> 's Context) \<Rightarrow> manager_op \<Rightarrow> 's Manager \<Rightarrow> 's Manager" where
  "manager_step X (Subscribe a i auth) m = snd (subscribe X a i auth m)"
| "manager_step X (Unsubscribe a i) m = unsubscribe a i m"
| "manager_step X (Kick a) m = kick a m"
| "manager_step X (OnSubscribe ch) m = onSubscribe ch m"
| "manager_step X (OnMessage ch msg) m = onMessage ch msg m"
| "manager_step X (SendGroups ms) m = sendGroupMessages ms m"
| "manager_step X DispatchBatch m = dispatch_batch X m"
| "manager_step X (TaskStarts i t) m = on_channel i (\<lambda>st. snd (task_prepare (X i) t st)) m"
| "manager_step X (TaskAnswered i t p status) m = on_channel i (task_response (X i) t p status) m"
| "manager_step X (Destroy i) m = m\<lparr>dm_channels := (dm_channels m)(i := None)\<rparr>"

text \<open>A channel is allocated where no other object is, and destroyed when the table no longer holds it.\<close>

fun fresh_op :: "manager_op \<Rightarrow> 's Manager \<Rightarrow> bool" where
  "fresh_op (Subscribe a i auth) m \<longleftrightarrow> dm_channels m i = None"
| "fresh_op (Destroy i) m \<longleftrightarrow> i \<notin> snd ` set (dm_dispatchers m)"
| "fresh_op op m \<longleftrightarrow> True"

inductive reachable :: "(u64 \<Rightarrow> 's Context) \<Rightarrow> 's Manager \<Rightarrow> bool" for X :: "u64 \<Rightarrow> 's Context" where
  reach_new: "reachable X (Manager_new s)"
| reach_step: "reachable X m \<Longrightarrow> fresh_op op m \<Longrightarrow> reachable X (manager_step X op m)"

section \<open>Lemmas: what a channel keeps\<close>

text \<open>Apart from the acknowledgement of its subscription, nothing makes a channel available, and nothing
  changes its identity or its address.\<close>

definition quiet :: "(Channel \<times> 's \<Rightarrow> Channel \<times> 's) \<Rightarrow> bool" where
  "quiet f \<longleftrightarrow> (\<forall>c s. c_identity (fst (f (c, s))) = c_identity c \<and> c_address (fst (f (c, s))) = c_address c
     \<and> (c_available (fst (f (c, s))) \<longrightarrow> c_available c))"

definition tasks_only :: "Channel \<Rightarrow> Channel \<Rightarrow> bool" where
  "tasks_only c c' \<longleftrightarrow> (\<exists>ts. c' = c\<lparr>c_tasks := ts\<rparr>)"

lemma tasks_only_refl [simp]: "tasks_only c c"
  unfolding tasks_only_def by (rule exI [of _ "c_tasks c"]) simp

lemma tasks_only_post [simp]: "tasks_only c (post_task t c') = tasks_only c c'"
  unfolding tasks_only_def post_task_def by (metis Channel.surjective Channel.update_convs(6))

lemma tasks_only_fold [simp]: "tasks_only c (fold post_task ts c)"
  unfolding tasks_only_def fold_post_task by blast

lemma tasks_onlyD:
  "tasks_only c c' \<Longrightarrow> c_identity c' = c_identity c \<and> c_address c' = c_address c \<and> c_available c' = c_available c"
  by (auto simp: tasks_only_def)

lemma sendStoredMessages_tasks: "tasks_only c (fst (sendStoredMessages x (c, s)))"
  by (simp add: sendStoredMessages_def sendStoredMessagesLegacy_def Let_def split_beta split: option.split)

lemma stored_prepare_tasks: "tasks_only c (fst (snd (stored_prepare x (c, s))))"
  by (simp add: stored_prepare_def Let_def split_beta split: option.split)

lemma stored_response_tasks: "tasks_only c (fst (stored_response x h ids status (c, s)))"
  by (simp add: stored_response_def Let_def sendStoredMessages_tasks split: option.split)

lemma p2p_response_tasks: "tasks_only c (fst (p2p_response x e i r status (c, s)))"
  by (simp add: p2p_response_def Let_def split_beta sendStoredMessages_tasks split: option.split)

lemma friend_response_tasks:
  "tasks_only c (fst (friend_response x fm status (c, s)))"
  "tasks_only c (fst (storedFriend_response x a b d ty status (c, s)))"
  by (simp_all add: friend_response_def storedFriend_response_def Let_def split_beta split: option.split)

lemma quietI: "(\<And>c s. tasks_only c (fst (f (c, s)))) \<Longrightarrow> quiet f"
  by (auto simp: quiet_def dest: tasks_onlyD)

lemma quiet_prepare: "quiet (\<lambda>st. snd (task_prepare x t st))"
  by (rule quietI) (cases t; simp add: stored_prepare_tasks)

lemma quiet_drop: "quiet (\<lambda>st. (multi_response x m status (fst st), snd st))"
  by (simp add: quiet_def multi_response_def channel_drop_def split: MultiDeviceType.split)

lemma quiet_response: "quiet (task_response x t p status)"
proof (cases t)
  case (SendMulti m)
  then have "task_response x t p status = (\<lambda>st. (multi_response x m status (fst st), snd st))" by (simp add: fun_eq_iff)
  then show ?thesis using quiet_drop by simp
qed (cases p; rule quietI; simp add: stored_response_tasks p2p_response_tasks friend_response_tasks)+

lemma sendStoredMessages_same [simp]:
  "c_identity (fst (sendStoredMessages x (c, s))) = c_identity c"
  "c_address (fst (sendStoredMessages x (c, s))) = c_address c"
  "c_available (fst (sendStoredMessages x (c, s))) = c_available c"
  using tasks_onlyD [OF sendStoredMessages_tasks [of c x s]] by simp_all

lemma quiet_redis: "quiet (onDispatchRedisMessage x msg)"
  by (simp add: quiet_def onDispatchRedisMessage_def onDispatchGroupMessage_def channel_drop_def post_task_def Let_def
      split: option.split PubSubType.split)

lemma quiet_group: "quiet (\<lambda>(c, s). (onDispatchGroupMessage msg c, s))"
  by (simp add: quiet_def onDispatchGroupMessage_def post_task_def)

lemma quiet_unsubscribed: "quiet (\<lambda>(c, s). (onDispatchUnsubscribed k c, s))"
  by (simp add: quiet_def onDispatchUnsubscribed_def Let_def)

lemma onDispatchSubscribed_same:
  "c_identity (fst (onDispatchSubscribed x (c, s))) = c_identity c \<and> c_address (fst (onDispatchSubscribed x (c, s))) = c_address c"
  by (simp add: onDispatchSubscribed_def Let_def split_beta post_task_def)

section \<open>Lemmas: the table and the channels\<close>

lemma call_out_frame [simp, frame]:
  "dm_dispatchers (call_out e m) = dm_dispatchers m" "dm_channels (call_out e m) = dm_channels m"
  "dm_queue (call_out e m) = dm_queue m" "dm_world (call_out e m) = dm_world m" "dm_listeners (call_out e m) = dm_listeners m"
  by (simp_all add: call_out_def)

lemma status_loop_frame [simp, frame]:
  "dm_dispatchers (status_loop ls a b m) = dm_dispatchers m" "dm_channels (status_loop ls a b m) = dm_channels m"
  "dm_queue (status_loop ls a b m) = dm_queue m" "dm_world (status_loop ls a b m) = dm_world m"
  by (induction ls arbitrary: m) simp_all

lemma onUserStatusChange_frame [simp, frame]:
  "dm_dispatchers (onUserStatusChange a b m) = dm_dispatchers m" "dm_channels (onUserStatusChange a b m) = dm_channels m"
  "dm_queue (onUserStatusChange a b m) = dm_queue m" "dm_world (onUserStatusChange a b m) = dm_world m"
  by (simp_all add: onUserStatusChange_def)

lemma on_channel_frame [simp, frame]:
  "dm_dispatchers (on_channel i f m) = dm_dispatchers m" "dm_queue (on_channel i f m) = dm_queue m"
  "dm_calls (on_channel i f m) = dm_calls m"
  by (simp_all add: on_channel_def Let_def split_beta split: option.split)

lemma on_channel_channels:
  "dm_channels (on_channel i f m) =
     (dm_channels m)(i := map_option (\<lambda>c. fst (f (c, dm_world m))) (dm_channels m i))"
  by (auto simp: on_channel_def Let_def split_beta fun_eq_iff split: option.split)

lemma unsubscribe_channel_frame [simp, frame]:
  "dm_dispatchers (unsubscribe_channel i k m) = dm_dispatchers m" "dm_queue (unsubscribe_channel i k m) = dm_queue m"
  by (simp_all add: unsubscribe_channel_def)

lemma unsubscribe_channel_channels:
  "dm_channels (unsubscribe_channel i k m) = (dm_channels m)(i := map_option (onDispatchUnsubscribed k) (dm_channels m i))"
  by (simp add: unsubscribe_channel_def on_channel_channels)

text \<open>The invariant: the table is ordered, holds channels under their own addresses, and holds every
  channel that is available.\<close>

definition manager_inv :: "'s Manager \<Rightarrow> bool" where
  "manager_inv m \<longleftrightarrow> sm_ok (dm_dispatchers m)
     \<and> (\<forall>k i. map_of (dm_dispatchers m) k = Some i \<longrightarrow> (\<exists>c. dm_channels m i = Some c \<and> getSerialized (c_address c) = k))
     \<and> (\<forall>i c. dm_channels m i = Some c \<longrightarrow> c_identity c = i
          \<and> (c_available c \<longrightarrow> map_of (dm_dispatchers m) (getSerialized (c_address c)) = Some i))"

lemma manager_invD:
  assumes "manager_inv m"
  shows "sm_ok (dm_dispatchers m)"
    and "map_of (dm_dispatchers m) k = Some i \<Longrightarrow> \<exists>c. dm_channels m i = Some c \<and> getSerialized (c_address c) = k"
    and "dm_channels m i = Some c \<Longrightarrow> c_identity c = i"
    and "dm_channels m i = Some c \<Longrightarrow> c_available c \<Longrightarrow> map_of (dm_dispatchers m) (getSerialized (c_address c)) = Some i"
  using assms by (simp_all add: manager_inv_def)

lemma manager_inv_frame:
  "manager_inv m \<Longrightarrow> dm_dispatchers m' = dm_dispatchers m \<Longrightarrow> dm_channels m' = dm_channels m \<Longrightarrow> manager_inv m'"
  by (simp add: manager_inv_def)

lemma manager_inv_call_out [inv_pres]: "manager_inv m \<Longrightarrow> manager_inv (call_out e m)"
  by (erule manager_inv_frame) simp_all

lemma manager_inv_channel:
  assumes inv: "manager_inv m"
    and f: "\<And>c. dm_channels m i = Some c \<Longrightarrow> c_identity (fst (f (c, dm_world m))) = c_identity c
      \<and> c_address (fst (f (c, dm_world m))) = c_address c
      \<and> (c_available (fst (f (c, dm_world m))) \<longrightarrow> c_available c \<or> map_of (dm_dispatchers m) (getSerialized (c_address c)) = Some i)"
  shows "manager_inv (on_channel i f m)"
proof -
  note I = manager_invD [OF inv]
  let ?heap = "(dm_channels m)(i := map_option (\<lambda>c. fst (f (c, dm_world m))) (dm_channels m i))"
  show ?thesis
    unfolding manager_inv_def on_channel_frame on_channel_channels
  proof (intro conjI allI impI)
    show "sm_ok (dm_dispatchers m)" by (rule I(1))
  next
    fix k j
    assume "map_of (dm_dispatchers m) k = Some j"
    then obtain c where "dm_channels m j = Some c" "getSerialized (c_address c) = k" using I(2) by blast
    then show "\<exists>c. ?heap j = Some c \<and> getSerialized (c_address c) = k" using f by auto
  next
    fix j c
    assume "?heap j = Some c"
    then obtain c0 where c0: "dm_channels m j = Some c0" "c_identity c = c_identity c0" "c_address c = c_address c0"
      "c_available c \<longrightarrow> c_available c0 \<or> map_of (dm_dispatchers m) (getSerialized (c_address c0)) = Some j"
      using f by (cases "j = i") auto
    show "c_identity c = j" using c0 I(3) by simp
    assume "c_available c"
    with c0 I(4) show "map_of (dm_dispatchers m) (getSerialized (c_address c)) = Some j" by auto
  qed
qed

lemma manager_inv_quiet [inv_pres]: "manager_inv m \<Longrightarrow> quiet f \<Longrightarrow> manager_inv (on_channel i f m)"
  by (rule manager_inv_channel) (simp_all add: quiet_def)

lemma manager_inv_subscribed [inv_pres]:
  assumes "manager_inv m" and "getDispatcher a m = Some i"
  shows "manager_inv (on_channel i (onDispatchSubscribed x) m)"
proof (rule manager_inv_channel [OF assms(1)])
  fix c
  assume "dm_channels m i = Some c"
  moreover have "map_of (dm_dispatchers m) (getSerialized a) = Some i" using assms(2) by (simp add: getDispatcher_def)
  ultimately show "c_identity (fst (onDispatchSubscribed x (c, dm_world m))) = c_identity c
      \<and> c_address (fst (onDispatchSubscribed x (c, dm_world m))) = c_address c
      \<and> (c_available (fst (onDispatchSubscribed x (c, dm_world m))) \<longrightarrow>
           c_available c \<or> map_of (dm_dispatchers m) (getSerialized (c_address c)) = Some i)"
    using manager_invD(2) [OF assms(1), of "getSerialized a" i] by (auto simp: onDispatchSubscribed_same)
qed

lemma onDispatchUnsubscribed_same [simp]:
  "c_identity (onDispatchUnsubscribed k c) = c_identity c" "\<not> c_available (onDispatchUnsubscribed k c)"
  by (simp_all add: onDispatchUnsubscribed_def Let_def)

text \<open>Taking a channel out of the table, or putting another in its place, is sound when the channel is
  told so.\<close>

lemma manager_inv_removed:
  assumes inv: "manager_inv m" and reg: "map_of (dm_dispatchers m) (getSerialized a) = Some i"
    and "dm_dispatchers m' = sm_del (getSerialized a) (dm_dispatchers m)"
    and "dm_channels m' = (dm_channels m)(i := map_option (onDispatchUnsubscribed k) (dm_channels m i))"
  shows "manager_inv m'"
proof -
  note I = manager_invD [OF inv]
  obtain ci where ci: "dm_channels m i = Some ci" "c_address ci = a"
    using I(2) [OF reg] by auto
  have other: "j \<noteq> i" if "map_of (dm_dispatchers m) k' = Some j" "k' \<noteq> getSerialized a" for k' j
    using I(2) [OF that(1)] that(2) ci by auto
  show ?thesis
    unfolding manager_inv_def assms(3,4)
  proof (intro conjI allI impI)
    show "sm_ok (sm_del (getSerialized a) (dm_dispatchers m))" using I(1) by simp
  next
    fix k' j
    assume "map_of (sm_del (getSerialized a) (dm_dispatchers m)) k' = Some j"
    then have r: "map_of (dm_dispatchers m) k' = Some j" "k' \<noteq> getSerialized a" by (auto split: if_splits)
    with I(2) [OF r(1)] other [OF r]
    show "\<exists>c. ((dm_channels m)(i := map_option (onDispatchUnsubscribed k) (dm_channels m i))) j = Some c \<and> getSerialized (c_address c) = k'"
      by auto
  next
    fix j c
    assume c: "((dm_channels m)(i := map_option (onDispatchUnsubscribed k) (dm_channels m i))) j = Some c"
    then show "c_identity c = j" using I(3) by (auto split: if_splits)
    assume "c_available c"
    with c have c': "dm_channels m j = Some c" "j \<noteq> i" by (auto split: if_splits)
    from I(4) [OF c'(1) \<open>c_available c\<close>] reg c'(2)
    show "map_of (sm_del (getSerialized a) (dm_dispatchers m)) (getSerialized (c_address c)) = Some j" by auto
  qed
qed

lemma manager_inv_replaced:
  assumes inv: "manager_inv m" and new: "dm_channels m i = None"
    and table: "dm_dispatchers m' = sm_put (getSerialized a) i (dm_dispatchers m)"
    and heap: "dm_channels m' = (case map_of (dm_dispatchers m) (getSerialized a) of
        None \<Rightarrow> (dm_channels m)(i \<mapsto> DispatchChannel_new i a auth)
      | Some j \<Rightarrow> ((dm_channels m)(i \<mapsto> DispatchChannel_new i a auth))(j := map_option (onDispatchUnsubscribed True) (dm_channels m j)))"
  shows "manager_inv m'"
proof -
  note I = manager_invD [OF inv]
  have fresh: "j \<noteq> i" if "map_of (dm_dispatchers m) k = Some j" for k j using I(2) [OF that] new by auto
  have here: "dm_channels m' i = Some (DispatchChannel_new i a auth)"
    using fresh [of "getSerialized a"] by (auto simp: heap split: option.split)
  have elsewhere: "dm_channels m' j = Some (onDispatchUnsubscribed True c) \<and> map_of (dm_dispatchers m) (getSerialized a) = Some j
      \<or> dm_channels m' j = Some c \<and> map_of (dm_dispatchers m) (getSerialized a) \<noteq> Some j"
    if "dm_channels m j = Some c" for j c
    using that new fresh [of "getSerialized a"] by (auto simp: heap split: option.split)
  have was: "dm_channels m j \<noteq> None" if "dm_channels m' j = Some c" "j \<noteq> i" for j c
    using that by (auto simp: heap split: option.split_asm if_splits)
  show ?thesis
    unfolding manager_inv_def table
  proof (intro conjI allI impI)
    show "sm_ok (sm_put (getSerialized a) i (dm_dispatchers m))" using I(1) by simp
  next
    fix k j
    assume "map_of (sm_put (getSerialized a) i (dm_dispatchers m)) k = Some j"
    then consider "k = getSerialized a" "j = i" | "k \<noteq> getSerialized a" "map_of (dm_dispatchers m) k = Some j"
      by (auto split: if_splits)
    then show "\<exists>c. dm_channels m' j = Some c \<and> getSerialized (c_address c) = k"
    proof cases
      case 1
      with here show ?thesis by (simp add: DispatchChannel_new_def)
    next
      case 2
      with I(2) obtain c where "dm_channels m j = Some c" "getSerialized (c_address c) = k" by blast
      with elsewhere [of j c] show ?thesis by auto
    qed
  next
    fix j c
    assume c: "dm_channels m' j = Some c"
    then show "c_identity c = j"
      using here was [OF c] elsewhere [of j] I(3) [of j] by (cases "j = i") (fastforce simp: DispatchChannel_new_def)+
    assume av: "c_available c"
    then have "j \<noteq> i" using c here by (auto simp: DispatchChannel_new_def)
    with was [OF c] obtain c0 where "dm_channels m j = Some c0" by blast
    with elsewhere [of j c0] c av have "dm_channels m j = Some c" "map_of (dm_dispatchers m) (getSerialized a) \<noteq> Some j" by auto
    with I(4) [of j c] av show "map_of (sm_put (getSerialized a) i (dm_dispatchers m)) (getSerialized (c_address c)) = Some j"
      by auto
  qed
qed

lemma manager_inv_subscribe [inv_pres]:
  assumes "manager_inv m" and "dm_channels m i = None"
  shows "manager_inv (snd (subscribe X a i auth m))"
proof (rule manager_inv_replaced [OF assms, of _ a auth])
  show "dm_dispatchers (snd (subscribe X a i auth m)) = sm_put (getSerialized a) i (dm_dispatchers m)"
    by (simp add: subscribe_def replaceDispatcher_def Let_def split: option.split)
  have "j \<noteq> i" if "map_of (dm_dispatchers m) (getSerialized a) = Some j" for j
    using manager_invD(2) [OF assms(1) that] assms(2) by auto
  then show "dm_channels (snd (subscribe X a i auth m)) = (case map_of (dm_dispatchers m) (getSerialized a) of
        None \<Rightarrow> (dm_channels m)(i \<mapsto> DispatchChannel_new i a auth)
      | Some j \<Rightarrow> ((dm_channels m)(i \<mapsto> DispatchChannel_new i a auth))(j := map_option (onDispatchUnsubscribed True) (dm_channels m j)))"
    by (auto simp: subscribe_def replaceDispatcher_def Let_def unsubscribe_channel_channels split: option.split)
qed

lemma manager_inv_unsubscribe [inv_pres]:
  assumes "manager_inv m"
  shows "manager_inv (unsubscribe a i m)"
proof (cases "fst (delDispatcher a i m)")
  case None
  then show ?thesis using assms by (auto simp: unsubscribe_def delDispatcher_def split: option.split if_splits)
next
  case (Some j)
  then have "map_of (dm_dispatchers m) (getSerialized a) = Some j" and "i = 0xFFFFFFFFFFFFFFFF \<or> i = j"
    by (auto simp: delDispatcher_def split: option.splits if_splits)
  then show ?thesis
    by (intro manager_inv_removed [OF assms, of a j _ False])
      (auto simp: unsubscribe_def delDispatcher_def unsubscribe_channel_channels)
qed

lemma manager_inv_kick [inv_pres]:
  assumes "manager_inv m"
  shows "manager_inv (kick a m)"
proof (cases "map_of (dm_dispatchers m) (getSerialized a)")
  case None
  then show ?thesis using assms by (simp add: kick_def delDispatcher_def Let_def manager_inv_call_out)
next
  case (Some j)
  then show ?thesis
    by (intro manager_inv_removed [OF assms, of a j _ True])
      (simp_all add: kick_def delDispatcher_def Let_def unsubscribe_channel_channels)
qed

lemma manager_inv_dispatch_message [inv_pres]: "manager_inv m \<Longrightarrow> manager_inv (dispatch_message X msg m)"
  by (auto simp: dispatch_message_def unsubscribe_channel_def
      intro: manager_inv_subscribed manager_inv_quiet quiet_redis quiet_group quiet_unsubscribed
      split: option.split MessageType.split)

lemma manager_inv_dispatch_batch [inv_pres]:
  assumes "manager_inv m"
  shows "manager_inv (dispatch_batch X m)"
proof -
  have "manager_inv (fold (dispatch_message X) q n)" if "manager_inv n" for q n
    using that by (induction q arbitrary: n) (simp_all add: manager_inv_dispatch_message)
  moreover have "manager_inv (m\<lparr>dm_queue := []\<rparr>)" by (rule manager_inv_frame [OF assms]) simp_all
  ultimately show ?thesis by (simp add: dispatch_batch_def)
qed

lemma queue_frame [simp, frame]:
  "dm_dispatchers (onSubscribe ch m) = dm_dispatchers m" "dm_channels (onSubscribe ch m) = dm_channels m"
  "dm_dispatchers (onMessage ch msg m) = dm_dispatchers m" "dm_channels (onMessage ch msg m) = dm_channels m"
  "dm_dispatchers (sendGroupMessages gs m) = dm_dispatchers m" "dm_channels (sendGroupMessages gs m) = dm_channels m"
  by (simp_all add: onSubscribe_def onMessage_def sendGroupMessages_def enqueueMessage_def enqueueMessages_def split: option.split)

lemma manager_inv_queue [inv_pres]:
  assumes "manager_inv m"
  shows "manager_inv (onSubscribe ch m)" "manager_inv (onMessage ch msg m)" "manager_inv (sendGroupMessages gs m)"
  by (rule manager_inv_frame [OF assms]; simp)+

lemma manager_inv_destroy [inv_pres]:
  assumes "manager_inv m" and "i \<notin> snd ` set (dm_dispatchers m)"
  shows "manager_inv (m\<lparr>dm_channels := (dm_channels m)(i := None)\<rparr>)"
proof -
  have "j \<noteq> i" if "map_of (dm_dispatchers m) k = Some j" for k j
    using assms(2) map_of_SomeD [OF that] by (auto simp: image_iff)
  with assms(1) show ?thesis by (auto simp: manager_inv_def)
qed

lemma manager_inv_step:
  assumes "manager_inv m" and "fresh_op op m"
  shows "manager_inv (manager_step X op m)"
  using assms
  by (cases op) (auto intro: inv_pres quiet_prepare quiet_response)

lemma reachable_inv: "reachable X m \<Longrightarrow> manager_inv m"
proof (induction rule: reachable.induct)
  case (reach_new s)
  show ?case by (simp add: manager_inv_def Manager_new_def)
next
  case (reach_step m op)
  then show ?case by (simp add: manager_inv_step)
qed

section \<open>Properties\<close>


definition demo_X :: "u64 \<Rightarrow> StoredMessage option Context" where
  "demo_X = (\<lambda>_. demo_cx demo_slot)"

definition demo_bob :: DispatchAddress where
  "demo_bob = \<lparr>da_uid = ''bob'', da_deviceid = 1\<rparr>"

definition demo_manager :: "StoredMessage option Manager" where
  "demo_manager = manager_step demo_X DispatchBatch (manager_step demo_X (OnSubscribe ''bob:1'')
     (manager_step demo_X (Subscribe demo_bob 4096 False) (Manager_new None)))"

lemma demo_manager_reachable: "reachable demo_X demo_manager"
  unfolding demo_manager_def by (intro reach_step reach_new) (simp_all add: Manager_new_def)

lemma demo_bob_serialized: "getSerialized demo_bob = ''bob:1''" "deserialize ''bob:1'' = Some demo_bob"
proof -
  show ser: "getSerialized demo_bob = ''bob:1''" by code_simp
  have "CHR '':'' \<notin> set (da_uid demo_bob)" by (simp add: demo_bob_def)
  from deserialize_getSerialized [OF this] show "deserialize ''bob:1'' = Some demo_bob" by (simp add: ser)
qed

lemma demo_batch_client: "c_address c = demo_bob \<Longrightarrow> isSupportDispatchBatch (demo_cx demo_slot) c"
  by (simp add: isSupportDispatchBatch_def session_account_def demo_cx_def demo_user_def getAuthDevice_def demo_device_def
      Device_new_def clientversion_def ClientVersion_new_def)

text \<open>The state after a device has connected and its subscription was acknowledged.\<close>

lemma demo_manager_state:
  "dm_dispatchers demo_manager = [(''bob:1'', 4096)]" "dm_queue demo_manager = []"
  "dm_channels demo_manager = [4096 \<mapsto> (DispatchChannel_new 4096 demo_bob False)
     \<lparr>c_available := True, c_tasks := [SendStored, SendStoredFriend [FRIEND_REQUEST, FRIEND_REPLY, DELETE_FRIEND]]\<rparr>]"
proof -
  have master: "da_deviceid demo_bob = cx_master (demo_cx demo_slot)" by (simp add: demo_bob_def demo_cx_def)
  note defs = demo_manager_def demo_X_def Manager_new_def subscribe_def replaceDispatcher_def Let_def onSubscribe_def enqueueMessage_def
    dispatch_batch_def dispatch_message_def getDispatcher_def demo_bob_serialized on_channel_def onDispatchSubscribed_def
    sendStoredMessages_def demo_batch_client DispatchChannel_new_def post_task_def master onUserStatusChange_def call_out_def
  show "dm_dispatchers demo_manager = [(''bob:1'', 4096)]" by (simp add: defs)
  show "dm_queue demo_manager = []" by (simp add: defs)
  show "dm_channels demo_manager = [4096 \<mapsto> (DispatchChannel_new 4096 demo_bob False)
     \<lparr>c_available := True, c_tasks := [SendStored, SendStoredFriend [FRIEND_REQUEST, FRIEND_REPLY, DELETE_FRIEND]]\<rparr>]"
    by (simp add: defs)
qed


text \<open>C4. A new connection takes over, and the old one cannot take it back: after a device subscribes
  again, the table holds the new channel, the channel it had before is unavailable and disconnected,
  no other channel changed, and when the old connection is closed late, with its own identity, nothing
  happens.\<close>

theorem resubscribe_wins:
  assumes "reachable X m" and old: "getDispatcher a m = Some i" and fresh: "dm_channels m j = None" and "i \<noteq> 0xFFFFFFFFFFFFFFFF"
  shows "getDispatcher a (snd (subscribe X a j auth m)) = Some j
    \<and> (\<exists>c. dm_channels m i = Some c \<and> dm_channels (snd (subscribe X a j auth m)) i = Some (c\<lparr>c_available := False, c_connected := False\<rparr>))
    \<and> (\<forall>k. k \<noteq> i \<and> k \<noteq> j \<longrightarrow> dm_channels (snd (subscribe X a j auth m)) k = dm_channels m k)
    \<and> unsubscribe a i (snd (subscribe X a j auth m)) = snd (subscribe X a j auth m)"
proof -
  let ?m = "snd (subscribe X a j auth m)"
  have reg: "map_of (dm_dispatchers m) (getSerialized a) = Some i" using old by (simp add: getDispatcher_def)
  then obtain c where c: "dm_channels m i = Some c" using manager_invD(2) [OF reachable_inv [OF assms(1)]] by blast
  with fresh have "i \<noteq> j" by auto
  have table: "dm_dispatchers ?m = sm_put (getSerialized a) j (dm_dispatchers m)"
    by (simp add: subscribe_def replaceDispatcher_def Let_def reg)
  have heap: "dm_channels ?m = ((dm_channels m)(j \<mapsto> DispatchChannel_new j a auth))(i := Some (onDispatchUnsubscribed True c))"
    using \<open>i \<noteq> j\<close> c by (simp add: subscribe_def replaceDispatcher_def Let_def reg unsubscribe_channel_channels fun_upd_def)
  have "unsubscribe a i ?m = ?m"
    using assms(4) \<open>i \<noteq> j\<close> by (simp add: unsubscribe_def delDispatcher_def table)
  with table heap c \<open>i \<noteq> j\<close> show ?thesis
    by (simp add: getDispatcher_def onDispatchUnsubscribed_def Let_def)
qed

theorem resubscribe_wins_witness:
  "getDispatcher demo_bob (snd (subscribe demo_X demo_bob 8192 False demo_manager)) = Some 8192
    \<and> unsubscribe demo_bob 4096 (snd (subscribe demo_X demo_bob 8192 False demo_manager)) = snd (subscribe demo_X demo_bob 8192 False demo_manager)"
proof -
  have "getDispatcher demo_bob demo_manager = Some 4096" "dm_channels demo_manager 8192 = None"
    by (simp_all add: getDispatcher_def demo_manager_state demo_bob_serialized)
  from resubscribe_wins [OF demo_manager_reachable this] show ?thesis by simp
qed

lemma dispatch_group_channel:
  assumes inv: "manager_inv m" and reg: "getDispatcher a m = Some i" and c: "dm_channels m i = Some c" "c_available c"
  shows "dm_channels (dispatch_message X (group_message msg b) m) i = Some (if b = a then post_task (SendGroup msg) c else c)"
    and "getDispatcher d (dispatch_message X (group_message msg b) m) = getDispatcher d m"
proof -
  have "j \<noteq> i" if "getDispatcher b m = Some j" "b \<noteq> a" for j
    using manager_invD(2) [OF inv, of "getSerialized b" i] manager_invD(2) [OF inv, of "getSerialized a" i] reg that c
    by (auto simp: getDispatcher_def)
  with reg c show "dm_channels (dispatch_message X (group_message msg b) m) i = Some (if b = a then post_task (SendGroup msg) c else c)"
    by (auto simp: dispatch_message_def group_message_def on_channel_channels onDispatchGroupMessage_def split: option.split)
  show "getDispatcher d (dispatch_message X (group_message msg b) m) = getDispatcher d m"
    by (simp add: dispatch_message_def group_message_def getDispatcher_def split: option.split)
qed

lemma dispatch_groups:
  assumes "manager_inv m" and "getDispatcher a m = Some i" and "dm_channels m i = Some c" and "c_available c"
  shows "dm_channels (fold (dispatch_message X) (map (\<lambda>(msg, b). group_message msg b) q) m) i
    = Some (c\<lparr>c_tasks := c_tasks c @ map (SendGroup \<circ> fst) (filter (\<lambda>e. snd e = a) q)\<rparr>)"
  using assms
proof (induction q arbitrary: m c)
  case (Cons e q)
  obtain msg b where e: "e = (msg, b)" by (cases e)
  let ?m = "dispatch_message X (group_message msg b) m" and ?c = "if b = a then post_task (SendGroup msg) c else c"
  have "dm_channels (fold (dispatch_message X) (map (\<lambda>(msg, b). group_message msg b) q) ?m) i
      = Some (?c\<lparr>c_tasks := c_tasks ?c @ map (SendGroup \<circ> fst) (filter (\<lambda>e. snd e = a) q)\<rparr>)"
    using Cons.prems dispatch_group_channel [OF Cons.prems] manager_inv_dispatch_message
    by (intro Cons.IH) (simp_all add: post_task_def)
  then show ?case by (simp add: e post_task_def)
qed simp

text \<open>The messages and destinations of a call, in the order in which they are queued.\<close>

definition group_deliveries :: "(DispatchAddress list option \<times> string option) list \<Rightarrow> (string \<times> DispatchAddress) list" where
  "group_deliveries messages =
     concat (map (\<lambda>(ds, msg). case (ds, msg) of (Some destinations, Some message) \<Rightarrow> map (\<lambda>d. (message, d)) destinations | _ \<Rightarrow> []) messages)"

lemma group_queue_deliveries: "group_queue messages = map (\<lambda>(msg, b). group_message msg b) (group_deliveries messages)"
  by (induction messages) (auto simp: group_queue_def group_deliveries_def split: option.split)

lemma group_messages_posted:
  assumes "reachable X m" and "dm_queue m = []" and "getDispatcher a m = Some i" and "dm_channels m i = Some c" and "c_available c"
  shows "dm_channels (dispatch_batch X (sendGroupMessages messages m)) i
    = Some (c\<lparr>c_tasks := c_tasks c @ map (SendGroup \<circ> fst) (filter (\<lambda>e. snd e = a) (group_deliveries messages))\<rparr>)"
proof -
  have q: "dm_queue (sendGroupMessages messages m) = group_queue messages"
    using assms(2) by (simp add: sendGroupMessages_def enqueueMessages_def group_queue_def)
  have "manager_inv (sendGroupMessages messages m\<lparr>dm_queue := []\<rparr>)"
    by (rule manager_inv_frame [OF reachable_inv [OF assms(1)]]) simp_all
  then show ?thesis
    unfolding dispatch_batch_def q group_queue_deliveries
    using assms(3-5) by (intro dispatch_groups) (simp_all add: getDispatcher_def)
qed

text \<open>Group messages arrive in order and complete: when the queue is empty and a device's channel is
  available, sending a list of group messages and letting the bridge thread run posts to that channel
  exactly the messages that name the device, in the order of the call, and changes nothing else of the
  channel.\<close>

lemma group_messages_in_order:
  assumes "reachable X m" and "dm_queue m = []" and "getDispatcher a m = Some i" and "dm_channels m i = Some c" and "c_available c"
  shows "dm_channels (dispatch_batch X (sendGroupMessages messages m)) i
    = Some (c\<lparr>c_tasks := c_tasks c @ map (SendGroup \<circ> fst) (filter (\<lambda>e. snd e = a) (group_deliveries messages))\<rparr>)"
  using assms by (rule group_messages_posted)

theorem group_messages_in_order_witness:
  "\<exists>c. dm_channels (dispatch_batch demo_X (sendGroupMessages [(Some [demo_bob], Some ''one''), (None, Some ''x''), (Some [demo_bob], Some ''two'')] demo_manager)) 4096
    = Some c \<and> drop 2 (c_tasks c) = [SendGroup ''one'', SendGroup ''two'']"
proof -
  have "getDispatcher demo_bob demo_manager = Some 4096"
    by (simp add: getDispatcher_def demo_manager_state demo_bob_serialized)
  with group_messages_in_order [OF demo_manager_reachable demo_manager_state(2), of demo_bob 4096]
  show ?thesis by (simp add: group_deliveries_def demo_manager_state DispatchChannel_new_def)
qed

lemma call_out_calls [simp]: "dm_calls (call_out e m) = dm_calls m @ [e]"
  by (simp add: call_out_def)

lemma status_loop_calls: "e \<in> set (dm_calls m) \<Longrightarrow> e \<in> set (dm_calls (status_loop ls a b m))"
  by (induction ls arbitrary: m) simp_all

text \<open>A connection on another server ends this one: when a device connects to a second server, the
  message that server publishes on the device's channel, once received and dispatched here, makes the
  channel here unavailable and disconnects it, exactly when the two channels have different identities. (The
  identity is the address of the channel object, which is unique within one process only.)\<close>

lemma connected_elsewhere:
  assumes "reachable X A" and "dm_queue A = []" and reg: "getDispatcher a A = Some i" and c: "dm_channels A i = Some c" "c_available c"
    and colon: "CHR '':'' \<notin> set (da_uid a)"
    and wire: "\<And>t. cx_parsePubsub (X i) (cx_pubsub (Y j) CONNECTED t) = Some (CONNECTED, t) \<and> cx_pubsub (Y j) CONNECTED t \<noteq> []"
  shows "\<exists>msg. Publish a msg \<in> set (dm_calls (snd (subscribe Y a j auth B)))
    \<and> dm_channels (dispatch_batch X (onMessage (getSerialized a) msg A)) i
        = Some (if i = j then c else c\<lparr>c_available := False, c_connected := False\<rparr>)"
proof -
  let ?msg = "cx_pubsub (Y j) CONNECTED (to_dec (unat j))"
  have "Publish a ?msg \<in> set (dm_calls (snd (subscribe Y a j auth B)))"
    by (simp add: subscribe_def replaceDispatcher_def Let_def onUserStatusChange_def unsubscribe_channel_def status_loop_calls split: option.split)
  moreover have "dm_queue (onMessage (getSerialized a) ?msg A) = [\<lparr>mg_type = TYPE_REDIS_MESSAGE, mg_address = Some a, mg_content = ?msg\<rparr>]"
    using wire assms(2) deserialize_getSerialized [OF colon] by (simp add: onMessage_def enqueueMessage_def getSerialized_def)
  moreover have "c_identity c = i" using manager_invD(3) [OF reachable_inv [OF assms(1)]] c(1) by simp
  ultimately show ?thesis
    using reg c wire [of "to_dec (unat j)"]
    by (intro exI [of _ ?msg]) (auto simp: dispatch_batch_def dispatch_message_def getDispatcher_def on_channel_channels
        onDispatchRedisMessage_def channel_drop_def Let_def to_dec_inj word_unat_eq_iff)
qed

definition demo_wire :: "u64 \<Rightarrow> StoredMessage option Context" where
  "demo_wire = (\<lambda>_. (demo_cx demo_slot)\<lparr>cx_pubsub := (\<lambda>ty t. CHR ''C'' # t), cx_parsePubsub := (\<lambda>w. Some (CONNECTED, tl w))\<rparr>)"

definition demo_server :: "StoredMessage option Manager" where
  "demo_server = manager_step demo_wire DispatchBatch (manager_step demo_wire (OnSubscribe ''bob:1'')
     (manager_step demo_wire (Subscribe demo_bob 4096 True) (Manager_new None)))"

theorem connected_elsewhere_witness:
  "\<exists>msg c. Publish demo_bob msg \<in> set (dm_calls (snd (subscribe demo_wire demo_bob 8192 False (Manager_new None))))
    \<and> dm_channels (dispatch_batch demo_wire (onMessage (getSerialized demo_bob) msg demo_server)) 4096 = Some c \<and> \<not> c_connected c"
proof -
  note defs = demo_server_def demo_wire_def Manager_new_def subscribe_def replaceDispatcher_def Let_def onSubscribe_def enqueueMessage_def
    dispatch_batch_def dispatch_message_def getDispatcher_def demo_bob_serialized on_channel_def onDispatchSubscribed_def
    DispatchChannel_new_def onUserStatusChange_def call_out_def
  have r: "reachable demo_wire demo_server"
    unfolding demo_server_def by (intro reach_step reach_new) (simp_all add: Manager_new_def)
  have state: "getDispatcher demo_bob demo_server = Some 4096" "dm_queue demo_server = []"
    "dm_channels demo_server 4096 = Some ((DispatchChannel_new 4096 demo_bob True)\<lparr>c_available := True\<rparr>)"
    by (simp_all add: defs)
  have "\<exists>msg. Publish demo_bob msg \<in> set (dm_calls (snd (subscribe demo_wire demo_bob 8192 False (Manager_new None))))
    \<and> dm_channels (dispatch_batch demo_wire (onMessage (getSerialized demo_bob) msg demo_server)) 4096
        = Some (if 4096 = (8192 :: u64) then (DispatchChannel_new 4096 demo_bob True)\<lparr>c_available := True\<rparr>
                else ((DispatchChannel_new 4096 demo_bob True)\<lparr>c_available := True\<rparr>)\<lparr>c_available := False, c_connected := False\<rparr>)"
    by (rule connected_elsewhere [OF r state(2,1,3)]) (simp_all add: demo_wire_def demo_bob_def)
  then show ?thesis by auto
qed

end
