(* ===== verification/Bloom_Filters.thy ===== *)
theory Bloom_Filters
  imports Bit_Vector
begin

text \<open>
  \<open>src/crypto/murmurhash3.cpp\<close>, \<open>src/bloom\<close> and \<open>src/features\<close>: the hash MurmurHash3,
  Bloom filters over it (the contacts of a user, as the user uploads them) and the sets of features a
  device announces. Both containers are vectors of bytes used as bit arrays.
\<close>

section \<open>MurmurHash3\<close>

definition ReadLE32 :: "u8 list \<Rightarrow> u32" where
  "ReadLE32 p = ucast (p ! 0) OR push_bit 8 (ucast (p ! 1)) OR push_bit 16 (ucast (p ! 2)) OR push_bit 24 (ucast (p ! 3))"

definition ROTL32 :: "u32 \<Rightarrow> nat \<Rightarrow> u32" where
  "ROTL32 x r = push_bit r x OR drop_bit (32 - r) x"

definition murmur_k1 :: "u32 \<Rightarrow> u32" where
  "murmur_k1 k1 = ROTL32 (k1 * 0xcc9e2d51) 15 * 0x1b873593"

text \<open>The body of the loop over the blocks, for block \<open>i\<close>.\<close>

definition murmur_block :: "u8 list \<Rightarrow> nat \<Rightarrow> u32 \<Rightarrow> u32" where
  "murmur_block blocks i h1 = ROTL32 (h1 XOR murmur_k1 (ReadLE32 (drop (i * 4) blocks))) 13 * 5 + 0xe6546b64"

text \<open>The switch over the one to three bytes that are left, whose cases fall through.\<close>

definition murmur_tail :: "u8 list \<Rightarrow> u32 \<Rightarrow> u32" where
  "murmur_tail tail h1 =
     (let k3 = (if length tail = 3 then push_bit 16 (ucast (tail ! 2)) else 0);
          k2 = (if 2 \<le> length tail then k3 XOR push_bit 8 (ucast (tail ! 1)) else k3)
      in if 1 \<le> length tail then h1 XOR murmur_k1 (k2 XOR ucast (tail ! 0)) else h1)"

definition murmur_final :: "u32 \<Rightarrow> u32" where
  "murmur_final h1 =
     (let h2 = (h1 XOR drop_bit 16 h1) * 0x85ebca6b;
          h3 = (h2 XOR drop_bit 13 h2) * 0xc2b2ae35
      in h3 XOR drop_bit 16 h3)"

definition murmurHash3 :: "u32 \<Rightarrow> u8 list \<Rightarrow> u32" where
  "murmurHash3 nHashSeed vDataToHash =
     (let nblocks = length vDataToHash div 4;
          h1 = fold (murmur_block vDataToHash) [0..<nblocks] nHashSeed;
          h2 = murmur_tail (drop (nblocks * 4) vDataToHash) h1
      in murmur_final (h2 XOR word_of_nat (length vDataToHash)))"

definition murmurHash3_str :: "u32 \<Rightarrow> string \<Rightarrow> u32" where
  "murmurHash3_str nHashSeed dataToHash = murmurHash3 nHashSeed (map byte_of dataToHash)"

section \<open>Bloom filters\<close>

datatype HashAlgo = HashAlgo u32 | MurmurHash3Algo u32 u32 u32

fun getHashes :: "HashAlgo \<Rightarrow> string \<Rightarrow> u32 list" where
  "getHashes (HashAlgo hashNum) key = []"
| "getHashes (MurmurHash3Algo hashNum rootSeed tweak) key =
     map (\<lambda>i. murmurHash3_str (word_of_nat i * rootSeed + tweak) key) [0..<unat hashNum]"

record BloomFilters =
  bf_full :: bool
  bf_empty :: bool
  bf_filters :: "u8 list"
  bf_hashFunc :: HashAlgo

definition kMurmHash3SeedRoot :: u32 where "kMurmHash3SeedRoot = 0xFBA4C795"
definition kMurmHash3Tweak :: u32 where "kMurmHash3Tweak = 0x3"
definition kMurmHash3HashNum :: u32 where "kMurmHash3HashNum = 0x5"

definition BloomFilters_new :: "u32 \<Rightarrow> u32 \<Rightarrow> BloomFilters" where
  "BloomFilters_new algo len =
     \<lparr>bf_full = False, bf_empty = True, bf_filters = replicate (unat ((len + 7) div 8)) 0,
      bf_hashFunc = (if algo = 0 then MurmurHash3Algo kMurmHash3HashNum kMurmHash3SeedRoot kMurmHash3Tweak else HashAlgo 0)\<rparr>"

definition updateEmptyFull :: "BloomFilters \<Rightarrow> BloomFilters" where
  "updateEmptyFull b = b\<lparr>bf_full := list_all (\<lambda>i. i = 0xff) (bf_filters b), bf_empty := list_all (\<lambda>i. i = 0) (bf_filters b)\<rparr>"

definition BloomFilters_content :: "u32 \<Rightarrow> string \<Rightarrow> BloomFilters" where
  "BloomFilters_content algo content =
     updateEmptyFull ((BloomFilters_new algo (word_of_nat (length content * 8)))\<lparr>bf_filters := map byte_of content\<rparr>)"

definition fromFiltersContent :: "string \<Rightarrow> BloomFilters \<Rightarrow> bool \<times> BloomFilters" where
  "fromFiltersContent content b =
     (if length content \<noteq> length (bf_filters b) then (False, b)
      else (True, updateEmptyFull (b\<lparr>bf_filters := map byte_of content\<rparr>)))"

text \<open>The position of a hash: the remainder by the number of bits. It is computed with 64 bits and fits
  in 32.\<close>

definition bloom_index :: "u8 list \<Rightarrow> u32 \<Rightarrow> u32" where
  "bloom_index filters i = word_of_nat (unat i mod (length filters * 8))"

definition bloom_insert :: "string \<Rightarrow> BloomFilters \<Rightarrow> cpp_error + BloomFilters" where
  "bloom_insert key b =
     (if bf_full b then Inr b
      else let hashes = getHashes (bf_hashFunc b) key
           in if hashes = [] then Inr b
              else if bf_filters b = [] then Inl DivideByZero
              else Inr (b\<lparr>bf_filters := fold (\<lambda>i bs. bv_set bs (bloom_index (bf_filters b) i)) hashes (bf_filters b), bf_empty := False\<rparr>))"

definition bloom_contains :: "string \<Rightarrow> BloomFilters \<Rightarrow> cpp_error + bool" where
  "bloom_contains key b =
     (if bf_full b then Inr True
      else if bf_empty b then Inr False
      else let hashes = getHashes (bf_hashFunc b) key
           in if hashes = [] then Inr False
              else if bf_filters b = [] then Inl DivideByZero
              else Inr (list_all (\<lambda>i. bv_test (bf_filters b) (bloom_index (bf_filters b) i)) hashes))"

definition bloom_update :: "(u32 \<times> bool) list \<Rightarrow> BloomFilters \<Rightarrow> BloomFilters" where
  "bloom_update vals b =
     b\<lparr>bf_filters := fold (\<lambda>(i, v) bs. if unat i < length bs * 8 then (if v then bv_set bs i else bv_clear bs i) else bs) vals (bf_filters b)\<rparr>"

definition getFiltersContent :: "BloomFilters \<Rightarrow> string" where
  "getFiltersContent b = map char_of_byte (bf_filters b)"

section \<open>Features\<close>

type_synonym BaseFeatures = "u8 list"

definition BaseFeatures_new :: "u32 \<Rightarrow> BaseFeatures" where
  "BaseFeatures_new len = replicate (unat ((len + 7) div 8)) 0"

definition BaseFeatures_str :: "string \<Rightarrow> BaseFeatures" where
  "BaseFeatures_str features = map byte_of features"

definition hasFeature :: "BaseFeatures \<Rightarrow> u32 \<Rightarrow> bool" where
  "hasFeature m_features feature = (if unat feature < length m_features * 8 then bv_test m_features feature else False)"

definition addFeature :: "u32 \<Rightarrow> BaseFeatures \<Rightarrow> BaseFeatures" where
  "addFeature feature m_features = (if unat feature < length m_features * 8 then bv_set m_features feature else m_features)"

definition removeFeature :: "u32 \<Rightarrow> BaseFeatures \<Rightarrow> BaseFeatures" where
  "removeFeature feature m_features = (if unat feature < length m_features * 8 then bv_clear m_features feature else m_features)"

definition BaseFeatures_getFeatures :: "BaseFeatures \<Rightarrow> string" where
  "BaseFeatures_getFeatures m_features = map char_of_byte m_features"

text \<open>The names of the features that are set and known; \<open>Feature_IsValid\<close> and \<open>Feature_Name\<close>
  are generated from the protocol.\<close>

definition getFeatureNames :: "(nat \<Rightarrow> bool) \<Rightarrow> (nat \<Rightarrow> string) \<Rightarrow> BaseFeatures \<Rightarrow> string list" where
  "getFeatureNames valid name m_features =
     concat (map (\<lambda>i. concat (map (\<lambda>j. if bit (m_features ! i) j \<and> valid (i * 8 + j) then [name (i * 8 + j)] else [])
       [0..<8])) [0..<length m_features])"

section \<open>Lemmas\<close>

text \<open>A reference definition of the hash that consumes the bytes from the front.\<close>

fun murmur_ref :: "u32 \<Rightarrow> u8 list \<Rightarrow> u32" where
  "murmur_ref h (a # b # c # d # rest) =
     murmur_ref (ROTL32 (h XOR murmur_k1 (ReadLE32 [a, b, c, d])) 13 * 5 + 0xe6546b64) rest"
| "murmur_ref h bs = murmur_tail bs h"

lemma ReadLE32_Cons4: "ReadLE32 (a # b # c # d # rest) = ReadLE32 [a, b, c, d]"
  by (simp add: ReadLE32_def numeral_3_eq_3 numeral_2_eq_2)

lemma drop_Cons4 [simp]: "drop (4 + n) (a # b # c # d # rest) = drop n rest"
  by (simp add: numeral_eq_Suc)

lemma murmur_block_Suc: "murmur_block (a # b # c # d # rest) (Suc i) h = murmur_block rest i h"
  by (simp add: murmur_block_def)

lemma fold_block_shift:
  "fold (murmur_block (a # b # c # d # rest)) (map Suc is) h = fold (murmur_block rest) is h"
  by (induction "is" arbitrary: h) (simp_all add: murmur_block_Suc)

lemma murmur_loop_ref:
  "murmur_tail (drop (length bs div 4 * 4) bs) (fold (murmur_block bs) [0..<length bs div 4] h) = murmur_ref h bs"
proof (induction h bs rule: murmur_ref.induct)
  case (1 h a b c d rest)
  let ?bs = "a # b # c # d # rest"
  have n: "length ?bs div 4 = Suc (length rest div 4)" by simp
  have "[0..<Suc n] = 0 # map Suc [0..<n]" for n by (simp add: map_Suc_upt upt_conv_Cons)
  then have "fold (murmur_block ?bs) [0..<length ?bs div 4] h
      = fold (murmur_block rest) [0..<length rest div 4] (murmur_block ?bs 0 h)"
    unfolding n by (simp only: fold_simps(2) o_apply fold_block_shift)
  moreover have "drop (length ?bs div 4 * 4) ?bs = drop (length rest div 4 * 4) rest" unfolding n by simp
  moreover have "murmur_block ?bs 0 h = ROTL32 (h XOR murmur_k1 (ReadLE32 [a, b, c, d])) 13 * 5 + 0xe6546b64"
    by (simp only: murmur_block_def mult_0 drop_0 ReadLE32_Cons4 [of a b c d rest])
  ultimately show ?case using 1 by simp
qed simp_all

lemma bloom_index_valid: "filters \<noteq> [] \<Longrightarrow> bv_valid filters (bloom_index filters i)"
proof -
  assume "filters \<noteq> []"
  then have "unat i mod (length filters * 8) < length filters * 8" by simp
  moreover have "unat i mod (length filters * 8) < 2 ^ 32"
    using unsigned_less [of i, where ?'a = nat] by (simp add: le_less_trans [OF mod_less_eq_dividend])
  ultimately show ?thesis by (simp add: bv_valid_def bloom_index_def unat_of_nat)
qed

text \<open>The positions of a key, and a filter in which they are all set.\<close>

definition bloom_bits :: "BloomFilters \<Rightarrow> string \<Rightarrow> u32 list" where
  "bloom_bits b key = map (bloom_index (bf_filters b)) (getHashes (bf_hashFunc b) key)"

definition bloom_has :: "BloomFilters \<Rightarrow> string \<Rightarrow> bool" where
  "bloom_has b key \<longleftrightarrow> (\<forall>i \<in> set (bloom_bits b key). bv_test (bf_filters b) i)"

lemma bloom_bits_cong:
  "length (bf_filters b') = length (bf_filters b) \<Longrightarrow> bf_hashFunc b' = bf_hashFunc b \<Longrightarrow> bloom_bits b' key = bloom_bits b key"
  by (simp add: bloom_bits_def bloom_index_def)

lemma bloom_bits_valid: "bf_filters b \<noteq> [] \<Longrightarrow> i \<in> set (bloom_bits b key) \<Longrightarrow> bv_valid (bf_filters b) i"
  by (auto simp: bloom_bits_def bloom_index_valid)

lemma bloom_insert_filters:
  assumes "bf_filters b \<noteq> []" and "getHashes (bf_hashFunc b) key \<noteq> []" and "\<not> bf_full b"
  shows "bloom_insert key b = Inr (b\<lparr>bf_filters := fold (\<lambda>i bs. bv_set bs i) (bloom_bits b key) (bf_filters b), bf_empty := False\<rparr>)"
proof -
  have "fold (\<lambda>i bs. bv_set bs (f i)) hs bs = fold (\<lambda>i bs. bv_set bs i) (map f hs) bs" for f :: "u32 \<Rightarrow> u32" and hs bs
    by (induction hs arbitrary: bs) simp_all
  with assms show ?thesis by (simp add: bloom_insert_def bloom_bits_def Let_def)
qed

lemma length_fold_bv_set [simp]: "length (fold (\<lambda>i bs. bv_set bs i) is bs) = length bs"
  by (induction "is" arbitrary: bs) simp_all

text \<open>Inserting a key sets its bits and keeps every bit that was set.\<close>

lemma bloom_insert_has:
  assumes ne: "bf_filters b \<noteq> []" and h: "getHashes (bf_hashFunc b) key \<noteq> []" and nf: "\<not> bf_full b"
  shows "\<exists>b'. bloom_insert key b = Inr b' \<and> bloom_has b' key \<and> (\<forall>k. bloom_has b k \<longrightarrow> bloom_has b' k)
    \<and> length (bf_filters b') = length (bf_filters b) \<and> bf_hashFunc b' = bf_hashFunc b \<and> \<not> bf_full b' \<and> \<not> bf_empty b'"
proof -
  let ?b = "b\<lparr>bf_filters := fold (\<lambda>i bs. bv_set bs i) (bloom_bits b key) (bf_filters b), bf_empty := False\<rparr>"
  have bits: "bloom_bits ?b k = bloom_bits b k" for k by (rule bloom_bits_cong) simp_all
  have "bv_test (bf_filters ?b) j \<longleftrightarrow> j \<in> set (bloom_bits b key) \<or> bv_test (bf_filters b) j" if "j \<in> set (bloom_bits b k)" for j k
    using bv.test_fold [of "bloom_bits b key" "bf_filters b" j] bloom_bits_valid [OF ne] that by auto
  then have "bloom_has ?b key" "\<forall>k. bloom_has b k \<longrightarrow> bloom_has ?b k" by (auto simp: bloom_has_def bits)
  with bloom_insert_filters [OF assms] nf show ?thesis by auto
qed

fun insert_all :: "string list \<Rightarrow> BloomFilters \<Rightarrow> cpp_error + BloomFilters" where
  "insert_all [] b = Inr b"
| "insert_all (k # ks) b = (case bloom_insert k b of Inl e \<Rightarrow> Inl e | Inr b' \<Rightarrow> insert_all ks b')"

lemma insert_all_has:
  assumes "bf_filters b \<noteq> []" and "\<forall>k. getHashes (bf_hashFunc b) k \<noteq> []" and "\<not> bf_full b"
  shows "\<exists>b'. insert_all keys b = Inr b' \<and> (\<forall>k \<in> set keys. bloom_has b' k) \<and> (\<forall>k. bloom_has b k \<longrightarrow> bloom_has b' k)
    \<and> bf_filters b' \<noteq> [] \<and> bf_hashFunc b' = bf_hashFunc b \<and> \<not> bf_full b' \<and> (keys \<noteq> [] \<longrightarrow> \<not> bf_empty b')"
  using assms
proof (induction keys arbitrary: b)
  case (Cons key keys)
  obtain b1 where b1: "bloom_insert key b = Inr b1" "bloom_has b1 key" "\<forall>k. bloom_has b k \<longrightarrow> bloom_has b1 k"
    "length (bf_filters b1) = length (bf_filters b)" "bf_hashFunc b1 = bf_hashFunc b" "\<not> bf_full b1" "\<not> bf_empty b1"
    using bloom_insert_has [of b key] Cons.prems by blast
  then have "bf_filters b1 \<noteq> []" using Cons.prems(1) by auto
  with Cons.IH [of b1] Cons.prems(2) b1 obtain b2 where "insert_all keys b1 = Inr b2" "\<forall>k \<in> set keys. bloom_has b2 k"
    "\<forall>k. bloom_has b1 k \<longrightarrow> bloom_has b2 k" "bf_filters b2 \<noteq> []" "bf_hashFunc b2 = bf_hashFunc b" "\<not> bf_full b2"
    "keys \<noteq> [] \<longrightarrow> \<not> bf_empty b2" by auto
  with b1 show ?case by (cases keys) auto
qed simp

lemma contains_has:
  assumes "bf_filters b \<noteq> []" and "getHashes (bf_hashFunc b) k \<noteq> []"
  shows "bloom_contains k b = Inr (bf_full b \<or> \<not> bf_empty b \<and> bloom_has b k)"
  using assms by (simp add: bloom_contains_def bloom_has_def bloom_bits_def Let_def list_all_iff)

text \<open>A filter made from content never traps: without any content it counts as full.\<close>

lemma bloom_content_total: "\<exists>r. bloom_contains key (BloomFilters_content algo content) = Inr r"
  by (cases "content = []")
    (auto simp: bloom_contains_def BloomFilters_content_def updateEmptyFull_def Let_def)

lemma murmur_algo_hashes: "getHashes (MurmurHash3Algo kMurmHash3HashNum r t) k \<noteq> []"
  by (simp add: kMurmHash3HashNum_def)

text \<open>A sequence of additions and removals.\<close>

definition feature_ops :: "(u32 \<times> bool) list \<Rightarrow> BaseFeatures \<Rightarrow> BaseFeatures" where
  "feature_ops ws fs = fold (\<lambda>(i, b) fs. if b then addFeature i fs else removeFeature i fs) ws fs"

section \<open>Properties\<close>




text \<open>A set of features is the set of features last added: after any sequence of additions (\<open>True\<close>)
  and removals (\<open>False\<close>), a feature inside the range is in the set exactly when its last operation
  added it, or when it was there before and was not touched; a feature outside is never in it; and the set
  survives its conversion to a string.\<close>

lemma features_last_write:
  "hasFeature (BaseFeatures_str (BaseFeatures_getFeatures (feature_ops ws fs))) f
     = (unat f < length fs * 8 \<and> (case map_of (rev ws) f of Some b \<Rightarrow> b | None \<Rightarrow> hasFeature fs f))"
proof -
  let ?ws = "filter (\<lambda>(i, b). bv_valid fs i) ws"
  have len: "length (if b then addFeature i fs else removeFeature i fs) = length fs" for b i fs
    by (simp add: addFeature_def removeFeature_def)
  have "feature_ops ws gs = fold (\<lambda>(i, b) a. if b then bv_set a i else bv_clear a i) ?ws gs" if "length gs = length fs" for gs
    using that
  proof (induction ws arbitrary: gs)
    case (Cons w ws)
    then show ?case
      by (cases w) (auto simp: feature_ops_def addFeature_def removeFeature_def bv_valid_def)
  qed (simp add: feature_ops_def)
  note ops = this [OF refl]
  have lenf: "length (feature_ops ws fs) = length fs"
    unfolding feature_ops_def by (induction ws arbitrary: fs) (auto simp: len split_beta)
  have "map_of (rev ?ws) f = (if bv_valid fs f then map_of (rev ws) f else None)"
    by (induction ws) (auto simp: map_add_def split: option.split)
  with ops lenf bv.test_writes [of ?ws fs f] show ?thesis
    by (auto simp: hasFeature_def BaseFeatures_str_def BaseFeatures_getFeatures_def comp_def bv_valid_def split: option.splits)
qed


end
