(* ===== verification/Message_Controller.thy ===== *)
theory Message_Controller
  imports Dispatch_Channel Bloom_Filters
begin

text \<open>
  \<open>src/controllers/message_controller.cpp\<close> and \<open>SenderUtils::encryptSender\<close>: a user sends
  one message to every device of another user, or of its own. The handler checks the request against the
  devices of the destination, hides the sender in an encrypted field for each device, and gives every
  message to the connected device, or to the store with a push. The Signal library, the JSON text of the
  encrypted sender and the database are parameters; so is what the dispatch channel uses
  (\<open>Context\<close>).
\<close>

section \<open>Requests and replies\<close>

record IncomingMessage =
  im_type :: int
  im_destination :: string
  im_destinationDeviceId :: u32
  im_destinationRegistrationId :: int
  im_body :: string
  im_content :: string
  im_relay :: string
  im_timestamp :: u64
  im_silent :: bool
  im_push :: int

record IncomingMessageList =
  ml_messages :: "IncomingMessage list"
  ml_relay :: string
  ml_timestamp :: u64

datatype Entity =
    SendMessageResponse bool
  | MismatchedDevices "u32 list" "u32 list"
  | StaleDevices "u32 list"

record Reply =
  rp_status :: nat
  rp_entity :: "Entity option"

section \<open>Hiding the sender\<close>

text \<open>What is used of the Signal library and of the cipher, for one call: whether the library can be set
  up, a fresh key pair (public, private), points of the curve, the shared secret, a digest, the cipher
  (which makes the initialization vector) and the bytes of a public key.\<close>

record Signal =
  sg_context :: bool
  sg_keyPair :: "(string \<times> string) option"
  sg_decodePoint :: "string \<Rightarrow> string option"
  sg_agreement :: "string \<Rightarrow> string \<Rightarrow> string option"
  sg_sha256 :: "string \<Rightarrow> string"
  sg_aes :: "string \<Rightarrow> string \<Rightarrow> string \<times> string"
  sg_serialize :: "string \<Rightarrow> string option"

record 's MessageController =
  mc_cx :: "'s Context"
  mc_getAccount :: "string \<Rightarrow> dao_code \<times> Account option"
  mc_deleted :: nat
  mc_normal :: nat
  mc_b64enc :: "string \<Rightarrow> string"
  mc_eFrom :: "u32 \<Rightarrow> string \<Rightarrow> string \<Rightarrow> string \<Rightarrow> string"
  mc_signal :: "nat \<Rightarrow> Signal"
  mc_messageSize :: nat
  mc_needUpgrade :: bool
  mc_multiDevice :: u32

text \<open>The version, the initialization vector, the ephemeral public key and the encrypted sender.\<close>

definition encryptSender ::
    "(string \<Rightarrow> string) \<Rightarrow> (nat \<Rightarrow> nat) \<Rightarrow> Signal \<Rightarrow> string \<Rightarrow> string \<Rightarrow> (u32 \<times> string \<times> string \<times> string) option" where
  "encryptSender b64dec b64size sg sender ecdhDestPubKey =
     (if \<not> sg_context sg then None
      else case sg_keyPair sg of
             None \<Rightarrow> None
           | Some (public, private) \<Rightarrow>
               (case sg_decodePoint sg (Base64_decode b64dec b64size ecdhDestPubKey False) of
                  None \<Rightarrow> None
                | Some ecDestPubkey \<Rightarrow>
                    (case sg_agreement sg ecDestPubkey private of
                       None \<Rightarrow> None
                     | Some shared \<Rightarrow>
                         let (iv, encrypted) = sg_aes sg (sg_sha256 sg shared) sender
                         in if encrypted = [] then None
                            else map_option (\<lambda>epk. (0, iv, epk, encrypted)) (sg_serialize sg public))))"

definition generateSourceExtra :: "'s MessageController \<Rightarrow> Signal \<Rightarrow> string \<Rightarrow> Account \<Rightarrow> Device \<Rightarrow> string" where
  "generateSourceExtra mc sg source destination device =
     (if d_publicKey device = [] \<and> d_id device \<noteq> cx_master (mc_cx mc) then []
      else let destinationPublicKey = (if d_publicKey device = [] then a_publicKey destination else d_publicKey device);
               b64 = (\<lambda>t. Base64_encode (mc_b64enc mc) t False)
           in case encryptSender (cx_b64dec (mc_cx mc)) (cx_b64size (mc_cx mc)) sg source destinationPublicKey of
                None \<Rightarrow> []
              | Some (version, iv, ephemeralPubkey, encryptedSource) \<Rightarrow>
                  b64 (mc_eFrom mc version (b64 ephemeralPubkey) (b64 iv) (b64 encryptedSource)))"

section \<open>One message\<close>

definition createEnvelope :: "'s MessageController \<Rightarrow> Account \<Rightarrow> u64 \<Rightarrow> IncomingMessage \<Rightarrow> string \<Rightarrow> cpp_error + Envelope" where
  "createEnvelope mc source timestamp message sourceExtra =
     (case getAuthDevice source of
        None \<Rightarrow> Inl NoneAccess
      | Some authDevice \<Rightarrow>
          (let b64 = (\<lambda>t. Base64_decode (cx_b64dec (mc_cx mc)) (cx_b64size (mc_cx mc)) t False)
           in Inr (Envelope_new
                \<lparr>env_type := im_type message,
                 env_timestamp := (if timestamp = 0 then word_of_int (cx_now (mc_cx mc)) else timestamp),
                 env_source := (if es_plainUidSupport (cx_config (mc_cx mc)) then a_uid source else []),
                 env_relay := [],
                 env_sourceDevice := a_authDeviceId source,
                 env_sourceRegistration := d_registrationId authDevice,
                 env_sourceExtra := sourceExtra,
                 env_push := im_push message,
                 env_legacyMessage := b64 (im_body message),
                 env_content := b64 (im_content message)\<rparr>)))"

definition chat_notification :: "'s Context \<Rightarrow> DispatchAddress \<Rightarrow> Device \<Rightarrow> Envelope \<Rightarrow> u32 \<Rightarrow> Notification" where
  "chat_notification x address device envelope storedMessagesCount =
     (let src = getSourceInPushService (cx_ios x) (cx_android x) device (env_source envelope) (env_sourceExtra envelope) (cx_config x);
          n = notification_chat src Notification_new
      in (setDeviceInfo device (setTargetAddress address (n\<lparr>nt_badge := sint storedMessagesCount\<rparr>)))
           \<lparr>nt_class := env_push envelope\<rparr>)"

definition sendLocalMessage ::
    "'s MessageController \<Rightarrow> Account \<Rightarrow> Account \<Rightarrow> Device \<Rightarrow> u64 \<Rightarrow> IncomingMessage \<Rightarrow> string \<Rightarrow> 's \<Rightarrow> cpp_error + bool \<times> 's" where
  "sendLocalMessage mc source destination destinationDevice timestamp message sourceExtra s =
     (let x = mc_cx mc
      in case createEnvelope mc source timestamp message sourceExtra of
           Inl e \<Rightarrow> Inl e
         | Inr envelope \<Rightarrow>
             (let address = \<lparr>da_uid = a_uid destination, da_deviceid = d_id destinationDevice\<rparr>;
                  (published, s1) = publishMessage x address (cx_pubsub x DELIVER (cx_envelope x envelope)) s
              in if published then Inr (True, s1)
                 else if im_type message = cx_noise x then Inr (True, s1)
                 else let (ret, storedMessagesCount, s2) =
                            MessagesManager_store (cx_dao x) (a_uid destination) (d_id destinationDevice)
                              (d_registrationId destinationDevice) envelope s1
                      in if \<not> ret then Inr (False, s2)
                         else if d_id destinationDevice \<noteq> cx_master x then Inr (True, s2)
                         else if a_uid source = a_uid destination then Inr (True, s2)
                         else if env_type envelope \<noteq> cx_receipt x \<and> env_push envelope \<noteq> -1 \<and> isDevicePushable (cx_now x) destinationDevice
                         then let notification = chat_notification x address destinationDevice envelope storedMessagesCount;
                                  pushType = getPushType (cx_android x) (cx_ios x) notification
                              in Inr (True, if pushType \<noteq> [] then cx_push x pushType notification s2 else s2)
                         else Inr (True, s2)))"

section \<open>Checks\<close>

definition getDestination :: "'s MessageController \<Rightarrow> string \<Rightarrow> nat \<times> Account" where
  "getDestination mc destinationUid =
     (let (ret, loaded) = AccountsManager_get (mc_getAccount mc) destinationUid;
          destination = (case loaded of Some a \<Rightarrow> a | None \<Rightarrow> Account_new)
      in (if ret = Dao_NoSuchData then 404
          else if ret \<noteq> Dao_Success then 500
          else if a_state destination = mc_deleted mc then 404
          else if \<not> isAccountActive (cx_master (mc_cx mc)) (mc_normal mc) (cx_now (mc_cx mc)) destination then 404
          else 200, destination))"

text \<open>The set of device ids is iterated in ascending order.\<close>

definition device_ids :: "Account \<Rightarrow> bool \<Rightarrow> u32 \<Rightarrow> int \<Rightarrow> u32 list" where
  "device_ids destination isSyncMessage master now =
     map d_id (filter (\<lambda>device. isDeviceActive master now device \<and> \<not> (isSyncMessage \<and> d_id device = a_authDeviceId destination))
       (a_devices destination))"

definition validate_ids :: "u32 list \<Rightarrow> u32 list \<Rightarrow> bool \<times> u32 list \<times> u32 list" where
  "validate_ids messageDeviceIds accountDeviceIds =
     (let missingDevices = filter (\<lambda>i. i \<notin> set messageDeviceIds) accountDeviceIds;
          extraDevices = filter (\<lambda>i. i \<notin> set accountDeviceIds) (sort (remdups messageDeviceIds))
      in (missingDevices = [] \<and> extraDevices = [], missingDevices, extraDevices))"

definition is_noise :: "'s Context \<Rightarrow> IncomingMessageList \<Rightarrow> bool" where
  "is_noise x messageList \<longleftrightarrow> length (ml_messages messageList) = 1 \<and> im_type (hd (ml_messages messageList)) = cx_noise x"

definition validateCompleteDeviceList ::
    "'s Context \<Rightarrow> Account \<Rightarrow> IncomingMessageList \<Rightarrow> bool \<Rightarrow> bool \<times> u32 list \<times> u32 list" where
  "validateCompleteDeviceList x destination messageList isSyncMessage =
     (if is_noise x messageList
      then (isSyncMessage \<and> im_destinationDeviceId (hd (ml_messages messageList)) = a_authDeviceId destination, [], [])
      else validate_ids (map im_destinationDeviceId (ml_messages messageList))
             (device_ids destination isSyncMessage (cx_master x) (cx_now x)))"

text \<open>The stale devices; the list is valid when there is none. The number in a message is compared as an
  unsigned 32-bit number.\<close>

definition stale_device :: "Account \<Rightarrow> IncomingMessage \<Rightarrow> u32 list" where
  "stale_device destination message =
     (case getDevice destination (im_destinationDeviceId message) of
        None \<Rightarrow> []
      | Some device \<Rightarrow>
          if 0 < im_destinationRegistrationId message \<and> word_of_int (im_destinationRegistrationId message) \<noteq> d_registrationId device
          then [d_id device] else [])"

definition validateRegistrationIds :: "Account \<Rightarrow> IncomingMessageList \<Rightarrow> bool \<times> u32 list" where
  "validateRegistrationIds destination messageList =
     (let staleDevices = concat (map (stale_device destination) (ml_messages messageList))
      in (staleDevices = [], staleDevices))"

text \<open>Messages of strangers: the destination does not accept them and has uploaded a filter of its
  contacts which does not contain the sender.\<close>

definition filterStrangerMsg :: "Account \<Rightarrow> bool" where
  "filterStrangerMsg destination =
     (case a_privacy destination of
        None \<Rightarrow> False
      | Some privacy \<Rightarrow> \<not> pr_acceptStrangerMsg privacy \<and> a_contactsFilters destination \<noteq> None)"

definition blocked_by_filter :: "'s Context \<Rightarrow> Account \<Rightarrow> string \<Rightarrow> cpp_error + bool" where
  "blocked_by_filter x destination sourceUid =
     (case a_contactsFilters destination of
        None \<Rightarrow> Inr False
      | Some filters \<Rightarrow>
          map_sum id Not (bloom_contains sourceUid
            (BloomFilters_content (cf_algo filters) (Base64_decode (cx_b64dec x) (cx_b64size x) (cf_content filters) False))))"

text \<open>An old client of a phone is told to upgrade instead of which devices it missed.\<close>

definition must_upgrade :: "'s MessageController \<Rightarrow> Account \<Rightarrow> cpp_error + bool" where
  "must_upgrade mc source =
     (if \<not> mc_needUpgrade mc then Inr False
      else case getAuthDevice source of
             None \<Rightarrow> Inl NoneAccess
           | Some authDevice \<Rightarrow>
               (let clientVer = clientversion authDevice
                in case HexEncoder_decode (getFeatures source (d_id authDevice)) False of
                     Inl e \<Rightarrow> Inl e
                   | Inr features \<Rightarrow>
                       Inr ((cv_osType clientVer = cx_ios (mc_cx mc) \<or> cv_osType clientVer = cx_android (mc_cx mc))
                            \<and> \<not> hasFeature (BaseFeatures_str features) (mc_multiDevice mc))))"

section \<open>The handler\<close>

text \<open>The encrypted sender for every device, by the id of the device; \<open>None\<close> when one cannot be
  made. \<open>i\<close> counts the calls of the library.\<close>

fun source_extra_loop ::
    "'s MessageController \<Rightarrow> string \<Rightarrow> Account \<Rightarrow> nat \<Rightarrow> IncomingMessage list \<Rightarrow> (u32 \<rightharpoonup> string)
      \<Rightarrow> cpp_error + (u32 \<rightharpoonup> string) option" where
  "source_extra_loop mc uid destination i [] sourceExtraMap = Inr (Some sourceExtraMap)"
| "source_extra_loop mc uid destination i (message # messages) sourceExtraMap =
     (case getDevice destination (im_destinationDeviceId message) of
        None \<Rightarrow> Inl NoneAccess
      | Some device \<Rightarrow>
          (let sourceExtra = generateSourceExtra mc (mc_signal mc i) uid destination device
           in if sourceExtra = [] then Inr None
              else source_extra_loop mc uid destination (Suc i) messages (sourceExtraMap(d_id device \<mapsto> sourceExtra))))"

fun send_loop ::
    "'s MessageController \<Rightarrow> Account \<Rightarrow> Account \<Rightarrow> u64 \<Rightarrow> (u32 \<rightharpoonup> string) \<Rightarrow> IncomingMessage list \<Rightarrow> 's \<Rightarrow> cpp_error + 's" where
  "send_loop mc source destination timestamp sourceExtraMap [] s = Inr s"
| "send_loop mc source destination timestamp sourceExtraMap (message # messages) s =
     (case getDevice destination (im_destinationDeviceId message) of
        None \<Rightarrow> Inl NoneAccess
      | Some device \<Rightarrow>
          (case sendLocalMessage mc source destination device timestamp message
                  (case sourceExtraMap (d_id device) of None \<Rightarrow> [] | Some e \<Rightarrow> e) s of
             Inl e \<Rightarrow> Inl e
           | Inr (_, s') \<Rightarrow> send_loop mc source destination timestamp sourceExtraMap messages s'))"

text \<open>After the checks on the request and the destination.\<close>

definition send_checked ::
    "'s MessageController \<Rightarrow> Account \<Rightarrow> Account \<Rightarrow> IncomingMessageList \<Rightarrow> bool \<Rightarrow> 's \<Rightarrow> cpp_error + Reply \<times> 's" where
  "send_checked mc source destination messageList bSyncMessage s =
     (let (complete, missingDevices, extraDevices) = validateCompleteDeviceList (mc_cx mc) destination messageList bSyncMessage;
          (current, staleDevices) = validateRegistrationIds destination messageList
      in if \<not> complete then
           (case must_upgrade mc source of
              Inl e \<Rightarrow> Inl e
            | Inr True \<Rightarrow> Inr (\<lparr>rp_status = 461, rp_entity = None\<rparr>, s)
            | Inr False \<Rightarrow> Inr (\<lparr>rp_status = 409, rp_entity = Some (MismatchedDevices missingDevices extraDevices)\<rparr>, s))
         else if \<not> current then Inr (\<lparr>rp_status = 410, rp_entity = Some (StaleDevices staleDevices)\<rparr>, s)
         else case source_extra_loop mc (a_uid source) destination 0 (ml_messages messageList) Map.empty of
                Inl e \<Rightarrow> Inl e
              | Inr None \<Rightarrow> Inr (\<lparr>rp_status = 500, rp_entity = None\<rparr>, s)
              | Inr (Some sourceExtraMap) \<Rightarrow>
                  (case send_loop mc source destination (ml_timestamp messageList) sourceExtraMap (ml_messages messageList) s of
                     Inl e \<Rightarrow> Inl e
                   | Inr s' \<Rightarrow>
                       Inr (\<lparr>rp_status = 200,
                             rp_entity = Some (SendMessageResponse (\<not> bSyncMessage \<and> 1 < length (a_devices source)))\<rparr>, s')))"

definition sendMessage ::
    "'s MessageController \<Rightarrow> Account \<Rightarrow> IncomingMessageList \<Rightarrow> string \<Rightarrow> 's \<Rightarrow> cpp_error + Reply \<times> 's" where
  "sendMessage mc source messageList destinationUid s =
     (let bSyncMessage = (a_uid source = destinationUid)
      in if ml_relay messageList \<noteq> [] then Inr (\<lparr>rp_status = 400, rp_entity = None\<rparr>, s)
         else if \<exists>msg \<in> set (ml_messages messageList). mc_messageSize mc < length (im_content msg)
         then Inr (\<lparr>rp_status = 400, rp_entity = None\<rparr>, s)
         else let (result, destination) = (if bSyncMessage then (200, source) else getDestination mc destinationUid)
              in if result \<noteq> 200 then Inr (\<lparr>rp_status = result, rp_entity = None\<rparr>, s)
                 else if filterStrangerMsg destination \<and> \<not> bSyncMessage then
                   (case blocked_by_filter (mc_cx mc) destination (a_uid source) of
                      Inl e \<Rightarrow> Inl e
                    | Inr True \<Rightarrow> Inr (\<lparr>rp_status = 200, rp_entity = Some (SendMessageResponse False)\<rparr>, s)
                    | Inr False \<Rightarrow> send_checked mc source destination messageList bSyncMessage s)
                 else send_checked mc source destination messageList bSyncMessage s)"

section \<open>Lemmas: the handler returns\<close>

lemma blocked_by_filter_total: "\<exists>r. blocked_by_filter x destination uid = Inr r"
proof (cases "a_contactsFilters destination")
  case (Some f)
  then show ?thesis
    using bloom_content_total [of uid "cf_algo f" "Base64_decode (cx_b64dec x) (cx_b64size x) (cf_content f) False"]
    by (auto simp: blocked_by_filter_def)
qed (auto simp: blocked_by_filter_def)

lemma must_upgrade_total: "getAuthDevice source \<noteq> None \<Longrightarrow> \<exists>r. must_upgrade mc source = Inr r"
  by (auto simp: must_upgrade_def Let_def HexEncoder_decode_def split: option.splits)

lemma createEnvelope_total:
  "createEnvelope mc source timestamp m e = Inl err \<longleftrightarrow> getAuthDevice source = None \<and> err = NoneAccess"
  by (auto simp: createEnvelope_def Let_def split: option.splits)

lemma sendLocalMessage_total:
  "sendLocalMessage mc source destination d timestamp m e s = Inl err \<longleftrightarrow> getAuthDevice source = None \<and> err = NoneAccess"
proof (cases "createEnvelope mc source timestamp m e")
  case (Inr envelope)
  then have "getAuthDevice source \<noteq> None" by (auto simp: createEnvelope_def split: option.splits)
  with Inr show ?thesis by (simp add: sendLocalMessage_def Let_def split_beta)
next
  case (Inl err0)
  then have "getAuthDevice source = None \<and> err0 = NoneAccess" by (simp add: createEnvelope_total)
  with Inl show ?thesis by (auto simp: sendLocalMessage_def Let_def)
qed

text \<open>Whether the loops return depends on the devices only.\<close>

lemma send_loop_total:
  "(if (\<forall>m \<in> set ms. getDevice destination (im_destinationDeviceId m) \<noteq> None) \<and> (ms = [] \<or> getAuthDevice source \<noteq> None)
    then \<exists>s'. send_loop mc source destination timestamp extra ms s = Inr s'
    else send_loop mc source destination timestamp extra ms s = Inl NoneAccess)"
proof (induction ms arbitrary: s)
  case (Cons m ms)
  show ?case
  proof (cases "getDevice destination (im_destinationDeviceId m)")
    case (Some device)
    define r where "r = sendLocalMessage mc source destination device timestamp m
      (case extra (d_id device) of None \<Rightarrow> [] | Some e \<Rightarrow> e) s"
    have step: "send_loop mc source destination timestamp extra (m # ms) s =
        (case r of Inl e \<Rightarrow> Inl e | Inr (_, s') \<Rightarrow> send_loop mc source destination timestamp extra ms s')"
      by (simp add: Some r_def)
    have "r = Inl err \<longleftrightarrow> getAuthDevice source = None \<and> err = NoneAccess" for err
      unfolding r_def by (rule sendLocalMessage_total)
    with Cons.IH show ?thesis unfolding step using Some by (cases r) (fastforce split: if_splits prod.splits)+
  qed simp
qed simp

lemma source_extra_loop_total:
  "\<forall>m \<in> set ms. getDevice destination (im_destinationDeviceId m) \<noteq> None
    \<Longrightarrow> \<exists>r. source_extra_loop mc uid destination i ms extra = Inr r"
  by (induction ms arbitrary: i extra) (auto simp: Let_def split: option.split)

text \<open>A complete list names existing devices only.\<close>

lemma getDevice_None: "getDevice a i = None \<longleftrightarrow> i \<notin> d_id ` set (a_devices a)"
  by (auto simp: getDevice_def find_None_iff)

lemma getAuthDevice_getDevice: "getAuthDevice a = getDevice a (a_authDeviceId a)"
  by (simp add: getAuthDevice_def getDevice_def)

lemma set_device_ids:
  "set (device_ids destination sync master now) = {d_id d |d. d \<in> set (a_devices destination)
     \<and> isDeviceActive master now d \<and> \<not> (sync \<and> d_id d = a_authDeviceId destination)}"
  by (auto simp: device_ids_def)

lemma validate_ids_iff: "fst (validate_ids ms ds) \<longleftrightarrow> set ms = set ds"
  by (auto simp: validate_ids_def Let_def filter_empty_conv)

lemma complete_devices_exist:
  assumes "fst (validateCompleteDeviceList x destination ml sync)" and "sync \<Longrightarrow> getAuthDevice destination \<noteq> None"
    and "m \<in> set (ml_messages ml)"
  shows "getDevice destination (im_destinationDeviceId m) \<noteq> None"
proof (cases "is_noise x ml")
  case True
  then have "m = hd (ml_messages ml)" using assms(3) by (cases "ml_messages ml") (auto simp: is_noise_def)
  then show ?thesis using True assms(1,2) by (simp add: validateCompleteDeviceList_def getAuthDevice_getDevice)
next
  case False
  then have "im_destinationDeviceId m \<in> set (device_ids destination sync (cx_master x) (cx_now x))"
    using assms(1,3) by (auto simp: validateCompleteDeviceList_def validate_ids_iff)
  then show ?thesis by (auto simp: set_device_ids getDevice_None)
qed

lemma send_checked_total:
  assumes auth: "getAuthDevice source \<noteq> None" and sync: "sync \<Longrightarrow> getAuthDevice destination \<noteq> None"
  shows "\<exists>r. send_checked mc source destination ml sync s = Inr r"
proof (cases "fst (validateCompleteDeviceList (mc_cx mc) destination ml sync)")
  case True
  have ex: "\<forall>m \<in> set (ml_messages ml). getDevice destination (im_destinationDeviceId m) \<noteq> None"
    using complete_devices_exist [OF True sync] by blast
  obtain r where r: "source_extra_loop mc (a_uid source) destination 0 (ml_messages ml) Map.empty = Inr r"
    using source_extra_loop_total [OF ex] by blast
  have sends: "\<exists>s'. send_loop mc source destination (ml_timestamp ml) e (ml_messages ml) s = Inr s'" for e
    using send_loop_total [of "ml_messages ml" destination source mc "ml_timestamp ml" e s] ex auth by simp
  show ?thesis
  proof (cases r)
    case None
    with True r show ?thesis by (simp add: send_checked_def Let_def split_beta)
  next
    case (Some e)
    with True r sends [of e] show ?thesis by (auto simp: send_checked_def Let_def split_beta)
  qed
next
  case False
  with must_upgrade_total [OF auth, of mc] show ?thesis
    by (auto simp: send_checked_def Let_def split_beta split: bool.split)
qed

section \<open>Lemmas: what is done with a message\<close>

text \<open>What is assumed of Redis and the database: publishing that reaches a subscriber and storing that
  succeeds are seen in the sets of published and stored messages, and nothing leaves those sets.\<close>

definition outbox_sound :: "'s Context \<Rightarrow> ('s \<Rightarrow> StoredMessage set) \<Rightarrow> ('s \<Rightarrow> (string \<times> string) set) \<Rightarrow> bool" where
  "outbox_sound x stored published \<longleftrightarrow>
     (\<forall>uid ch m s. stored s \<subseteq> stored (snd (cx_publish x uid ch m s)) \<and> published s \<subseteq> published (snd (cx_publish x uid ch m s))
        \<and> (0 < fst (cx_publish x uid ch m s) \<longrightarrow> (ch, m) \<in> published (snd (cx_publish x uid ch m s))))
   \<and> (\<forall>m s. stored s \<subseteq> stored (snd (snd (sd_set (cx_dao x) m s))) \<and> published s \<subseteq> published (snd (snd (sd_set (cx_dao x) m s)))
        \<and> (fst (sd_set (cx_dao x) m s) = Dao_Success \<longrightarrow> m \<in> stored (snd (snd (sd_set (cx_dao x) m s)))))
   \<and> (\<forall>ty n s. stored s \<subseteq> stored (cx_push x ty n s) \<and> published s \<subseteq> published (cx_push x ty n s))"

text \<open>A message is kept for a device: published to its channel, or in the store, or it is noise.\<close>

definition kept_for :: "'s MessageController \<Rightarrow> Account \<Rightarrow> Account \<Rightarrow> u64 \<Rightarrow> u32 \<Rightarrow> IncomingMessage
    \<Rightarrow> StoredMessage set \<Rightarrow> (string \<times> string) set \<Rightarrow> bool" where
  "kept_for mc source destination timestamp i m stored published \<longleftrightarrow>
     (\<exists>extra envelope. createEnvelope mc source timestamp m extra = Inr envelope
        \<and> (im_type m = cx_noise (mc_cx mc)
           \<or> (getSerialized \<lparr>da_uid = a_uid destination, da_deviceid = i\<rparr>,
               cx_pubsub (mc_cx mc) DELIVER (cx_envelope (mc_cx mc) envelope)) \<in> published
           \<or> (\<exists>reg. store_message (a_uid destination) i reg envelope \<in> stored)))"

lemma kept_for_mono:
  "kept_for mc source destination t i m S P \<Longrightarrow> S \<subseteq> S' \<Longrightarrow> P \<subseteq> P' \<Longrightarrow> kept_for mc source destination t i m S' P'"
  unfolding kept_for_def by blast

lemma sendLocalMessage_kept:
  assumes sound: "outbox_sound (mc_cx mc) stored published"
    and sent: "sendLocalMessage mc source destination d timestamp m extra s = Inr (ok, s')"
  shows "stored s \<subseteq> stored s' \<and> published s \<subseteq> published s'
    \<and> (ok \<longrightarrow> kept_for mc source destination timestamp (d_id d) m (stored s') (published s'))"
proof -
  let ?x = "mc_cx mc" and ?a = "\<lparr>da_uid = a_uid destination, da_deviceid = d_id d\<rparr>"
  obtain envelope where e: "createEnvelope mc source timestamp m extra = Inr envelope"
    using sent by (auto simp: sendLocalMessage_def Let_def split: sum.splits)
  let ?m = "cx_pubsub ?x DELIVER (cx_envelope ?x envelope)"
  obtain n s1 where p: "cx_publish ?x (a_uid destination) (getSerialized ?a) ?m s = (n, s1)" by fastforce
  have s1: "stored s \<subseteq> stored s1" "published s \<subseteq> published s1" "0 < n \<Longrightarrow> (getSerialized ?a, ?m) \<in> published s1"
    using sound p unfolding outbox_sound_def by (metis fst_conv snd_conv)+
  let ?sm = "store_message (a_uid destination) (d_id d) (d_registrationId d) envelope"
  obtain code cnt s2 where st: "sd_set (cx_dao ?x) ?sm s1 = (code, cnt, s2)" by (metis prod_cases3)
  have s2: "stored s1 \<subseteq> stored s2" "published s1 \<subseteq> published s2" "code = Dao_Success \<Longrightarrow> ?sm \<in> stored s2"
    using sound st unfolding outbox_sound_def by (metis fst_conv snd_conv)+
  have push: "stored s2 \<subseteq> stored (cx_push ?x ty nt s2)" "published s2 \<subseteq> published (cx_push ?x ty nt s2)" for ty nt
    using sound unfolding outbox_sound_def by blast+
  note defs = sendLocalMessage_def Let_def publishMessage_def MessagesManager_store_def split_beta e
  have "(0 < n \<or> im_type m = cx_noise ?x) \<and> s' = s1 \<or> \<not> ok \<and> s' = s2
      \<or> code = Dao_Success \<and> (s' = s2 \<or> (\<exists>ty nt. s' = cx_push ?x ty nt s2))"
    using sent p st by (auto simp: defs split: if_splits)
  moreover have "kept_for mc source destination timestamp (d_id d) m (stored t) (published t)"
    if "0 < n \<and> published s1 \<subseteq> published t \<or> im_type m = cx_noise ?x \<or> code = Dao_Success \<and> stored s2 \<subseteq> stored t" for t
    using that e s1(3) s2(3) unfolding kept_for_def by blast
  ultimately show ?thesis using s1 s2 push by blast
qed

text \<open>What every sent message establishes and later ones keep holds of all of them at the end.\<close>

lemma send_loop_all:
  assumes step: "\<And>m d e s ok s'. getDevice destination (im_destinationDeviceId m) = Some d
      \<Longrightarrow> sendLocalMessage mc source destination d timestamp m e s = Inr (ok, s') \<Longrightarrow> R s s' \<and> P m s'"
    and mono: "\<And>m s s'. R s s' \<Longrightarrow> P m s \<Longrightarrow> P m s'" and R: "reflp R" "transp R"
  shows "send_loop mc source destination timestamp extra ms s = Inr s' \<Longrightarrow> R s s' \<and> (\<forall>m \<in> set ms. P m s')"
proof (induction ms arbitrary: s)
  case Nil
  then show ?case using R(1) by (simp add: reflp_def)
next
  case (Cons m ms)
  obtain d where d: "getDevice destination (im_destinationDeviceId m) = Some d"
    using Cons.prems by (auto split: option.splits)
  obtain ok s1 where s1: "sendLocalMessage mc source destination d timestamp m (case extra (d_id d) of None \<Rightarrow> [] | Some e \<Rightarrow> e) s = Inr (ok, s1)"
    and rest: "send_loop mc source destination timestamp extra ms s1 = Inr s'"
    using Cons.prems d by (auto split: sum.splits prod.splits)
  from step [OF d s1] have h: "R s s1" "P m s1" by simp_all
  from Cons.IH [OF rest] have t: "R s1 s'" "\<forall>m \<in> set ms. P m s'" by simp_all
  with transpD [OF R(2) h(1) t(1)] mono [OF t(1) h(2)] show ?case by simp
qed

definition outbox_le :: "('s \<Rightarrow> StoredMessage set) \<Rightarrow> ('s \<Rightarrow> (string \<times> string) set) \<Rightarrow> 's \<Rightarrow> 's \<Rightarrow> bool" where
  "outbox_le stored published s s' \<longleftrightarrow> stored s \<subseteq> stored s' \<and> published s \<subseteq> published s'"

lemma outbox_le_order: "reflp (outbox_le stored published)" "transp (outbox_le stored published)"
  by (auto simp: outbox_le_def reflp_def transp_def)

lemma getDevice_id: "getDevice a i = Some d \<Longrightarrow> d_id d = i"
  by (auto simp: getDevice_def find_Some_iff)

lemma send_loop_kept:
  assumes "outbox_sound (mc_cx mc) stored published" and "\<forall>m s. fst (sd_set (cx_dao (mc_cx mc)) m s) = Dao_Success"
    and "send_loop mc source destination timestamp extra ms s = Inr s'"
  shows "\<forall>m \<in> set ms. kept_for mc source destination timestamp (im_destinationDeviceId m) m (stored s') (published s')"
proof -
  have ok: "ok" if "sendLocalMessage mc source destination d timestamp m e s = Inr (ok, s')" for d m e s ok s'
    using that assms(2)
    by (auto simp: sendLocalMessage_def Let_def MessagesManager_store_def split_beta split: sum.splits if_splits)
  have step: "outbox_le stored published s s' \<and> kept_for mc source destination timestamp (im_destinationDeviceId m) m (stored s') (published s')"
    if "getDevice destination (im_destinationDeviceId m) = Some d"
      "sendLocalMessage mc source destination d timestamp m e s = Inr (ok, s')" for d m e s ok s'
    using sendLocalMessage_kept [OF assms(1) that(2)] ok [OF that(2)] getDevice_id [OF that(1)] by (simp add: outbox_le_def)
  have mono: "kept_for mc source destination timestamp (im_destinationDeviceId m) m (stored s) (published s)
    \<Longrightarrow> kept_for mc source destination timestamp (im_destinationDeviceId m) m (stored s') (published s')"
    if "outbox_le stored published s s'" for m s s'
    using that kept_for_mono unfolding outbox_le_def by blast
  have "outbox_le stored published s s' \<and> (\<forall>m \<in> set ms. kept_for mc source destination timestamp (im_destinationDeviceId m) m (stored s') (published s'))"
    by (rule send_loop_all [where R = "outbox_le stored published"
          and P = "\<lambda>m s. kept_for mc source destination timestamp (im_destinationDeviceId m) m (stored s) (published s)", OF step mono outbox_le_order assms(3)])
  then show ?thesis ..
qed

text \<open>When somebody listens at an address, messages to it are published.\<close>

lemma sendLocalMessage_published:
  assumes sound: "outbox_sound (mc_cx mc) stored published"
    and listening: "\<forall>msg s. 0 < fst (cx_publish (mc_cx mc) (a_uid destination) (getSerialized \<lparr>da_uid = a_uid destination, da_deviceid = d_id d\<rparr>) msg s)"
    and sent: "sendLocalMessage mc source destination d timestamp m extra s = Inr (ok, s')"
  shows "\<exists>envelope. createEnvelope mc source timestamp m extra = Inr envelope
    \<and> (getSerialized \<lparr>da_uid = a_uid destination, da_deviceid = d_id d\<rparr>,
        cx_pubsub (mc_cx mc) DELIVER (cx_envelope (mc_cx mc) envelope)) \<in> published s'"
proof -
  obtain envelope where e: "createEnvelope mc source timestamp m extra = Inr envelope"
    using sent by (auto simp: sendLocalMessage_def Let_def split: sum.splits)
  let ?a = "\<lparr>da_uid = a_uid destination, da_deviceid = d_id d\<rparr>"
    and ?m = "cx_pubsub (mc_cx mc) DELIVER (cx_envelope (mc_cx mc) envelope)"
  have "s' = snd (cx_publish (mc_cx mc) (a_uid destination) (getSerialized ?a) ?m s)"
    using sent e listening by (simp add: sendLocalMessage_def Let_def publishMessage_def split_beta)
  with sound listening e show ?thesis unfolding outbox_sound_def by blast
qed

text \<open>The devices a list of messages names, and those it has to name.\<close>

definition named_ids :: "IncomingMessageList \<Rightarrow> u32 set" where
  "named_ids messageList = im_destinationDeviceId ` set (ml_messages messageList)"

definition active_ids :: "'s Context \<Rightarrow> Account \<Rightarrow> bool \<Rightarrow> u32 set" where
  "active_ids x destination sync = {d_id d |d. d \<in> set (a_devices destination)
     \<and> isDeviceActive (cx_master x) (cx_now x) d \<and> \<not> (sync \<and> d_id d = a_authDeviceId destination)}"

text \<open>A request that is answered with 200 and not turned away by the filter of the destination.\<close>

definition accepted :: "'s MessageController \<Rightarrow> Account \<Rightarrow> IncomingMessageList \<Rightarrow> string \<Rightarrow> 's \<Rightarrow> Account \<Rightarrow> bool \<Rightarrow> 's \<Rightarrow> bool" where
  "accepted mc source messageList destinationUid s destination sync s' \<longleftrightarrow>
     (\<exists>reply. sendMessage mc source messageList destinationUid s = Inr (reply, s') \<and> rp_status reply = 200)
   \<and> sync = (a_uid source = destinationUid) \<and> destination = (if sync then source else snd (getDestination mc destinationUid))
   \<and> (filterStrangerMsg destination \<and> \<not> sync \<longrightarrow> blocked_by_filter (mc_cx mc) destination (a_uid source) = Inr False)
   \<and> \<not> is_noise (mc_cx mc) messageList"

lemma accepted_loop:
  assumes accepted: "accepted mc source messageList destinationUid s destination sync s'"
    and device: "i \<in> active_ids (mc_cx mc) destination sync"
  shows "\<exists>extra m. send_loop mc source destination (ml_timestamp messageList) extra (ml_messages messageList) s = Inr s'
    \<and> m \<in> set (ml_messages messageList) \<and> im_destinationDeviceId m = i"
proof -
  obtain reply where r: "sendMessage mc source messageList destinationUid s = Inr (reply, s')" "rp_status reply = 200"
    using accepted by (auto simp: accepted_def)
  have "send_checked mc source destination messageList sync s = Inr (reply, s')"
    using r accepted by (auto simp: accepted_def sendMessage_def Let_def split_beta split: if_splits)
  then obtain extra where complete: "fst (validateCompleteDeviceList (mc_cx mc) destination messageList sync)"
    and loop: "send_loop mc source destination (ml_timestamp messageList) extra (ml_messages messageList) s = Inr s'"
    using r(2) by (auto simp: send_checked_def Let_def split_beta split: if_splits sum.splits option.splits bool.splits)
  have "named_ids messageList = active_ids (mc_cx mc) destination sync"
    using complete accepted by (auto simp: accepted_def validateCompleteDeviceList_def validate_ids_iff set_device_ids named_ids_def active_ids_def)
  with device have "i \<in> named_ids messageList" by simp
  then obtain m where "m \<in> set (ml_messages messageList)" "im_destinationDeviceId m = i"
    unfolding named_ids_def by (elim imageE) simp
  with loop show ?thesis by blast
qed

section \<open>A concrete controller\<close>

text \<open>A database that is a list, nobody connected, and a Signal library that always answers.\<close>

definition demo_list_dao :: "StoredMessage list StoredMessages" where
  "demo_list_dao = \<lparr>sd_set = (\<lambda>m s. (Dao_Success, 1, m # s)), sd_get = (\<lambda>d dev n s. (Dao_Success, take n s)),
     sd_del = (\<lambda>d ids s. (Dao_Success, filter (\<lambda>m. st_id m \<notin> set ids) s)), sd_clear = (\<lambda>d s. (Dao_Success, [])),
     sd_clearDevice = (\<lambda>d dev s. (Dao_Success, []))\<rparr>"

definition demo_receiver :: Account where
  "demo_receiver = Account_new\<lparr>a_uid := ''amy'', a_publicKey := ''k'', a_authDeviceId := 1,
     a_devices := [Device_new\<lparr>d_id := 1, d_registrationId := 7, d_fetchesMessages := True, d_lastSeenTime := 5,
       d_signedPreKey := Some \<lparr>spk_keyId = 1, spk_publicKey = ''p'', spk_signature = ''s''\<rparr>\<rparr>]\<rparr>"

definition demo_mc :: "StoredMessage list MessageController" where
  "demo_mc = \<lparr>mc_cx = demo_cx demo_list_dao, mc_getAccount = (\<lambda>uid. (Dao_Success, Some demo_receiver)), mc_deleted = 1, mc_normal = 0,
     mc_b64enc = id, mc_eFrom = (\<lambda>_ e i s. s), mc_signal = (\<lambda>_. \<lparr>sg_context = True, sg_keyPair = Some (''e'', ''f''),
       sg_decodePoint = Some, sg_agreement = (\<lambda>a b. Some ''z''), sg_sha256 = id, sg_aes = (\<lambda>k p. (''i'', p)), sg_serialize = Some\<rparr>),
     mc_messageSize = 100, mc_needUpgrade = False, mc_multiDevice = 0\<rparr>"

definition demo_request :: IncomingMessageList where
  "demo_request = \<lparr>ml_messages = [\<lparr>im_type = 0, im_destination = [], im_destinationDeviceId = 1, im_destinationRegistrationId = 7,
     im_body = [], im_content = ''hi'', im_relay = [], im_timestamp = 0, im_silent = False, im_push = 0\<rparr>], ml_relay = [], ml_timestamp = 9\<rparr>"

lemmas demo_mc_simps = demo_mc_def demo_request_def demo_receiver_def demo_cx_def demo_list_dao_def demo_user_def demo_device_def
  Device_new_def Account_new_def

lemma demo_outbox: "outbox_sound (mc_cx demo_mc) set (\<lambda>_. {})"
  by (auto simp: outbox_sound_def demo_mc_def demo_cx_def demo_list_dao_def)

section \<open>Properties\<close>

text \<open>C8. Whatever a client sends, the handler returns when the sender is authenticated: no access to a
  missing device and no division by zero. In particular the two loops dereference the result of
  \<open>getDevice\<close> only for devices that exist.\<close>

theorem send_no_trap:
  assumes "getAuthDevice source \<noteq> None"
  shows "\<exists>reply s'. sendMessage mc source messageList destinationUid s = Inr (reply, s')"
proof -
  have checked: "\<exists>reply s'. send_checked mc source source messageList True s = Inr (reply, s')"
    "\<exists>reply s'. send_checked mc source d messageList False s = Inr (reply, s')" for d
    using send_checked_total [OF assms, of True source mc messageList s] send_checked_total [OF assms, of False d mc messageList s] assms
    by auto
  show ?thesis
  proof (cases "a_uid source = destinationUid")
    case True
    with checked(1) show ?thesis by (auto simp: sendMessage_def Let_def)
  next
    case False
    let ?d = "snd (getDestination mc destinationUid)"
    obtain b where b: "blocked_by_filter (mc_cx mc) ?d (a_uid source) = Inr b"
      using blocked_by_filter_total [of "mc_cx mc" ?d "a_uid source"] by blast
    from False b checked(2) [of ?d] show ?thesis by (cases b) (auto simp: sendMessage_def Let_def split_beta)
  qed
qed

theorem send_no_trap_witness:
  "getAuthDevice demo_user \<noteq> None \<and> (\<exists>reply s'. sendMessage demo_mc demo_user demo_request ''amy'' [] = Inr (reply, s'))"
  using send_no_trap [of demo_user demo_mc demo_request "''amy''" "[]"]
  by (simp add: getAuthDevice_def demo_user_def demo_device_def)

text \<open>A list of messages is accepted exactly when it names every active device of the destination
  (the sender's own device apart, when the user writes to itself) and no other device; otherwise the
  answer tells the active devices that were missed and, in ascending order, the ids that are none.\<close>

lemma complete_list_iff:
  assumes "\<not> is_noise x messageList"
  shows "case validateCompleteDeviceList x destination messageList sync of (ok, missing, extra) \<Rightarrow>
    (ok \<longleftrightarrow> named_ids messageList = active_ids x destination sync)
    \<and> set missing = active_ids x destination sync - named_ids messageList
    \<and> set extra = named_ids messageList - active_ids x destination sync \<and> sorted extra \<and> distinct extra"
proof -
  let ?ids = "device_ids destination sync (cx_master x) (cx_now x)"
  have v: "validateCompleteDeviceList x destination messageList sync
      = validate_ids (map im_destinationDeviceId (ml_messages messageList)) ?ids"
    using assms by (simp add: validateCompleteDeviceList_def)
  show ?thesis unfolding v active_ids_def named_ids_def set_device_ids [symmetric]
    using validate_ids_iff [of "map im_destinationDeviceId (ml_messages messageList)" ?ids]
    by (auto simp: validate_ids_def Let_def intro: sorted_filter [of id, simplified])
qed

theorem complete_list_iff_witness:
  "\<not> is_noise (mc_cx demo_mc) demo_request \<and> fst (validateCompleteDeviceList (mc_cx demo_mc) demo_receiver demo_request False)"
proof -
  have n: "\<not> is_noise (mc_cx demo_mc) demo_request" by (simp add: is_noise_def demo_mc_simps)
  have "named_ids demo_request = active_ids (mc_cx demo_mc) demo_receiver False"
    by (auto simp: named_ids_def active_ids_def isDeviceActive_def demo_mc_simps)
  with n complete_list_iff [OF n, of demo_receiver False] show ?thesis by (simp add: split_beta)
qed

text \<open>C28. A request that is not answered with 200 has no effect: nothing was published, stored or
  pushed, for no device.\<close>

theorem refused_no_effect:
  assumes "sendMessage mc source messageList destinationUid s = Inr (reply, s')" and "rp_status reply \<noteq> 200"
  shows "s' = s"
proof -
  have "s' = s" if "send_checked mc source d messageList sync s = Inr (reply, s')" for d sync
    using that assms(2) by (auto simp: send_checked_def Let_def split_beta split: if_splits sum.splits option.splits bool.splits)
  with assms(1) show ?thesis
    by (auto simp: sendMessage_def Let_def split_beta split: if_splits sum.splits bool.splits)
qed

theorem refused_no_effect_witness:
  "\<exists>reply s'. sendMessage demo_mc demo_user (demo_request\<lparr>ml_relay := ''r''\<rparr>) ''amy'' [] = Inr (reply, s')
    \<and> rp_status reply \<noteq> 200 \<and> s' = []"
proof -
  have "sendMessage demo_mc demo_user (demo_request\<lparr>ml_relay := ''r''\<rparr>) ''amy'' [] = Inr (\<lparr>rp_status = 400, rp_entity = None\<rparr>, [])"
    by (simp add: sendMessage_def Let_def)
  from this refused_no_effect [OF this] show ?thesis by simp
qed


lemma demo_destination: "getDestination demo_mc ''amy'' = (200, demo_receiver)"
  by (simp add: getDestination_def AccountsManager_get_def Let_def isAccountActive_def getDevice_def isDeviceActive_def
      getAccountLastSeen_def last_seen_loop_def kAccountExpiredTimeInMilli_def demo_mc_simps)


text \<open>The answer says nothing about whether the messages were kept: it is the same whatever
  Redis and the database do, so a message that could neither be published nor stored is acknowledged
  with 200 as well.\<close>

lemma reply_ignores_storage:
  "map_sum id fst (sendMessage (mc\<lparr>mc_cx := (mc_cx mc)\<lparr>cx_dao := dao, cx_publish := publish\<rparr>\<rparr>) source messageList destinationUid s)
     = map_sum id fst (sendMessage mc source messageList destinationUid s)"
  (is "map_sum id fst (sendMessage ?mc source messageList destinationUid s) = _")
proof -
  have pub: "source_extra_loop ?mc uid d i ms e = source_extra_loop mc uid d i ms e" for uid d i ms e
    by (induction ms arbitrary: i e) (simp_all add: generateSourceExtra_def Let_def split: option.split)
  have pre: "must_upgrade ?mc a = must_upgrade mc a" "getDestination ?mc = getDestination mc"
    "blocked_by_filter (mc_cx ?mc) = blocked_by_filter (mc_cx mc)"
    "validateCompleteDeviceList (mc_cx ?mc) = validateCompleteDeviceList (mc_cx mc)" for a
    by (auto simp: must_upgrade_def getDestination_def blocked_by_filter_def validateCompleteDeviceList_def is_noise_def fun_eq_iff
        Let_def split_beta split: option.split sum.split)
  have loops: "send_loop mc source d t e ms s = Inl err \<Longrightarrow> send_loop ?mc source d t e ms s = Inl err"
    "send_loop mc source d t e ms s = Inr s2 \<Longrightarrow> \<exists>s1. send_loop ?mc source d t e ms s = Inr s1" for d t e ms err s2
    using send_loop_total [of ms d source ?mc t e s] send_loop_total [of ms d source mc t e s] by (auto split: if_splits)
  have "map_sum id fst (send_checked ?mc source d messageList b s) = map_sum id fst (send_checked mc source d messageList b s)" for d b
    unfolding send_checked_def pub pre Let_def split_beta
    by (auto split: sum.split option.split bool.split dest: loops)
  then show ?thesis
    unfolding sendMessage_def pre Let_def split_beta by (simp split: sum.split bool.split)
qed

end
