(* ===== verification/Json.thy ===== *)
theory Json
  imports Std_Map "HOL-Library.Monad_Syntax"
begin

text \<open>
  JSON values as the server uses them, and \<open>src/utils/jsonable.h\<close>, the accessors with which
  every request is read. A value is what \<open>nlohmann::json\<close> holds; an object is a sorted map. The text
  form (\<open>dump\<close>, \<open>parse\<close>) belongs to the library and is a parameter where it is used. Reading
  throws a \<open>std::exception\<close> when a key is missing or a type does not fit: \<open>None\<close> here. Numbers are
  integers; no field of a request is a fraction.
\<close>

section \<open>Values\<close>

datatype json =
    JNull
  | JBool bool
  | JInt int
  | JString string
  | JArray "json list"
  | JObject "(string \<times> json) list"

text \<open>\<open>json{{k, v}, ...}\<close>, \<open>j[k] = v\<close> and \<open>j.erase(k)\<close>.\<close>

definition jobj :: "(string \<times> json) list \<Rightarrow> json" where
  "jobj fs = JObject (fold (\<lambda>e. sm_emplace (fst e) (snd e)) fs [])"

fun jset :: "string \<Rightarrow> json \<Rightarrow> json \<Rightarrow> json" where
  "jset k v (JObject m) = JObject (sm_put k v m)"
| "jset k v j = JObject [(k, v)]"

fun jerase :: "string \<Rightarrow> json \<Rightarrow> json" where
  "jerase k (JObject m) = JObject (sm_del k m)"
| "jerase k j = j"

text \<open>\<open>j.find(k)\<close> and \<open>j.at(k)\<close>, with the end of the object and the exception as \<open>None\<close>.\<close>

fun jfind :: "json \<Rightarrow> string \<Rightarrow> json option" where
  "jfind (JObject m) k = map_of m k"
| "jfind j k = None"

fun get_string :: "json \<Rightarrow> string option" where
  "get_string (JString s) = Some s"
| "get_string j = None"

fun get_bool :: "json \<Rightarrow> bool option" where
  "get_bool (JBool b) = Some b"
| "get_bool j = None"

fun get_int :: "json \<Rightarrow> int option" where
  "get_int (JInt i) = Some i"
| "get_int (JBool b) = Some (if b then 1 else 0)"
| "get_int j = None"

fun get_list :: "(json \<Rightarrow> 'a option) \<Rightarrow> json \<Rightarrow> 'a list option" where
  "get_list f (JArray js) = those (map f js)"
| "get_list f j = None"

fun get_string_map :: "json \<Rightarrow> (string \<times> string) list option" where
  "get_string_map (JObject m) = those (map (\<lambda>e. map_option (Pair (fst e)) (get_string (snd e))) m)"
| "get_string_map j = None"

text \<open>A \<open>std::set\<close> read from an array.\<close>

definition set_of :: "'a::linorder list \<Rightarrow> 'a list" where
  "set_of xs = sort (remdups xs)"

section \<open>The accessors\<close>

definition OPTIONAL :: nat where "OPTIONAL = 1"
definition REQUIRE :: nat where "REQUIRE = 2"
definition NOT_EMPTY :: nat where "NOT_EMPTY = 4"

definition isOptional :: "nat \<Rightarrow> bool" where "isOptional flags \<longleftrightarrow> flags AND OPTIONAL \<noteq> 0"
definition isNotEmpty :: "nat \<Rightarrow> bool" where "isNotEmpty flags \<longleftrightarrow> flags AND NOT_EMPTY \<noteq> 0"

text \<open>An optional key that is missing or null leaves the field as it is.\<close>

definition skip_optional :: "json \<Rightarrow> string \<Rightarrow> nat \<Rightarrow> bool" where
  "skip_optional j key flags \<longleftrightarrow> isOptional flags \<and> (jfind j key = None \<or> jfind j key = Some JNull)"

definition toString :: "json \<Rightarrow> string \<Rightarrow> nat \<Rightarrow> string \<Rightarrow> string option" where
  "toString j key flags s =
     (if skip_optional j key flags then Some s
      else do {
        v \<leftarrow> jfind j key;
        t \<leftarrow> get_string v;
        if isNotEmpty flags \<and> t = [] then None else Some t })"

definition toBoolean :: "json \<Rightarrow> string \<Rightarrow> nat \<Rightarrow> bool \<Rightarrow> bool option" where
  "toBoolean j key flags b =
     (if skip_optional j key flags then Some b
      else do {
        v \<leftarrow> jfind j key;
        case get_string v of
          None \<Rightarrow> get_bool v
        | Some tmp \<Rightarrow>
            if map to_lower tmp = ''true'' then Some True else if map to_lower tmp = ''false'' then Some False else None })"

text \<open>A number may be written as a string; \<open>cast\<close> is the conversion to the type of the field and
  \<open>lexical\<close> is \<open>boost::lexical_cast\<close>.\<close>

definition toNumber :: "(string \<Rightarrow> 'n option) \<Rightarrow> (int \<Rightarrow> 'n) \<Rightarrow> json \<Rightarrow> string \<Rightarrow> nat \<Rightarrow> 'n \<Rightarrow> 'n option" where
  "toNumber lexical cast j key flags a =
     (if skip_optional j key flags then Some a
      else do {
        v \<leftarrow> jfind j key;
        case get_string v of None \<Rightarrow> map_option cast (get_int v) | Some t \<Rightarrow> lexical t })"

definition toGeneric :: "(json \<Rightarrow> 'a option) \<Rightarrow> json \<Rightarrow> string \<Rightarrow> nat \<Rightarrow> 'a \<Rightarrow> 'a option" where
  "toGeneric get j key flags t = (if skip_optional j key flags then Some t else do { v \<leftarrow> jfind j key; get v })"

text \<open>\<open>safe_parse\<close> for an object, with the parser of the library.\<close>

definition safe_parse :: "(string \<Rightarrow> json option) \<Rightarrow> string \<Rightarrow> json" where
  "safe_parse parse content = (case parse content of None \<Rightarrow> JObject [] | Some j \<Rightarrow> j)"

text \<open>The conversion to \<open>int32_t\<close> and \<open>int64_t\<close>.\<close>

definition to_i32 :: "int \<Rightarrow> int" where "to_i32 = signed_take_bit 31"
definition to_i64 :: "int \<Rightarrow> int" where "to_i64 = signed_take_bit 63"

section \<open>Laws\<close>

lemma flags_simps [simp]:
  "isOptional OPTIONAL" "\<not> isOptional REQUIRE" "\<not> isNotEmpty REQUIRE" "\<not> isNotEmpty OPTIONAL" "isNotEmpty NOT_EMPTY"
  by (simp_all add: isOptional_def isNotEmpty_def OPTIONAL_def REQUIRE_def NOT_EMPTY_def)

lemma toString_present: "jfind j k = Some (JString s) \<Longrightarrow> s \<noteq> [] \<or> \<not> isNotEmpty flags \<Longrightarrow> toString j k flags d = Some s"
  by (auto simp: toString_def skip_optional_def)

lemma toNumber_present: "jfind j k = Some (JInt i) \<Longrightarrow> toNumber lexical cast j k flags d = Some (cast i)"
  by (auto simp: toNumber_def skip_optional_def)

lemma toGeneric_present: "jfind j k = Some v \<Longrightarrow> v \<noteq> JNull \<Longrightarrow> toGeneric get j k flags d = get v"
  by (auto simp: toGeneric_def skip_optional_def)

lemma map_of_fold_emplace: "map_of (fold (\<lambda>e. sm_emplace (fst e) (snd e)) fs m) = map_of fs ++ map_of m"
proof (induction fs arbitrary: m)
  case Nil
  then show ?case by simp
next
  case (Cons e fs)
  have "map_of fs ++ map_of (sm_emplace (fst e) (snd e) m) = map_of (e # fs) ++ map_of m"
    by (auto simp: fun_eq_iff map_add_def map_of_sm_emplace split: option.splits)
  then show ?case using Cons by (simp add: fun_upd_def)
qed

lemma jfind_jobj [simp]: "jfind (jobj fs) k = map_of fs k"
  by (simp add: jobj_def map_of_fold_emplace)

lemma jfind_jset: "jfind (jset k v j) k' = (if k' = k then Some v else jfind (case j of JObject m \<Rightarrow> j | _ \<Rightarrow> JNull) k')"
  by (cases j) auto

lemma those_map_Some: "(\<And>x. x \<in> set xs \<Longrightarrow> f (g x) = Some x) \<Longrightarrow> those (map (f \<circ> g) xs) = Some xs"
  by (induction xs) auto

lemma get_list_map: "(\<And>x. f (g x) = Some x) \<Longrightarrow> get_list f (JArray (map g xs)) = Some xs"
  using those_map_Some [of xs f g] by (simp add: comp_def)

lemma set_of_sorted: "sorted xs \<Longrightarrow> distinct xs \<Longrightarrow> set_of xs = xs"
  by (simp add: set_of_def distinct_remdups_id sorted_sort_id)

lemma to_i32_id: "- (2 ^ 31) \<le> i \<Longrightarrow> i < 2 ^ 31 \<Longrightarrow> to_i32 i = i"
  by (simp add: to_i32_def signed_take_bit_int_eq_self)

lemma to_i64_id: "- (2 ^ 63) \<le> i \<Longrightarrow> i < 2 ^ 63 \<Longrightarrow> to_i64 i = i"
  by (simp add: to_i64_def signed_take_bit_int_eq_self)

end
