(* ===== verification/Keys.thy ===== *)
theory Keys
  imports Authenticator
begin

text \<open>
  \<open>src/store/keys_manager.cpp\<close> and \<open>src/controllers/keys_controller.cpp\<close>: the keys with
  which a session with a device is started. A device uploads a signed key and a stock of one-time keys;
  who wants to write to it takes one of them. The database of one-time keys (\<open>dao::OnetimeKeys\<close>) is
  a record of functions on a state of any type; taking a key deletes it there. Handlers give the status, the
  entity of the answer and what the account database was asked to write.
\<close>

section \<open>Data\<close>

record PreKey =
  pk_keyId :: u64
  pk_publicKey :: string

record OnetimeKey =
  ok_uid :: string
  ok_deviceId :: u32
  ok_keyId :: u64
  ok_publicKey :: string

record PreKeyState =
  ks_preKeys :: "PreKey list"
  ks_signedPreKey :: SignedPreKey
  ks_identityKey :: string

record PreKeyResponseItem =
  ri_deviceId :: int
  ri_registrationId :: int
  ri_deviceIdentityKey :: string
  ri_accountSignature :: string
  ri_signedPreKey :: "SignedPreKey option"
  ri_preKey :: "PreKey option"

record PreKeyResponse =
  kr_identityKey :: string
  kr_devices :: "PreKeyResponseItem list"

record 's OnetimeKeys =
  od_get :: "string \<Rightarrow> 's \<Rightarrow> dao_code \<times> OnetimeKey list \<times> 's"
  od_getDevice :: "string \<Rightarrow> u32 \<Rightarrow> 's \<Rightarrow> dao_code \<times> OnetimeKey \<times> 's"
  od_getCount :: "string \<Rightarrow> u32 \<Rightarrow> 's \<Rightarrow> dao_code \<times> u32"
  od_set :: "string \<Rightarrow> u32 \<Rightarrow> OnetimeKey list \<Rightarrow> string \<Rightarrow> SignedPreKey \<Rightarrow> 's \<Rightarrow> dao_code \<times> 's"
  od_clear :: "string \<Rightarrow> 's \<Rightarrow> dao_code \<times> 's"
  od_clearDevice :: "string \<Rightarrow> u32 \<Rightarrow> 's \<Rightarrow> dao_code \<times> 's"

definition SignedPreKey_new :: SignedPreKey where
  "SignedPreKey_new = \<lparr>spk_keyId = 0, spk_publicKey = [], spk_signature = []\<rparr>"

text \<open>The accessor of an optional field gives the default value when the field is not set.\<close>

definition signedprekey :: "Device \<Rightarrow> SignedPreKey" where
  "signedprekey device = (case d_signedPreKey device of None \<Rightarrow> SignedPreKey_new | Some k \<Rightarrow> k)"

section \<open>KeysManager\<close>

definition KeysManager_get :: "'s OnetimeKeys \<Rightarrow> string \<Rightarrow> u32 option \<Rightarrow> 's \<Rightarrow> bool \<times> OnetimeKey list \<times> 's" where
  "KeysManager_get dao uid deviceId s =
     (let (error, keys, s') =
            (case deviceId of
               Some d \<Rightarrow> (let (error, key, s') = od_getDevice dao uid d s in (error, if error = Dao_Success then [key] else [], s'))
             | None \<Rightarrow> od_get dao uid s)
      in (error = Dao_Success \<or> error = Dao_NoSuchData, keys, s'))"

text \<open>The count is \<open>None\<close> when it cannot be read.\<close>

definition KeysManager_getCount :: "'s OnetimeKeys \<Rightarrow> string \<Rightarrow> u32 \<Rightarrow> 's \<Rightarrow> u32 option" where
  "KeysManager_getCount dao uid deviceId s =
     (let (error, count) = od_getCount dao uid deviceId s
      in if error = Dao_NoSuchData then Some 0
         else if error \<noteq> Dao_Success then None
         else Some count)"

definition KeysManager_set ::
    "'s OnetimeKeys \<Rightarrow> string \<Rightarrow> u32 \<Rightarrow> OnetimeKey list \<Rightarrow> string \<Rightarrow> SignedPreKey \<Rightarrow> 's \<Rightarrow> bool \<times> 's" where
  "KeysManager_set dao uid deviceId keys identityKey signedPreKey s =
     (let (error, s') = od_set dao uid deviceId keys identityKey signedPreKey s in (error = Dao_Success, s'))"

definition KeysManager_clear :: "'s OnetimeKeys \<Rightarrow> string \<Rightarrow> u32 option \<Rightarrow> 's \<Rightarrow> bool \<times> 's" where
  "KeysManager_clear dao uid deviceId s =
     (let (error, s') = (case deviceId of Some d \<Rightarrow> od_clearDevice dao uid d s | None \<Rightarrow> od_clear dao uid s)
      in (error = Dao_Success, s'))"

section \<open>KeysController\<close>

record 's KeysController =
  kc_dao :: "'s OnetimeKeys"
  kc_getAccount :: "string \<Rightarrow> dao_code \<times> Account option"
  kc_updateAccount :: "Account \<Rightarrow> AccountField \<Rightarrow> dao_code"
  kc_updateDevice :: "Account \<Rightarrow> DeviceField \<Rightarrow> dao_code"
  kc_onetimeKeySize :: nat
  kc_master :: u32
  kc_normal :: nat
  kc_now :: int

text \<open>One key is kept back: it is not counted.\<close>

definition getStatus :: "'s KeysController \<Rightarrow> Account \<Rightarrow> 's \<Rightarrow> nat \<times> u32 option" where
  "getStatus kc account s =
     (case KeysManager_getCount (kc_dao kc) (a_uid account) (a_authDeviceId account) s of
        None \<Rightarrow> (500, None)
      | Some count \<Rightarrow> (200, Some (if 0 < count then count - 1 else count)))"

definition onetime_key :: "Account \<Rightarrow> PreKey \<Rightarrow> OnetimeKey" where
  "onetime_key account preKey =
     \<lparr>ok_uid = a_uid account, ok_deviceId = a_authDeviceId account, ok_keyId = pk_keyId preKey, ok_publicKey = pk_publicKey preKey\<rparr>"

text \<open>The device is a reference into the account, which the modification writes: the signed key stored with
  the one-time keys is read after it.\<close>

definition setKeys ::
    "'s KeysController \<Rightarrow> Account \<Rightarrow> PreKeyState \<Rightarrow> 's \<Rightarrow> cpp_error + nat \<times> (Account \<times> AccountField) option \<times> 's" where
  "setKeys kc account keyState s =
     (let keys = map (onetime_key account) (ks_preKeys keyState)
      in if kc_onetimeKeySize kc < length keys then Inr (400, None, s)
         else case getAuthDevice account of
                None \<Rightarrow> Inl NoneAccess
              | Some device \<Rightarrow>
                  (let mdAccount = ModifyAccount_new account;
                       mDev = (if ks_signedPreKey keyState \<noteq> signedprekey device then getMutableDevice (d_id device) mdAccount else None);
                       mdAccount' = (case mDev of None \<Rightarrow> mdAccount | Some k \<Rightarrow> device_mutable_signedprekey k (ks_signedPreKey keyState) mdAccount);
                       (updated, written) = (if mDev \<noteq> None then updateAccount (kc_updateAccount kc) mdAccount' else (True, None))
                   in if \<not> updated then Inr (500, written, s)
                      else if keys = [] then Inr (200, written, s)
                      else case getAuthDevice (md_account mdAccount') of
                             None \<Rightarrow> Inl NoneAccess
                           | Some device' \<Rightarrow>
                               (let (ret, s') = KeysManager_set (kc_dao kc) (a_uid account) (a_authDeviceId account) keys
                                                  (a_identityKey account) (signedprekey device') s
                                in if \<not> ret then Inr (500, written, s') else Inr (200, written, s'))))"

text \<open>\<open>getAccount\<close>: negative is an error of the database, zero an account or device that is not
  there.\<close>

definition getAccount :: "'s KeysController \<Rightarrow> string \<Rightarrow> string \<Rightarrow> int \<times> Account" where
  "getAccount kc uid deviceSelector =
     (let (error, loaded) = AccountsManager_get (kc_getAccount kc) uid;
          account = (case loaded of Some a \<Rightarrow> a | None \<Rightarrow> Account_new)
      in (if error = Dao_NoSuchData then 0
          else if error \<noteq> Dao_Success then -1
          else if \<not> isAccountActive (kc_master kc) (kc_normal kc) (kc_now kc) account then 0
          else if deviceSelector = ''*'' then 1
          else case stoul deviceSelector of
                 None \<Rightarrow> 0
               | Some deviceId \<Rightarrow> if getDevice account (word_of_nat deviceId) \<noteq> None then 1 else 0, account))"

definition response_item :: "u32 \<Rightarrow> Account \<Rightarrow> OnetimeKey list \<Rightarrow> Device \<Rightarrow> PreKeyResponseItem option" where
  "response_item master target targetKeys d =
     (let preKey = map_option (\<lambda>k. \<lparr>pk_keyId = ok_keyId k, pk_publicKey = ok_publicKey k\<rparr>)
                     (List.find (\<lambda>k. ok_deviceId k = d_id d) targetKeys)
      in if d_signedPreKey d \<noteq> None \<or> preKey \<noteq> None
         then Some \<lparr>ri_deviceId = sint (d_id d), ri_registrationId = sint (d_registrationId d),
                ri_deviceIdentityKey = (if d_id d = master \<and> d_publicKey d = [] then a_identityKey target else d_publicKey d),
                ri_accountSignature = d_accountSignature d, ri_signedPreKey = d_signedPreKey d, ri_preKey = preKey\<rparr>
         else None)"

definition getDeviceKeys ::
    "'s KeysController \<Rightarrow> string \<Rightarrow> string \<Rightarrow> 's \<Rightarrow> cpp_error + (nat \<times> PreKeyResponse option) \<times> 's" where
  "getDeviceKeys kc targetUid targetDeviceIdSelector s =
     (let (ret, target) = getAccount kc targetUid targetDeviceIdSelector; all = (targetDeviceIdSelector = ''*'')
      in if ret = 0 then Inr ((404, None), s)
         else if ret < 0 then Inr ((500, None), s)
         else case (if all then Some 0 else stoul targetDeviceIdSelector) of
                None \<Rightarrow> Inl ThrowStd
              | Some n \<Rightarrow>
                  (let targetDeviceId = word_of_nat n;
                       (bRet, targetKeys, s') = KeysManager_get (kc_dao kc) targetUid (if all then None else Some targetDeviceId) s
                   in if \<not> bRet then Inr ((500, None), s')
                      else let devices = List.map_filter (response_item (kc_master kc) target targetKeys)
                                 (filter (\<lambda>d. isDeviceActive (kc_master kc) (kc_now kc) d \<and> (all \<or> d_id d = targetDeviceId)) (a_devices target))
                           in if devices = [] then Inr ((404, None), s')
                              else Inr ((200, Some \<lparr>kr_identityKey = a_identityKey target, kr_devices = devices\<rparr>), s')))"

definition setSignedKey ::
    "'s KeysController \<Rightarrow> Account \<Rightarrow> SignedPreKey \<Rightarrow> cpp_error + nat \<times> (Account \<times> DeviceField) option" where
  "setSignedKey kc account signedPreKey =
     (case getAuthDevice account of
        None \<Rightarrow> Inl NoneAccess
      | Some device \<Rightarrow>
          (case getMutableDevice (d_id device) (ModifyAccount_new account) of
             None \<Rightarrow> Inl NoneAccess
           | Some k \<Rightarrow>
               (let (ok, written) = updateDevice (kc_updateDevice kc)
                                      (device_mutable_signedprekey k signedPreKey (ModifyAccount_new account)) (d_id device)
                in Inr (if ok then 204 else 500, written))))"

definition getSignedKey :: "Account \<Rightarrow> cpp_error + nat \<times> SignedPreKey option" where
  "getSignedKey account =
     (case getAuthDevice account of
        None \<Rightarrow> Inl NoneAccess
      | Some device \<Rightarrow>
          (case d_signedPreKey device of
             None \<Rightarrow> Inr (404, None)
           | Some k \<Rightarrow> Inr (200, Some k)))"

section \<open>Lemmas: the signed key\<close>

lemma find_update_first:
  "find_index P xs = Some k \<Longrightarrow> P y \<Longrightarrow> List.find P (xs[k := y]) = Some y"
  by (induction xs arbitrary: k) (auto split: if_splits nat.splits)

lemma find_Some_in: "List.find P xs = Some x \<Longrightarrow> x \<in> set xs \<and> P x"
  by (induction xs) (auto split: if_splits)

text \<open>Writing the signed key through the reference to the authenticated device changes that device and
  records the change.\<close>

lemma write_signed:
  assumes "getAuthDevice account = Some device"
  obtains k df where "getMutableDevice (d_id device) (ModifyAccount_new account) = Some k"
    and "getAuthDevice (md_account (device_mutable_signedprekey k v (ModifyAccount_new account))) = Some (device\<lparr>d_signedPreKey := Some v\<rparr>)"
    and "md_field (device_mutable_signedprekey k v (ModifyAccount_new account))
      = \<lparr>af_modifyFields = [], af_modifyFilters = None, af_devices = [df]\<rparr>"
    and "df = \<lparr>df_id = d_id device, df_modifyFields = [''signedPreKey''], df_isCreate = False, df_isErase = False\<rparr>"
    and "md_miss (device_mutable_signedprekey k v (ModifyAccount_new account)) = []"
proof -
  have i: "d_id device = a_authDeviceId account" using assms by (auto simp: getAuthDevice_def find_Some_iff)
  have "getDevice account (d_id device) = Some device" using assms i by (simp add: getDevice_def getAuthDevice_def)
  then obtain k where k: "getMutableDevice (d_id device) (ModifyAccount_new account) = Some k" "k < length (a_devices account)" "a_devices account ! k = device"
    using getMutable_of_getDevice by blast
  have "find_index (\<lambda>d. d_id d = a_authDeviceId account) (a_devices account) = Some k"
    using k(1) i by (simp add: getMutableDevice_def ModifyAccount_new_def)
  then have "getAuthDevice (md_account (device_mutable_signedprekey k v (ModifyAccount_new account))) = Some (device\<lparr>d_signedPreKey := Some v\<rparr>)"
    using k i find_update_first [of "\<lambda>d. d_id d = a_authDeviceId account" "a_devices account" k "device\<lparr>d_signedPreKey := Some v\<rparr>"]
    by (simp add: getAuthDevice_def device_mutable_signedprekey_def set_device_def Let_def ModifyAccount_new_def addStringDeviceField_def checkFieldName_def)
  with that [of k] k show thesis
    by (simp add: device_mutable_signedprekey_def set_device_def Let_def ModifyAccount_new_def addStringDeviceField_def checkFieldName_def)
qed

section \<open>Lemmas: taking keys\<close>

text \<open>What the comments of \<open>dao::OnetimeKeys\<close> say about taking a key: what is returned was in the stock
  and is deleted; a key belongs to the device it was asked for, and there is one for each device.\<close>

definition stock_sound :: "'s OnetimeKeys \<Rightarrow> ('s \<Rightarrow> OnetimeKey set) \<Rightarrow> bool" where
  "stock_sound dao stock \<longleftrightarrow>
     (\<forall>uid s. case od_get dao uid s of (error, keys, s') \<Rightarrow>
        set keys \<subseteq> {k \<in> stock s. ok_uid k = uid} \<and> distinct (map ok_deviceId keys) \<and> stock s' \<subseteq> stock s - set keys)
   \<and> (\<forall>uid d s. case od_getDevice dao uid d s of (error, key, s') \<Rightarrow> stock s' \<subseteq> stock s
        \<and> (error = Dao_Success \<longrightarrow> key \<in> stock s \<and> ok_uid key = uid \<and> ok_deviceId key = d \<and> key \<notin> stock s'))"

text \<open>The keys a response hands out.\<close>

definition handed_out :: "string \<Rightarrow> PreKeyResponse \<Rightarrow> (string \<times> int \<times> PreKey) list" where
  "handed_out uid r = concat (map (\<lambda>item. case ri_preKey item of None \<Rightarrow> [] | Some k \<Rightarrow> [(uid, ri_deviceId item, k)]) (kr_devices r))"

definition key_name :: "OnetimeKey \<Rightarrow> string \<times> int \<times> PreKey" where
  "key_name k = (ok_uid k, sint (ok_deviceId k), \<lparr>pk_keyId = ok_keyId k, pk_publicKey = ok_publicKey k\<rparr>)"

lemma key_name_inj: "key_name a = key_name b \<longleftrightarrow> a = b"
  by (cases a; cases b) (auto simp: key_name_def intro: signed_word_eqI)

fun serve_keys :: "'s KeysController \<Rightarrow> (string \<times> string) list \<Rightarrow> 's \<Rightarrow> (string \<times> int \<times> PreKey) list" where
  "serve_keys kc [] s = []"
| "serve_keys kc ((uid, selector) # requests) s =
     (case getDeviceKeys kc uid selector s of
        Inl e \<Rightarrow> []
      | Inr ((status, response), s') \<Rightarrow>
          (case response of None \<Rightarrow> [] | Some r \<Rightarrow> handed_out uid r) @ serve_keys kc requests s')"

text \<open>The items of a response name keys of the list that was taken, each device its own.\<close>

lemma handed_out_items:
  assumes "distinct (map d_id ds)" and "distinct (map ok_deviceId keys)" and "\<forall>k \<in> set keys. ok_uid k = uid"
  shows "distinct (handed_out uid \<lparr>kr_identityKey = i, kr_devices = List.map_filter (response_item master target keys) ds\<rparr>)
    \<and> set (handed_out uid \<lparr>kr_identityKey = i, kr_devices = List.map_filter (response_item master target keys) ds\<rparr>)
        \<subseteq> key_name ` {k \<in> set keys. ok_deviceId k \<in> d_id ` set ds}"
  using assms(1)
proof (induction ds)
  case Nil
  then show ?case by (simp add: handed_out_def)
next
  case (Cons d ds)
  let ?f = "\<lambda>ds. handed_out uid \<lparr>kr_identityKey = i, kr_devices = List.map_filter (response_item master target keys) ds\<rparr>"
  let ?h = "case List.find (\<lambda>k. ok_deviceId k = d_id d) keys of None \<Rightarrow> [] | Some k \<Rightarrow> [key_name k]"
  have h: "?f (d # ds) = ?h @ ?f ds"
  proof (cases "List.find (\<lambda>k. ok_deviceId k = d_id d) keys")
    case None
    then show ?thesis by (simp add: handed_out_def response_item_def List.map_filter_simps)
  next
    case (Some k)
    then have "ok_deviceId k = d_id d" "ok_uid k = uid" using assms(3) by (auto simp: find_Some_iff)
    with Some show ?thesis by (simp add: handed_out_def response_item_def key_name_def List.map_filter_simps)
  qed
  have hs: "set ?h \<subseteq> key_name ` {k \<in> set keys. ok_deviceId k = d_id d}" "distinct ?h"
    by (auto split: option.splits dest: find_Some_in [OF sym])
  have d: "d_id d \<notin> d_id ` set ds" "distinct (map d_id ds)" using Cons.prems by auto
  note ih = Cons.IH [OF d(2)]
  have "set ?h \<inter> set (?f ds) = {}"
  proof (intro equals0I, elim IntE)
    fix x assume "x \<in> set ?h" "x \<in> set (?f ds)"
    with subsetD [OF hs(1)] subsetD [OF conjunct2 [OF ih]] obtain a b
      where "x = key_name a" "ok_deviceId a = d_id d" "x = key_name b" "ok_deviceId b \<in> d_id ` set ds" by blast
    with d(1) show False by (simp add: key_name_inj)
  qed
  moreover have "set ?h \<union> set (?f ds) \<subseteq> key_name ` {k \<in> set keys. ok_deviceId k \<in> d_id ` set (d # ds)}"
    using hs(1) conjunct2 [OF ih] by auto
  ultimately show ?case unfolding h using hs(2) conjunct1 [OF ih] by simp
qed

lemma stock_soundD:
  assumes "stock_sound dao stock"
  shows "od_get dao uid s = (error, keys, s') \<Longrightarrow> set keys \<subseteq> {k \<in> stock s. ok_uid k = uid} \<and> distinct (map ok_deviceId keys) \<and> stock s' \<subseteq> stock s - set keys"
    and "od_getDevice dao uid d s = (error, key, s') \<Longrightarrow> stock s' \<subseteq> stock s
      \<and> (error = Dao_Success \<longrightarrow> key \<in> stock s \<and> ok_uid key = uid \<and> ok_deviceId key = d \<and> key \<notin> stock s')"
proof -
  note a = assms [unfolded stock_sound_def]
  show "od_get dao uid s = (error, keys, s') \<Longrightarrow> set keys \<subseteq> {k \<in> stock s. ok_uid k = uid} \<and> distinct (map ok_deviceId keys) \<and> stock s' \<subseteq> stock s - set keys"
    using conjunct1 [OF a, THEN spec, of uid, THEN spec, of s] by simp
  show "od_getDevice dao uid d s = (error, key, s') \<Longrightarrow> stock s' \<subseteq> stock s
      \<and> (error = Dao_Success \<longrightarrow> key \<in> stock s \<and> ok_uid key = uid \<and> ok_deviceId key = d \<and> key \<notin> stock s')"
    using conjunct2 [OF a, THEN spec, of uid, THEN spec, of d, THEN spec, of s] by simp
qed

text \<open>One request: the keys it hands out were in the stock, are distinct, and are gone.\<close>

lemma KeysManager_get_sound:
  assumes "stock_sound dao stock" and "KeysManager_get dao uid d s = (ok, keys, s')"
  shows "set keys \<subseteq> stock s \<and> (\<forall>k \<in> set keys. ok_uid k = uid) \<and> distinct (map ok_deviceId keys) \<and> stock s' \<subseteq> stock s - set keys"
proof (cases d)
  case None
  then have "\<exists>error. od_get dao uid s = (error, keys, s')"
    using assms(2) by (auto simp: KeysManager_get_def Let_def split: prod.splits)
  then show ?thesis using stock_soundD(1) [OF assms(1)] by blast
next
  case (Some i)
  obtain error key s1 where g: "od_getDevice dao uid i s = (error, key, s1)" by (metis prod_cases3)
  then have "keys = (if error = Dao_Success then [key] else [])" "s1 = s'"
    using Some assms(2) by (auto simp: KeysManager_get_def Let_def)
  moreover have "stock s1 \<subseteq> stock s \<and> (error = Dao_Success \<longrightarrow> key \<in> stock s \<and> ok_uid key = uid \<and> ok_deviceId key = i \<and> key \<notin> stock s1)"
    using stock_soundD(2) [OF assms(1) g] .
  ultimately show ?thesis by auto
qed

lemma getDeviceKeys_total: "\<exists>r. getDeviceKeys kc uid selector s = Inr r"
  by (cases "stoul selector")
    (auto simp: getDeviceKeys_def getAccount_def Let_def split_beta split: if_splits)

lemma getDeviceKeys_stock:
  assumes sound: "stock_sound (kc_dao kc) stock" and ids: "distinct (map d_id (a_devices (snd (getAccount kc uid selector))))"
    and r: "getDeviceKeys kc uid selector s = Inr ((status, response), s')"
  shows "\<exists>K. K \<subseteq> stock s \<and> stock s' \<subseteq> stock s - K
    \<and> (\<forall>r. response = Some r \<longrightarrow> distinct (handed_out uid r) \<and> set (handed_out uid r) \<subseteq> key_name ` K)"
proof (cases "s' = s \<and> response = None")
  case True
  then show ?thesis by (intro exI [of _ "{}"]) simp
next
  case False
  obtain d ok keys where g: "KeysManager_get (kc_dao kc) uid d s = (ok, keys, s')"
    and resp: "\<And>r. response = Some r \<Longrightarrow> \<exists>P. r = \<lparr>kr_identityKey = a_identityKey (snd (getAccount kc uid selector)),
      kr_devices = List.map_filter (response_item (kc_master kc) (snd (getAccount kc uid selector)) keys)
        (filter P (a_devices (snd (getAccount kc uid selector))))\<rparr>"
    using r False by (auto simp: getDeviceKeys_def Let_def split_beta split: if_splits option.splits) (metis prod.collapse)+
  note k = KeysManager_get_sound [OF sound g]
  have "distinct (handed_out uid r) \<and> set (handed_out uid r) \<subseteq> key_name ` set keys" if "response = Some r" for r
  proof -
    obtain P where P: "r = \<lparr>kr_identityKey = a_identityKey (snd (getAccount kc uid selector)),
      kr_devices = List.map_filter (response_item (kc_master kc) (snd (getAccount kc uid selector)) keys)
        (filter P (a_devices (snd (getAccount kc uid selector))))\<rparr>" using resp [OF \<open>response = Some r\<close>] by blast
    have "distinct (map d_id (filter P (a_devices (snd (getAccount kc uid selector)))))"
      using ids by (rule distinct_map_filter)
    from handed_out_items [OF this, of keys uid] k show ?thesis unfolding P by fastforce
  qed
  with k show ?thesis by (intro exI [of _ "set keys"]) blast
qed

section \<open>Properties\<close>

text \<open>C29. A one-time key is handed out once: over any sequence of requests for the keys of devices, with
  any selectors, the keys in all the answers together are distinct and were in the stock, when accounts
  have no two devices with one id and the database deletes the keys it returns, as its interface says.\<close>

theorem onetime_keys_once:
  assumes sound: "stock_sound (kc_dao kc) stock" and ids: "\<forall>uid selector. distinct (map d_id (a_devices (snd (getAccount kc uid selector))))"
  shows "distinct (serve_keys kc requests s) \<and> set (serve_keys kc requests s) \<subseteq> key_name ` stock s"
proof (induction requests arbitrary: s)
  case (Cons req requests)
  obtain uid selector where req: "req = (uid, selector)" by (cases req)
  obtain status response s' where g: "getDeviceKeys kc uid selector s = Inr ((status, response), s')"
    using getDeviceKeys_total [of kc uid selector s] by (metis prod.collapse)
  obtain K where K: "K \<subseteq> stock s" "stock s' \<subseteq> stock s - K"
    "\<And>r. response = Some r \<Longrightarrow> distinct (handed_out uid r) \<and> set (handed_out uid r) \<subseteq> key_name ` K"
    using getDeviceKeys_stock [OF sound ids [rule_format] g] by (elim exE conjE) simp
  let ?h = "case response of None \<Rightarrow> [] | Some r \<Rightarrow> handed_out uid r"
  have h: "distinct ?h" "set ?h \<subseteq> key_name ` K" using K(3) by (auto split: option.split)
  have ih: "distinct (serve_keys kc requests s')" "set (serve_keys kc requests s') \<subseteq> key_name ` stock s'"
    using Cons.IH by blast+
  have "key_name ` K \<inter> key_name ` stock s' = {}" using K(2) by (auto simp: key_name_inj)
  then have "set ?h \<inter> set (serve_keys kc requests s') = {}" using h(2) ih(2) by blast
  moreover have "set ?h \<union> set (serve_keys kc requests s') \<subseteq> key_name ` stock s" using h(2) ih(2) K(1,2) by blast
  ultimately show ?case using h(1) ih(1) by (simp add: req g)
qed simp

text \<open>A stock that is a list of keys, and an account with one active device.\<close>

definition demo_stock :: "OnetimeKey list OnetimeKeys" where
  "demo_stock = \<lparr>od_get = (\<lambda>uid s. (Dao_NoSuchData, [], s)),
     od_getDevice = (\<lambda>uid d s. case List.find (\<lambda>k. ok_uid k = uid \<and> ok_deviceId k = d) s of
        None \<Rightarrow> (Dao_NoSuchData, \<lparr>ok_uid = [], ok_deviceId = 0, ok_keyId = 0, ok_publicKey = []\<rparr>, s)
      | Some k \<Rightarrow> (Dao_Success, k, removeAll k s)),
     od_getCount = (\<lambda>uid d s. (Dao_Success, word_of_nat (length s))), od_set = (\<lambda>uid d ks i p s. (Dao_Success, ks)),
     od_clear = (\<lambda>uid s. (Dao_Success, [])), od_clearDevice = (\<lambda>uid d s. (Dao_Success, []))\<rparr>"

definition demo_key_account :: Account where
  "demo_key_account = Account_new\<lparr>a_uid := ''bob'', a_authDeviceId := 1, a_devices := [Device_new\<lparr>d_id := 1, d_fetchesMessages := True,
     d_lastSeenTime := 5, d_signedPreKey := Some \<lparr>spk_keyId = 1, spk_publicKey = ''p'', spk_signature = ''s''\<rparr>\<rparr>]\<rparr>"

definition demo_kc :: "OnetimeKey list KeysController" where
  "demo_kc = \<lparr>kc_dao = demo_stock, kc_getAccount = (\<lambda>_. (Dao_Success, Some demo_key_account)), kc_updateAccount = (\<lambda>_ _. Dao_Success),
     kc_updateDevice = (\<lambda>_ _. Dao_Success), kc_onetimeKeySize = 100, kc_master = 1, kc_normal = 0, kc_now = 0\<rparr>"

definition demo_onetime :: "u64 \<Rightarrow> OnetimeKey" where
  "demo_onetime n = \<lparr>ok_uid = ''bob'', ok_deviceId = 1, ok_keyId = n, ok_publicKey = ''q''\<rparr>"

theorem onetime_keys_once_witness:
  "stock_sound (kc_dao demo_kc) set
    \<and> distinct (serve_keys demo_kc [(''bob'', ''1''), (''bob'', ''1''), (''bob'', ''1'')] [demo_onetime 1, demo_onetime 2])"
proof -
  have s: "stock_sound (kc_dao demo_kc) set"
    by (auto simp: stock_sound_def demo_kc_def demo_stock_def split: option.split dest: find_Some_in)
  have "\<forall>uid selector. distinct (map d_id (a_devices (snd (getAccount demo_kc uid selector))))"
    by (simp add: getAccount_def AccountsManager_get_def Let_def demo_kc_def demo_key_account_def)
  with onetime_keys_once [OF s] s show ?thesis by blast
qed

text \<open>C32. Uploading keys: the handler returns for an authenticated device, and when it answers 200, the
  account database was asked to write exactly when the signed key differs from that of the device, the account
  written has the new signed key at the device, with that field and no other recorded, and the one-time keys,
  all of that device, were stored together with the new signed key and the account's identity key (if there
  were any).\<close>

theorem setKeys_stores:
  assumes "getAuthDevice account = Some device"
  shows "\<exists>status written s'. setKeys kc account keyState s = Inr (status, written, s')
    \<and> (status = 200 \<longrightarrow>
        (ks_signedPreKey keyState = signedprekey device \<longrightarrow> written = None)
      \<and> (ks_signedPreKey keyState \<noteq> signedprekey device \<longrightarrow> (\<exists>account' field. written = Some (account', field)
          \<and> getAuthDevice account' = Some (device\<lparr>d_signedPreKey := Some (ks_signedPreKey keyState)\<rparr>)
          \<and> field = \<lparr>af_modifyFields = [], af_modifyFilters = None, af_devices =
              [\<lparr>df_id = d_id device, df_modifyFields = [''signedPreKey''], df_isCreate = False, df_isErase = False\<rparr>]\<rparr>
          \<and> kc_updateAccount kc account' field = Dao_Success))
      \<and> (if ks_preKeys keyState = [] then s' = s
         else od_set (kc_dao kc) (a_uid account) (a_authDeviceId account) (map (onetime_key account) (ks_preKeys keyState))
                (a_identityKey account) (ks_signedPreKey keyState) s = (Dao_Success, s')))"
proof -
  let ?v = "ks_signedPreKey keyState"
  obtain k df where k: "getMutableDevice (d_id device) (ModifyAccount_new account) = Some k"
    and w: "getAuthDevice (md_account (device_mutable_signedprekey k ?v (ModifyAccount_new account))) = Some (device\<lparr>d_signedPreKey := Some ?v\<rparr>)"
      "md_field (device_mutable_signedprekey k ?v (ModifyAccount_new account)) = \<lparr>af_modifyFields = [], af_modifyFilters = None, af_devices = [df]\<rparr>"
      "df = \<lparr>df_id = d_id device, df_modifyFields = [''signedPreKey''], df_isCreate = False, df_isErase = False\<rparr>"
      "md_miss (device_mutable_signedprekey k ?v (ModifyAccount_new account)) = []"
    using write_signed [OF assms, of ?v] by blast
  have m0: "md_account (ModifyAccount_new account) = account" by (simp add: ModifyAccount_new_def)
  have sp: "signedprekey (device\<lparr>d_signedPreKey := Some ?v\<rparr>) = ?v" by (simp add: signedprekey_def)
  note defs = setKeys_def Let_def KeysManager_set_def updateAccount_def isModifyAccountFieldOK_def split_beta
  show ?thesis
  proof (cases "?v = signedprekey device")
    case True
    then show ?thesis using assms m0 by (auto simp: defs prod_eq_iff)
  next
    case False
    then show ?thesis using assms k w sp by (auto simp: defs prod_eq_iff)
  qed
qed

theorem setKeys_stores_witness:
  "\<exists>s'. setKeys demo_kc demo_key_account \<lparr>ks_preKeys = [\<lparr>pk_keyId = 3, pk_publicKey = ''r''\<rparr>],
      ks_signedPreKey = \<lparr>spk_keyId = 1, spk_publicKey = ''p'', spk_signature = ''s''\<rparr>, ks_identityKey = []\<rparr> [] = Inr (200, None, s')"
proof -
  have d: "getAuthDevice demo_key_account = Some (hd (a_devices demo_key_account))"
    by (simp add: getAuthDevice_def demo_key_account_def Device_new_def)
  have "setKeys demo_kc demo_key_account \<lparr>ks_preKeys = [\<lparr>pk_keyId = 3, pk_publicKey = ''r''\<rparr>],
      ks_signedPreKey = \<lparr>spk_keyId = 1, spk_publicKey = ''p'', spk_signature = ''s''\<rparr>, ks_identityKey = []\<rparr> [] = Inr (status, written, s') \<Longrightarrow> status = 200"
    for status written s'
    using d by (simp add: setKeys_def Let_def split_beta KeysManager_set_def ModifyAccount_new_def signedprekey_def demo_kc_def demo_stock_def demo_key_account_def)
  moreover have "signedprekey (hd (a_devices demo_key_account)) = \<lparr>spk_keyId = 1, spk_publicKey = ''p'', spk_signature = ''s''\<rparr>"
    by (simp add: signedprekey_def demo_key_account_def)
  ultimately show ?thesis
    using setKeys_stores [OF d, of demo_kc "\<lparr>ks_preKeys = [\<lparr>pk_keyId = 3, pk_publicKey = ''r''\<rparr>],
      ks_signedPreKey = \<lparr>spk_keyId = 1, spk_publicKey = ''p'', spk_signature = ''s''\<rparr>, ks_identityKey = []\<rparr>" "[]"] by auto
qed

text \<open>A signed key that was set is read back from the account that was written.\<close>

lemma signed_key_roundtrip:
  assumes "setSignedKey kc account key = Inr (204, written)"
  shows "\<exists>account' field. written = Some (account', field) \<and> getSignedKey account' = Inr (200, Some key)"
proof -
  obtain device where d: "getAuthDevice account = Some device" using assms by (auto simp: setSignedKey_def split: option.splits)
  from write_signed [OF d, of key] obtain k df where k: "getMutableDevice (d_id device) (ModifyAccount_new account) = Some k"
    "getAuthDevice (md_account (device_mutable_signedprekey k key (ModifyAccount_new account))) = Some (device\<lparr>d_signedPreKey := Some key\<rparr>)"
    "af_devices (md_field (device_mutable_signedprekey k key (ModifyAccount_new account))) = [df]" "df_id df = d_id device"
    by (metis AccountField.select_convs(3) DeviceField.select_convs(1))
  with d assms show ?thesis
    by (auto simp: setSignedKey_def getSignedKey_def updateDevice_def Let_def split: if_splits)
qed

end
