(* ===== verification/Group_Entities.thy ===== *)
theory Group_Entities
  imports Json Keys
begin

text \<open>
  \<open>src/controllers/group_manager_entities.h\<close> and \<open>.cpp\<close>: the requests and answers of the
  group controllers, how they are read from and written to JSON, and the checks a request must pass. The
  enumerations that come from generated code are datatypes or numbers given by parameters
  (\<open>role_no\<close> for the number of a role); \<open>Lexical\<close> has \<open>boost::lexical_cast\<close> for each
  number type.
\<close>

section \<open>Data of the database\<close>

datatype Role = ROLE_UNDEFINE | ROLE_OWNER | ROLE_ADMINISTROR | ROLE_MEMBER | ROLE_SUBSCRIBER

record Group =
  g_gid :: u64
  g_name :: string
  g_icon :: string
  g_permission :: u32
  g_updateTime :: u64
  g_lastMid :: u64
  g_broadcast :: int
  g_status :: int
  g_channel :: string
  g_intro :: string
  g_createTime :: u64
  g_encryptStatus :: int
  g_plainChannelKey :: string
  g_notice :: string
  g_shareQrCodeSetting :: string
  g_ownerConfirm :: int
  g_shareSignature :: string
  g_shareAndOwnerConfirmSignature :: string
  g_encryptedGroupInfoSecret :: string
  g_version :: int
  g_encryptedEphemeralKey :: string
  g_encryptedName :: string
  g_encryptedIcon :: string
  g_encryptedNotice :: string
  g_key :: string

definition Group_new :: Group where
  "Group_new = \<lparr>g_gid = 0, g_name = [], g_icon = [], g_permission = 0, g_updateTime = 0, g_lastMid = 0, g_broadcast = 0,
     g_status = 0, g_channel = [], g_intro = [], g_createTime = 0, g_encryptStatus = 0, g_plainChannelKey = [], g_notice = [],
     g_shareQrCodeSetting = [], g_ownerConfirm = 0, g_shareSignature = [], g_shareAndOwnerConfirmSignature = [],
     g_encryptedGroupInfoSecret = [], g_version = 0, g_encryptedEphemeralKey = [], g_encryptedName = [], g_encryptedIcon = [],
     g_encryptedNotice = [], g_key = []\<rparr>"

record GroupUser =
  gu_gid :: u64
  gu_uid :: string
  gu_nick :: string
  gu_nickname :: string
  gu_groupNickname :: string
  gu_profileKeys :: string
  gu_role :: Role
  gu_lastAckMid :: u64
  gu_status :: int
  gu_updateTime :: u64
  gu_createTime :: u64
  gu_encryptedKey :: string
  gu_groupInfoSecret :: string
  gu_proof :: string

definition GroupUser_new :: GroupUser where
  "GroupUser_new = \<lparr>gu_gid = 0, gu_uid = [], gu_nick = [], gu_nickname = [], gu_groupNickname = [], gu_profileKeys = [],
     gu_role = ROLE_UNDEFINE, gu_lastAckMid = 0, gu_status = 0, gu_updateTime = 0, gu_createTime = 0, gu_encryptedKey = [],
     gu_groupInfoSecret = [], gu_proof = []\<rparr>"

record GroupKeys =
  gk_gid :: u64
  gk_version :: int
  gk_groupKeys :: string
  gk_mode :: int
  gk_creator :: string
  gk_createTime :: u64

record PendingGroupUser =
  pu_gid :: u64
  pu_uid :: string
  pu_inviter :: string
  pu_signature :: string
  pu_comment :: string

record GroupCounter =
  gc_owner :: string
  gc_memberCnt :: u32
  gc_subscriberCnt :: u32

record GroupMsg =
  gmsg_gid :: u64
  gmsg_fromUid :: string
  gmsg_text :: string
  gmsg_updateTime :: u64
  gmsg_createTime :: u64
  gmsg_type :: int
  gmsg_status :: int
  gmsg_atList :: string

text \<open>\<open>bcm::Keys\<close>: the key material of one device.\<close>

record DeviceKeys =
  dk_uid :: string
  dk_deviceId :: u32
  dk_registrationId :: u32
  dk_signedPreKey :: SignedPreKey
  dk_onetimeKey :: OnetimeKey
  dk_identityKey :: string
  dk_accountPublicKey :: string
  dk_accountSignature :: string

section \<open>Reading numbers\<close>

record Lexical =
  lx_u32 :: "string \<Rightarrow> u32 option"
  lx_u64 :: "string \<Rightarrow> u64 option"
  lx_i32 :: "string \<Rightarrow> int option"
  lx_i64 :: "string \<Rightarrow> int option"

definition to_u32 :: "Lexical \<Rightarrow> json \<Rightarrow> string \<Rightarrow> nat \<Rightarrow> u32 \<Rightarrow> u32 option" where
  "to_u32 lx = toNumber (lx_u32 lx) word_of_int"

definition to_u64 :: "Lexical \<Rightarrow> json \<Rightarrow> string \<Rightarrow> nat \<Rightarrow> u64 \<Rightarrow> u64 option" where
  "to_u64 lx = toNumber (lx_u64 lx) word_of_int"

definition to_int32 :: "Lexical \<Rightarrow> json \<Rightarrow> string \<Rightarrow> nat \<Rightarrow> int \<Rightarrow> int option" where
  "to_int32 lx = toNumber (lx_i32 lx) to_i32"

definition to_int64 :: "Lexical \<Rightarrow> json \<Rightarrow> string \<Rightarrow> nat \<Rightarrow> int \<Rightarrow> int option" where
  "to_int64 lx = toNumber (lx_i64 lx) to_i64"

definition get_u64 :: "json \<Rightarrow> u64 option" where
  "get_u64 j = map_option word_of_int (get_int j)"

definition get_i64 :: "json \<Rightarrow> int option" where
  "get_i64 j = map_option to_i64 (get_int j)"

definition ju32 :: "u32 \<Rightarrow> json" where "ju32 n = JInt (uint n)"
definition ju64 :: "u64 \<Rightarrow> json" where "ju64 n = JInt (uint n)"

section \<open>Group keys\<close>

record GroupKeyEntryV0 =
  k0_uid :: string
  k0_deviceId :: u32
  k0_key :: string

record GroupKeyEntryV1 =
  k1_key :: string

record GroupKeysJson =
  kj_encryptVersion :: int
  kj_keysV0 :: "GroupKeyEntryV0 list"
  kj_keysV1 :: GroupKeyEntryV1

definition GroupKeyEntryV0_new :: GroupKeyEntryV0 where
  "GroupKeyEntryV0_new = \<lparr>k0_uid = [], k0_deviceId = 0, k0_key = []\<rparr>"

definition GroupKeyEntryV0_to_json :: "GroupKeyEntryV0 \<Rightarrow> json" where
  "GroupKeyEntryV0_to_json e = jobj [(''uid'', JString (k0_uid e)), (''device_id'', ju32 (k0_deviceId e)), (''key'', JString (k0_key e))]"

definition GroupKeyEntryV0_from_json :: "Lexical \<Rightarrow> json \<Rightarrow> GroupKeyEntryV0 option" where
  "GroupKeyEntryV0_from_json lx j = do {
     uid \<leftarrow> toString j ''uid'' REQUIRE [];
     deviceId \<leftarrow> to_u32 lx j ''device_id'' REQUIRE 0;
     key \<leftarrow> toString j ''key'' REQUIRE [];
     Some \<lparr>k0_uid = uid, k0_deviceId = deviceId, k0_key = key\<rparr> }"

definition GroupKeyEntryV1_to_json :: "GroupKeyEntryV1 \<Rightarrow> json" where
  "GroupKeyEntryV1_to_json e = jobj [(''key'', JString (k1_key e))]"

definition GroupKeyEntryV1_from_json :: "json \<Rightarrow> GroupKeyEntryV1 option" where
  "GroupKeyEntryV1_from_json j = do { key \<leftarrow> toString j ''key'' REQUIRE []; Some \<lparr>k1_key = key\<rparr> }"

definition GroupKeysJson_to_json :: "GroupKeysJson \<Rightarrow> json" where
  "GroupKeysJson_to_json k =
     jobj [(''encrypt_version'', JInt (kj_encryptVersion k)),
           (''keys_v0'', JArray (map GroupKeyEntryV0_to_json (kj_keysV0 k))),
           (''keys_v1'', GroupKeyEntryV1_to_json (kj_keysV1 k))]"

definition GroupKeysJson_from_json :: "Lexical \<Rightarrow> json \<Rightarrow> GroupKeysJson option" where
  "GroupKeysJson_from_json lx j = do {
     encryptVersion \<leftarrow> to_int32 lx j ''encrypt_version'' REQUIRE 0;
     keysV0 \<leftarrow> toGeneric (get_list (GroupKeyEntryV0_from_json lx)) j ''keys_v0'' REQUIRE [];
     keysV1 \<leftarrow> toGeneric GroupKeyEntryV1_from_json j ''keys_v1'' REQUIRE \<lparr>k1_key = []\<rparr>;
     Some \<lparr>kj_encryptVersion = encryptVersion, kj_keysV0 = keysV0, kj_keysV1 = keysV1\<rparr> }"

record FetchLatestGroupKeysRequest =
  flk_gids :: "u64 list"

definition FetchLatestGroupKeysRequest_to_json :: "FetchLatestGroupKeysRequest \<Rightarrow> json" where
  "FetchLatestGroupKeysRequest_to_json req = jobj [(''gids'', JArray (map ju64 (flk_gids req)))]"

definition FetchLatestGroupKeysRequest_from_json :: "json \<Rightarrow> FetchLatestGroupKeysRequest option" where
  "FetchLatestGroupKeysRequest_from_json j = do {
     gids \<leftarrow> toGeneric (get_list get_u64) j ''gids'' REQUIRE [];
     Some \<lparr>flk_gids = set_of gids\<rparr> }"

record FetchGroupKeysRequest =
  fgk_gid :: u64
  fgk_versions :: "int list"

definition FetchGroupKeysRequest_to_json :: "FetchGroupKeysRequest \<Rightarrow> json" where
  "FetchGroupKeysRequest_to_json req = jobj [(''gid'', ju64 (fgk_gid req)), (''versions'', JArray (map JInt (fgk_versions req)))]"

definition FetchGroupKeysRequest_from_json :: "Lexical \<Rightarrow> json \<Rightarrow> FetchGroupKeysRequest option" where
  "FetchGroupKeysRequest_from_json lx j = do {
     gid \<leftarrow> to_u64 lx j ''gid'' REQUIRE 0;
     versions \<leftarrow> toGeneric (get_list get_i64) j ''versions'' REQUIRE [];
     Some \<lparr>fgk_gid = gid, fgk_versions = set_of versions\<rparr> }"

record FetchGroupKeysResponseKey =
  rk_version :: int
  rk_encryptVersion :: int
  rk_groupKeysMode :: int
  rk_keysV0 :: GroupKeyEntryV0
  rk_keysV1 :: GroupKeyEntryV1

definition FetchGroupKeysResponseKey_fields :: "FetchGroupKeysResponseKey \<Rightarrow> (string \<times> json) list" where
  "FetchGroupKeysResponseKey_fields keys =
     [(''version'', JInt (rk_version keys)), (''encrypt_version'', JInt (rk_encryptVersion keys)),
      (''group_keys_mode'', JInt (rk_groupKeysMode keys)), (''keys_v0'', GroupKeyEntryV0_to_json (rk_keysV0 keys)),
      (''keys_v1'', GroupKeyEntryV1_to_json (rk_keysV1 keys))]"

definition FetchGroupKeysResponseKey_to_json :: "FetchGroupKeysResponseKey \<Rightarrow> json" where
  "FetchGroupKeysResponseKey_to_json keys = jobj (FetchGroupKeysResponseKey_fields keys)"

record FetchLatestGroupKeysResponseKey = FetchGroupKeysResponseKey +
  rk_gid :: u64

definition FetchLatestGroupKeysResponseKey_to_json :: "FetchLatestGroupKeysResponseKey \<Rightarrow> json" where
  "FetchLatestGroupKeysResponseKey_to_json keys =
     jobj ((''gid'', ju64 (rk_gid keys)) # FetchGroupKeysResponseKey_fields (FetchGroupKeysResponseKey.truncate keys))"

record FireGroupKeysUpdateRequest =
  fku_gids :: "u64 list"

definition FireGroupKeysUpdateRequest_from_json :: "json \<Rightarrow> FireGroupKeysUpdateRequest option" where
  "FireGroupKeysUpdateRequest_from_json j = do {
     gids \<leftarrow> toGeneric (get_list get_u64) j ''gids'' REQUIRE [];
     Some \<lparr>fku_gids = set_of gids\<rparr> }"

record UploadGroupKeysRequest =
  ugk_gid :: u64
  ugk_version :: int
  ugk_groupKeysMode :: int
  ugk_groupKeys :: GroupKeysJson

definition UploadGroupKeysRequest_from_json :: "Lexical \<Rightarrow> json \<Rightarrow> UploadGroupKeysRequest option" where
  "UploadGroupKeysRequest_from_json lx j = do {
     gid \<leftarrow> to_u64 lx j ''gid'' REQUIRE 0;
     version \<leftarrow> to_int64 lx j ''version'' REQUIRE 0;
     groupKeysMode \<leftarrow> to_int32 lx j ''group_keys_mode'' REQUIRE 0;
     groupKeys \<leftarrow> toGeneric (GroupKeysJson_from_json lx) j ''group_keys'' REQUIRE \<lparr>kj_encryptVersion = 0, kj_keysV0 = [], kj_keysV1 = \<lparr>k1_key = []\<rparr>\<rparr>;
     Some \<lparr>ugk_gid = gid, ugk_version = version, ugk_groupKeysMode = groupKeysMode, ugk_groupKeys = groupKeys\<rparr> }"

record PrepareKeyUpdateRequestV3 =
  pku_gid :: u64
  pku_version :: int
  pku_mode :: int

definition PrepareKeyUpdateRequestV3_to_json :: "PrepareKeyUpdateRequestV3 \<Rightarrow> json" where
  "PrepareKeyUpdateRequestV3_to_json req =
     jobj [(''gid'', ju64 (pku_gid req)), (''version'', JInt (pku_version req)), (''mode'', JInt (pku_mode req))]"

definition PrepareKeyUpdateRequestV3_from_json :: "Lexical \<Rightarrow> json \<Rightarrow> PrepareKeyUpdateRequestV3 option" where
  "PrepareKeyUpdateRequestV3_from_json lx j = do {
     gid \<leftarrow> to_u64 lx j ''gid'' REQUIRE 0;
     version \<leftarrow> to_int64 lx j ''version'' REQUIRE 0;
     mode \<leftarrow> to_int32 lx j ''mode'' REQUIRE 0;
     Some \<lparr>pku_gid = gid, pku_version = version, pku_mode = mode\<rparr> }"

section \<open>Limits\<close>

definition kMaxGroupNameLength :: nat where "kMaxGroupNameLength = 512"
definition kMaxGroupIconLength :: nat where "kMaxGroupIconLength = 512"
definition kMaxGroupIntroLength :: nat where "kMaxGroupIntroLength = 2048"
definition kMaxGroupNoticeLength :: nat where "kMaxGroupNoticeLength = 4096"
definition kMaxGroupKeyLength :: nat where "kMaxGroupKeyLength = 1024"
definition kMaxGroupProofLength :: nat where "kMaxGroupProofLength = 512"
definition kMaxGroupCreateMemberCount :: nat where "kMaxGroupCreateMemberCount = 128"
definition kMaxGroupUidLength :: nat where "kMaxGroupUidLength = 65"
definition kMaxGroupPlainChannelKeyLength :: nat where "kMaxGroupPlainChannelKeyLength = 256"
definition kMaxGroupBatchCommonV3 :: nat where "kMaxGroupBatchCommonV3 = 10"
definition kMaxGroupBatchFetchLatestKeysV3 :: nat where "kMaxGroupBatchFetchLatestKeysV3 = 5"
definition kMaxMemberQueryCount :: nat where "kMaxMemberQueryCount = 500"
definition kMaxGroupInfoSecretLength :: nat where "kMaxGroupInfoSecretLength = 1024"
definition kMaxQrCodeSettingLength :: nat where "kMaxQrCodeSettingLength = 1024"
definition kMaxShareSignatureLength :: nat where "kMaxShareSignatureLength = 512"
definition kMaxShareAndOwnerConfirmSignatureLength :: nat where "kMaxShareAndOwnerConfirmSignatureLength = 512"
definition kMaxPendingGroupUserSignatureLength :: nat where "kMaxPendingGroupUserSignatureLength = 2048"
definition kMaxAccountUidLength :: nat where "kMaxAccountUidLength = 64"
definition kMaxPendingGroupUserCommentLength :: nat where "kMaxPendingGroupUserCommentLength = 2048"

section \<open>Creating, joining and leaving\<close>

record SimpleGroupMemberInfo =
  si_uid :: string
  si_nick :: string
  si_role :: Role

definition SimpleGroupMemberInfo_to_json :: "(Role \<Rightarrow> int) \<Rightarrow> SimpleGroupMemberInfo \<Rightarrow> json" where
  "SimpleGroupMemberInfo_to_json role_no info =
     jobj [(''uid'', JString (si_uid info)), (''nick'', JString (si_nick info)), (''role'', JInt (role_no (si_role info)))]"

datatype GroupMemberUpdateAction = ENTER_GROUP | UPDATE_INFO | QUIT_GROUP | CHANGE_KEY

fun action_no :: "GroupMemberUpdateAction \<Rightarrow> int" where
  "action_no ENTER_GROUP = 1"
| "action_no UPDATE_INFO = 2"
| "action_no QUIT_GROUP = 3"
| "action_no CHANGE_KEY = 4"

record GroupSysMsgBody =
  sm_action :: GroupMemberUpdateAction
  sm_members :: "SimpleGroupMemberInfo list"

definition GroupSysMsgBody_to_json :: "(Role \<Rightarrow> int) \<Rightarrow> GroupSysMsgBody \<Rightarrow> json" where
  "GroupSysMsgBody_to_json role_no body =
     jobj [(''action'', JInt (action_no (sm_action body))),
           (''members'', JArray (map (SimpleGroupMemberInfo_to_json role_no) (sm_members body)))]"

definition GroupUpdateGroupKeysRequestBody_to_json :: "int \<Rightarrow> json" where
  "GroupUpdateGroupKeysRequestBody_to_json groupKeysMode = jobj [(''group_keys_mode'', JInt groupKeysMode)]"

definition GroupSwitchGroupKeysBody_to_json :: "int \<Rightarrow> json" where
  "GroupSwitchGroupKeysBody_to_json version = jobj [(''version'', JInt version)]"

text \<open>\<open>src/group/group_event.h\<close>.\<close>

record GroupEvent =
  ge_type :: int
  ge_uid :: string
  ge_gid :: u64

definition GroupEvent_to_json :: "GroupEvent \<Rightarrow> json" where
  "GroupEvent_to_json e = jobj [(''type'', JInt (ge_type e)), (''uid'', JString (ge_uid e)), (''gid'', ju64 (ge_gid e))]"

definition GroupEvent_from_json :: "json \<Rightarrow> GroupEvent option" where
  "GroupEvent_from_json j = do {
     ty \<leftarrow> jfind j ''type''; ty \<leftarrow> get_int ty;
     uid \<leftarrow> jfind j ''uid''; uid \<leftarrow> get_string uid;
     gid \<leftarrow> jfind j ''gid''; gid \<leftarrow> get_u64 gid;
     Some \<lparr>ge_type = to_i32 ty, ge_uid = uid, ge_gid = gid\<rparr> }"

definition member_uid_ok :: "string \<Rightarrow> bool" where
  "member_uid_ok uid \<longleftrightarrow> uid \<noteq> [] \<and> length uid \<le> kMaxGroupUidLength"

record CreateGroupBodyV3 =
  cg_name :: string
  cg_icon :: string
  cg_intro :: string
  cg_broadcast :: int
  cg_ownerSecretKey :: string
  cg_members :: "string list"
  cg_membersGroupInfoSecrets :: "string list"
  cg_ownerNickname :: string
  cg_ownerProfileKeys :: string
  cg_qrCodeSetting :: string
  cg_ownerConfirm :: int
  cg_shareSignature :: string
  cg_shareAndOwnerConfirmSignature :: string
  cg_encryptedGroupInfoSecret :: string
  cg_memberProofs :: "string list"
  cg_ownerProof :: string
  cg_groupKeys :: GroupKeysJson
  cg_groupKeysMode :: int
  cg_encryptedEphemeralKey :: string

definition CreateGroupBodyV3_from_json :: "Lexical \<Rightarrow> json \<Rightarrow> CreateGroupBodyV3 option" where
  "CreateGroupBodyV3_from_json lx j = do {
     name \<leftarrow> toString j ''name'' OPTIONAL [];
     icon \<leftarrow> toString j ''icon'' OPTIONAL [];
     intro \<leftarrow> toString j ''intro'' REQUIRE [];
     broadcast \<leftarrow> to_int32 lx j ''broadcast'' REQUIRE 0;
     ownerSecretKey \<leftarrow> toString j ''owner_group_info_secret'' OPTIONAL [];
     members \<leftarrow> toGeneric (get_list get_string) j ''members'' REQUIRE [];
     membersGroupInfoSecrets \<leftarrow> toGeneric (get_list get_string) j ''member_group_info_secrets'' OPTIONAL [];
     ownerNickname \<leftarrow> toString j ''owner_nickname'' OPTIONAL [];
     ownerProfileKeys \<leftarrow> toString j ''owner_profile_keys'' OPTIONAL [];
     qrCodeSetting \<leftarrow> toString j ''share_qr_code_setting'' REQUIRE [];
     ownerConfirm \<leftarrow> to_int32 lx j ''owner_confirm'' REQUIRE 0;
     shareSignature \<leftarrow> toString j ''share_sig'' REQUIRE [];
     shareAndOwnerConfirmSignature \<leftarrow> toString j ''share_and_owner_confirm_sig'' REQUIRE [];
     encryptedGroupInfoSecret \<leftarrow> toString j ''encrypted_group_info_secret'' OPTIONAL [];
     groupKeys \<leftarrow> toGeneric (GroupKeysJson_from_json lx) j ''group_keys'' REQUIRE \<lparr>kj_encryptVersion = 0, kj_keysV0 = [], kj_keysV1 = \<lparr>k1_key = []\<rparr>\<rparr>;
     memberProofs \<leftarrow> toGeneric (get_list get_string) j ''member_proofs'' REQUIRE [];
     ownerProof \<leftarrow> toString j ''owner_proof'' REQUIRE [];
     groupKeysMode \<leftarrow> to_int32 lx j ''group_keys_mode'' REQUIRE 0;
     encryptedEphemeralKey \<leftarrow> toString j ''encrypted_ephemeral_key'' REQUIRE [];
     Some \<lparr>cg_name = name, cg_icon = icon, cg_intro = intro, cg_broadcast = broadcast, cg_ownerSecretKey = ownerSecretKey,
       cg_members = members, cg_membersGroupInfoSecrets = membersGroupInfoSecrets, cg_ownerNickname = ownerNickname,
       cg_ownerProfileKeys = ownerProfileKeys, cg_qrCodeSetting = qrCodeSetting, cg_ownerConfirm = ownerConfirm,
       cg_shareSignature = shareSignature, cg_shareAndOwnerConfirmSignature = shareAndOwnerConfirmSignature,
       cg_encryptedGroupInfoSecret = encryptedGroupInfoSecret, cg_memberProofs = memberProofs, cg_ownerProof = ownerProof,
       cg_groupKeys = groupKeys, cg_groupKeysMode = groupKeysMode, cg_encryptedEphemeralKey = encryptedEphemeralKey\<rparr> }"

definition CreateGroupBodyV3_check :: "int \<Rightarrow> int \<Rightarrow> CreateGroupBodyV3 \<Rightarrow> bool" where
  "CreateGroupBodyV3_check broadcast_off one_for_each b \<longleftrightarrow>
     length (cg_name b) \<le> kMaxGroupNameLength \<and> length (cg_icon b) \<le> kMaxGroupIconLength
     \<and> length (cg_intro b) \<le> kMaxGroupIntroLength \<and> cg_broadcast b = broadcast_off
     \<and> length (cg_members b) \<le> kMaxGroupCreateMemberCount \<and> cg_members b \<noteq> [] \<and> list_all member_uid_ok (cg_members b)
     \<and> cg_ownerSecretKey b \<noteq> [] \<and> cg_ownerProof b \<noteq> []
     \<and> length (cg_members b) = length (cg_memberProofs b) \<and> length (cg_members b) = length (cg_membersGroupInfoSecrets b)
     \<and> list_all (\<lambda>it. length it \<le> kMaxGroupProofLength) (cg_memberProofs b)
     \<and> list_all (\<lambda>it. length it \<le> kMaxGroupInfoSecretLength) (cg_membersGroupInfoSecrets b)
     \<and> cg_groupKeysMode b = one_for_each"

record KickGroupMemberBody =
  kb_gid :: u64
  kb_members :: "string list"

definition KickGroupMemberBody_from_json :: "Lexical \<Rightarrow> json \<Rightarrow> KickGroupMemberBody option" where
  "KickGroupMemberBody_from_json lx j = do {
     gid \<leftarrow> to_u64 lx j ''gid'' REQUIRE 0;
     members \<leftarrow> toGeneric (get_list get_string) j ''members'' REQUIRE [];
     Some \<lparr>kb_gid = gid, kb_members = members\<rparr> }"

definition KickGroupMemberBody_to_json :: "KickGroupMemberBody \<Rightarrow> json" where
  "KickGroupMemberBody_to_json b = jobj [(''gid'', ju64 (kb_gid b)), (''members'', JArray (map JString (kb_members b)))]"

definition KickGroupMemberBody_check :: "string \<Rightarrow> KickGroupMemberBody \<Rightarrow> bool" where
  "KickGroupMemberBody_check uid b \<longleftrightarrow>
     length (kb_members b) \<le> kMaxGroupCreateMemberCount \<and> kb_members b \<noteq> []
     \<and> list_all (\<lambda>m. member_uid_ok m \<and> m \<noteq> uid) (kb_members b)"

record LeaveGroupBody =
  lb_gid :: u64
  lb_nextOwner :: string

definition LeaveGroupBody_from_json :: "Lexical \<Rightarrow> json \<Rightarrow> LeaveGroupBody option" where
  "LeaveGroupBody_from_json lx j = do {
     gid \<leftarrow> to_u64 lx j ''gid'' REQUIRE 0;
     nextOwner \<leftarrow> toString j ''next_owner'' OPTIONAL [];
     Some \<lparr>lb_gid = gid, lb_nextOwner = nextOwner\<rparr> }"

definition LeaveGroupBody_check :: "LeaveGroupBody \<Rightarrow> bool" where
  "LeaveGroupBody_check b \<longleftrightarrow> lb_gid b \<noteq> 0 \<and> length (lb_nextOwner b) \<le> kMaxGroupUidLength"

record DhKeysRequest =
  dh_uids :: "string list"

definition DhKeysRequest_from_json :: "json \<Rightarrow> DhKeysRequest option" where
  "DhKeysRequest_from_json j = do {
     uids \<leftarrow> toGeneric (get_list get_string) j ''uids'' REQUIRE [];
     Some \<lparr>dh_uids = set_of uids\<rparr> }"

definition DhKeysRequest_to_json :: "DhKeysRequest \<Rightarrow> json" where
  "DhKeysRequest_to_json req = jobj [(''uids'', JArray (map JString (dh_uids req)))]"

definition DhKeysRequest_check :: "DhKeysRequest \<Rightarrow> bool" where
  "DhKeysRequest_check b \<longleftrightarrow>
     length (dh_uids b) \<le> kMaxGroupCreateMemberCount \<and> list_all (\<lambda>uid. length uid \<le> kMaxAccountUidLength) (dh_uids b)"

record GroupJoinRequestV3 =
  gj_gid :: u64
  gj_qrCode :: string
  gj_qrCodeToken :: string
  gj_signature :: string
  gj_comment :: string

definition GroupJoinRequestV3_from_json :: "Lexical \<Rightarrow> json \<Rightarrow> GroupJoinRequestV3 option" where
  "GroupJoinRequestV3_from_json lx j = do {
     gid \<leftarrow> to_u64 lx j ''gid'' REQUIRE 0;
     qrCode \<leftarrow> toString j ''qr_code'' REQUIRE [];
     qrCodeToken \<leftarrow> toString j ''qr_token'' REQUIRE [];
     signature \<leftarrow> toString j ''signature'' REQUIRE [];
     comment \<leftarrow> toString j ''comment'' REQUIRE [];
     Some \<lparr>gj_gid = gid, gj_qrCode = qrCode, gj_qrCodeToken = qrCodeToken, gj_signature = signature, gj_comment = comment\<rparr> }"

definition GroupJoinRequestV3_check :: "GroupJoinRequestV3 \<Rightarrow> bool" where
  "GroupJoinRequestV3_check b \<longleftrightarrow>
     length (gj_qrCode b) \<le> kMaxShareSignatureLength \<and> length (gj_qrCodeToken b) \<le> kMaxShareSignatureLength
     \<and> length (gj_signature b) \<le> kMaxPendingGroupUserSignatureLength
     \<and> length (gj_comment b) \<le> kMaxPendingGroupUserCommentLength"

record GroupJoinResponseV3 =
  jr_ownerConfirm :: bool
  jr_encryptedGroupInfoSecret :: string

definition GroupJoinResponseV3_to_json :: "GroupJoinResponseV3 \<Rightarrow> json" where
  "GroupJoinResponseV3_to_json r =
     jobj [(''owner_confirm'', JBool (jr_ownerConfirm r)),
           (''encrypted_group_info_secret'', JString (jr_encryptedGroupInfoSecret r))]"

record AddMeRequestV3 =
  am_gid :: u64
  am_groupInfoSecret :: string
  am_proof :: string

definition AddMeRequestV3_from_json :: "Lexical \<Rightarrow> json \<Rightarrow> AddMeRequestV3 option" where
  "AddMeRequestV3_from_json lx j = do {
     gid \<leftarrow> to_u64 lx j ''gid'' REQUIRE 0;
     groupInfoSecret \<leftarrow> toString j ''group_info_secret'' REQUIRE [];
     proof' \<leftarrow> toString j ''proof'' REQUIRE [];
     Some \<lparr>am_gid = gid, am_groupInfoSecret = groupInfoSecret, am_proof = proof'\<rparr> }"

definition AddMeRequestV3_check :: "AddMeRequestV3 \<Rightarrow> bool" where
  "AddMeRequestV3_check b \<longleftrightarrow>
     length (am_groupInfoSecret b) \<le> kMaxGroupInfoSecretLength \<and> length (am_proof b) \<le> kMaxShareSignatureLength"

record InviteGroupMemberRequestV3 =
  iv_gid :: u64
  iv_members :: "string list"
  iv_memberGroupInfoSecrets :: "string list"
  iv_memberProofs :: "string list"
  iv_signatureInfos :: "string list"

definition InviteGroupMemberRequestV3_from_json :: "Lexical \<Rightarrow> json \<Rightarrow> InviteGroupMemberRequestV3 option" where
  "InviteGroupMemberRequestV3_from_json lx j = do {
     gid \<leftarrow> to_u64 lx j ''gid'' REQUIRE 0;
     members \<leftarrow> toGeneric (get_list get_string) j ''members'' REQUIRE [];
     secrets \<leftarrow> toGeneric (get_list get_string) j ''group_info_secrets'' OPTIONAL [];
     proofs \<leftarrow> toGeneric (get_list get_string) j ''member_proofs'' OPTIONAL [];
     signatures \<leftarrow> toGeneric (get_list get_string) j ''signature'' OPTIONAL [];
     Some \<lparr>iv_gid = gid, iv_members = members, iv_memberGroupInfoSecrets = secrets, iv_memberProofs = proofs, iv_signatureInfos = signatures\<rparr> }"

text \<open>The set of the members has as many elements as the list: no user is named twice.\<close>

definition InviteGroupMemberRequestV3_check :: "InviteGroupMemberRequestV3 \<Rightarrow> bool" where
  "InviteGroupMemberRequestV3_check b \<longleftrightarrow>
     iv_members b \<noteq> [] \<and> length (iv_members b) \<le> kMaxGroupCreateMemberCount
     \<and> list_all member_uid_ok (iv_members b) \<and> length (set_of (iv_members b)) = length (iv_members b)
     \<and> list_all (\<lambda>it. length it \<le> kMaxShareSignatureLength) (iv_memberProofs b)
     \<and> list_all (\<lambda>it. length it \<le> kMaxGroupInfoSecretLength) (iv_memberGroupInfoSecrets b)
     \<and> list_all (\<lambda>it. length it \<le> kMaxPendingGroupUserSignatureLength) (iv_signatureInfos b)"

record InviteGroupMemberResponseV3 =
  ir_successMembers :: "SimpleGroupMemberInfo list"
  ir_failedMembers :: "string list"

definition InviteGroupMemberResponse2_to_json :: "(Role \<Rightarrow> int) \<Rightarrow> InviteGroupMemberResponseV3 \<Rightarrow> json" where
  "InviteGroupMemberResponse2_to_json role_no r =
     jobj [(''success_members'', JArray (map (SimpleGroupMemberInfo_to_json role_no) (ir_successMembers r))),
           (''failed_members'', JArray (map JString (ir_failedMembers r)))]"

record ReviewJoinResultV3 =
  rj_uid :: string
  rj_accepted :: bool
  rj_groupInfoSecret :: string
  rj_inviter :: string
  rj_proof :: string

definition ReviewJoinResultV3_from_json :: "json \<Rightarrow> ReviewJoinResultV3 option" where
  "ReviewJoinResultV3_from_json j = do {
     uid \<leftarrow> toString j ''uid'' REQUIRE [];
     accepted \<leftarrow> toBoolean j ''accepted'' REQUIRE False;
     groupInfoSecret \<leftarrow> toString j ''group_info_secret'' REQUIRE [];
     inviter \<leftarrow> toString j ''inviter'' OPTIONAL [];
     proof' \<leftarrow> toString j ''proof'' REQUIRE [];
     Some \<lparr>rj_uid = uid, rj_accepted = accepted, rj_groupInfoSecret = groupInfoSecret, rj_inviter = inviter, rj_proof = proof'\<rparr> }"

record ReviewJoinResultRequestV3 =
  rv_gid :: u64
  rv_list :: "ReviewJoinResultV3 list"

definition ReviewJoinResultRequestV3_from_json :: "Lexical \<Rightarrow> json \<Rightarrow> ReviewJoinResultRequestV3 option" where
  "ReviewJoinResultRequestV3_from_json lx j = do {
     gid \<leftarrow> to_u64 lx j ''gid'' REQUIRE 0;
     list \<leftarrow> toGeneric (get_list ReviewJoinResultV3_from_json) j ''list'' REQUIRE [];
     Some \<lparr>rv_gid = gid, rv_list = list\<rparr> }"

definition ReviewJoinResultRequestV3_check :: "ReviewJoinResultRequestV3 \<Rightarrow> bool" where
  "ReviewJoinResultRequestV3_check b \<longleftrightarrow>
     list_all (\<lambda>item. length (rj_uid item) \<le> kMaxAccountUidLength \<and> length (rj_proof item) \<le> kMaxShareSignatureLength
       \<and> length (rj_groupInfoSecret item) \<le> kMaxGroupInfoSecretLength \<and> length (rj_inviter item) \<le> kMaxAccountUidLength) (rv_list b)"

record QueryMembersRequestV3 =
  qm_gid :: u64
  qm_uids :: "string list"

definition QueryMembersRequestV3_from_json :: "Lexical \<Rightarrow> json \<Rightarrow> QueryMembersRequestV3 option" where
  "QueryMembersRequestV3_from_json lx j = do {
     gid \<leftarrow> to_u64 lx j ''gid'' REQUIRE 0;
     uids \<leftarrow> toGeneric (get_list get_string) j ''uids'' REQUIRE [];
     Some \<lparr>qm_gid = gid, qm_uids = uids\<rparr> }"

definition QueryMembersRequestV3_check :: "QueryMembersRequestV3 \<Rightarrow> bool" where
  "QueryMembersRequestV3_check b \<longleftrightarrow>
     length (qm_uids b) \<le> kMaxMemberQueryCount \<and> list_all (\<lambda>uid. length uid \<le> kMaxAccountUidLength) (qm_uids b)"

record GroupMember =
  me_uid :: string
  me_nick :: string
  me_nickname :: string
  me_groupNickname :: string
  me_profileKeys :: string
  me_role :: int
  me_createTime :: u64
  me_proof :: string

definition GroupMember_to_json :: "GroupMember \<Rightarrow> json" where
  "GroupMember_to_json m =
     jobj [(''uid'', JString (me_uid m)), (''nick'', JString (me_nick m)), (''nickname'', JString (me_nickname m)),
           (''groupNickname'', JString (me_groupNickname m)), (''profileKeys'', JString (me_profileKeys m)),
           (''role'', JInt (me_role m)), (''createTime'', ju64 (me_createTime m)), (''proof'', JString (me_proof m))]"

section \<open>Changing a group\<close>

record UpdateGroupInfoBodyV3 =
  ui_gid :: u64
  ui_name :: string
  ui_icon :: string
  ui_intro :: string
  ui_broadcast :: int
  ui_plainChannelKey :: string
  ui_updateTime :: u64
  ui_nameExisted :: bool
  ui_iconExisted :: bool
  ui_qrCodeSetting :: string
  ui_ownerConfirm :: int
  ui_shareSignature :: string
  ui_shareAndOwnerConfirmSignature :: string
  ui_encryptedGroupInfoSecretExisted :: bool
  ui_encryptedEphemeralKeyExisted :: bool
  ui_encryptedGroupInfoSecret :: string
  ui_encryptedEphemeralKey :: string
  ui_encryptedNameExisted :: bool
  ui_encryptedIconExisted :: bool
  ui_encryptedNoticeExisted :: bool
  ui_encryptedName :: string
  ui_encryptedIcon :: string
  ui_encryptedNotice :: string

text \<open>Only what the request names is written.\<close>

definition UpdateGroupInfoBodyV3_to_json :: "UpdateGroupInfoBodyV3 \<Rightarrow> json" where
  "UpdateGroupInfoBodyV3_to_json b =
     (let put = (\<lambda>c k v j. if c then jset k v j else j)
      in (jset ''update_time'' (ju64 (ui_updateTime b))
         \<circ> put (ui_encryptedNoticeExisted b) ''encrypted_notice'' (JString (ui_encryptedNotice b))
         \<circ> put (ui_encryptedIconExisted b) ''encrypted_icon'' (JString (ui_encryptedIcon b))
         \<circ> put (ui_encryptedNameExisted b) ''encrypted_name'' (JString (ui_encryptedName b))
         \<circ> put (ui_encryptedEphemeralKeyExisted b) ''encrypted_ephemeral_key'' (JString (ui_encryptedEphemeralKey b))
         \<circ> put (ui_encryptedGroupInfoSecretExisted b) ''encrypted_group_info_secret'' (JString (ui_encryptedGroupInfoSecret b))
         \<circ> put (ui_shareAndOwnerConfirmSignature b \<noteq> []) ''share_and_owner_confirm_sig'' (JString (ui_shareAndOwnerConfirmSignature b))
         \<circ> put (ui_shareSignature b \<noteq> []) ''share_sig'' (JString (ui_shareSignature b))
         \<circ> put (ui_ownerConfirm b \<noteq> -1) ''owner_confirm'' (JInt (ui_ownerConfirm b))
         \<circ> put (ui_qrCodeSetting b \<noteq> []) ''share_qr_code_setting'' (JString (ui_qrCodeSetting b))
         \<circ> put (ui_plainChannelKey b \<noteq> []) ''plain_channel_key'' (JString (ui_plainChannelKey b))
         \<circ> put (ui_broadcast b = 0) ''broadcast'' (JInt (ui_broadcast b))
         \<circ> put (ui_intro b \<noteq> []) ''intro'' (JString (ui_intro b))
         \<circ> put (ui_iconExisted b) ''icon'' (JString (ui_icon b))
         \<circ> put (ui_nameExisted b) ''name'' (JString (ui_name b))) JNull)"

definition UpdateGroupInfoBodyV3_from_json :: "Lexical \<Rightarrow> json \<Rightarrow> UpdateGroupInfoBodyV3 option" where
  "UpdateGroupInfoBodyV3_from_json lx j = do {
     gid \<leftarrow> to_u64 lx j ''gid'' REQUIRE 0;
     name \<leftarrow> toString j ''name'' OPTIONAL [];
     icon \<leftarrow> toString j ''icon'' OPTIONAL [];
     intro \<leftarrow> toString j ''intro'' OPTIONAL [];
     broadcast \<leftarrow> to_int32 lx j ''broadcast'' OPTIONAL (-1);
     plainChannelKey \<leftarrow> toString j ''plain_channel_key'' OPTIONAL [];
     qrCodeSetting \<leftarrow> toString j ''share_qr_code_setting'' OPTIONAL [];
     ownerConfirm \<leftarrow> to_int32 lx j ''owner_confirm'' OPTIONAL (-1);
     shareSignature \<leftarrow> toString j ''share_sig'' OPTIONAL [];
     shareAndOwnerConfirmSignature \<leftarrow> toString j ''share_and_owner_confirm_sig'' OPTIONAL [];
     encryptedGroupInfoSecret \<leftarrow> toString j ''encrypted_group_info_secret'' OPTIONAL [];
     encryptedEphemeralKey \<leftarrow> toString j ''encrypted_ephemeral_key'' OPTIONAL [];
     encryptedName \<leftarrow> toString j ''encrypted_name'' OPTIONAL [];
     encryptedIcon \<leftarrow> toString j ''encrypted_icon'' OPTIONAL [];
     encryptedNotice \<leftarrow> toString j ''encrypted_notice'' OPTIONAL [];
     Some \<lparr>ui_gid = gid, ui_name = name, ui_icon = icon, ui_intro = intro, ui_broadcast = broadcast,
       ui_plainChannelKey = plainChannelKey, ui_updateTime = 0,
       ui_nameExisted = (jfind j ''name'' \<noteq> None), ui_iconExisted = (jfind j ''icon'' \<noteq> None),
       ui_qrCodeSetting = qrCodeSetting, ui_ownerConfirm = ownerConfirm, ui_shareSignature = shareSignature,
       ui_shareAndOwnerConfirmSignature = shareAndOwnerConfirmSignature,
       ui_encryptedGroupInfoSecretExisted = (jfind j ''encrypted_group_info_secret'' \<noteq> None),
       ui_encryptedEphemeralKeyExisted = (jfind j ''encrypted_ephemeral_key'' \<noteq> None),
       ui_encryptedGroupInfoSecret = encryptedGroupInfoSecret, ui_encryptedEphemeralKey = encryptedEphemeralKey,
       ui_encryptedNameExisted = (jfind j ''encrypted_name'' \<noteq> None), ui_encryptedIconExisted = (jfind j ''encrypted_icon'' \<noteq> None),
       ui_encryptedNoticeExisted = (jfind j ''encrypted_notice'' \<noteq> None),
       ui_encryptedName = encryptedName, ui_encryptedIcon = encryptedIcon, ui_encryptedNotice = encryptedNotice\<rparr> }"

definition UpdateGroupInfoBodyV3_check :: "int \<Rightarrow> (int \<Rightarrow> bool) \<Rightarrow> UpdateGroupInfoBodyV3 \<Rightarrow> bool" where
  "UpdateGroupInfoBodyV3_check broadcast_off broadcast_valid b \<longleftrightarrow>
     length (ui_name b) \<le> kMaxGroupNameLength \<and> length (ui_icon b) \<le> kMaxGroupIconLength
     \<and> length (ui_intro b) \<le> kMaxGroupIntroLength
     \<and> (ui_broadcast b = -1 \<or> broadcast_valid (ui_broadcast b)) \<and> ui_broadcast b \<noteq> broadcast_off
     \<and> length (ui_plainChannelKey b) \<le> kMaxGroupPlainChannelKeyLength
     \<and> length (ui_shareSignature b) \<le> kMaxShareSignatureLength
     \<and> length (ui_shareAndOwnerConfirmSignature b) \<le> kMaxShareAndOwnerConfirmSignatureLength
     \<and> length (ui_qrCodeSetting b) \<le> kMaxQrCodeSettingLength
     \<and> length (ui_encryptedGroupInfoSecret b) \<le> kMaxGroupInfoSecretLength
     \<and> length (ui_encryptedEphemeralKey b) \<le> kMaxGroupKeyLength
     \<and> length (ui_encryptedName b) \<le> kMaxGroupNameLength \<and> length (ui_encryptedIcon b) \<le> kMaxGroupIconLength
     \<and> length (ui_encryptedNotice b) \<le> kMaxGroupNoticeLength
     \<and> \<not> ((ui_encryptedNameExisted b \<or> ui_encryptedIconExisted b \<or> ui_encryptedNoticeExisted b)
          \<and> (ui_nameExisted b \<or> ui_iconExisted b))"

text \<open>\<open>to_json(Group)\<close>, and what of it is told to the members (\<open>onUpdateGroupInfoV3\<close>).\<close>

definition Group_to_json :: "(string \<Rightarrow> json option) \<Rightarrow> Group \<Rightarrow> json" where
  "Group_to_json parse g =
     jobj [(''gid'', ju64 (g_gid g)), (''name'', JString (g_name g)), (''icon'', JString (g_icon g)),
           (''permission'', ju32 (g_permission g)), (''update_time'', ju64 (g_updateTime g)), (''last_mid'', ju64 (g_lastMid g)),
           (''broadcast'', JInt (g_broadcast g)), (''status'', JInt (g_status g)), (''channel'', JString (g_channel g)),
           (''intro'', JString (g_intro g)), (''create_time'', ju64 (g_createTime g)), (''encrypted'', JInt (g_encryptStatus g)),
           (''plain_channel_key'', JString (g_plainChannelKey g)), (''notice'', safe_parse parse (g_notice g)),
           (''share_qr_code_setting'', JString (g_shareQrCodeSetting g)), (''owner_confirm'', JInt (g_ownerConfirm g)),
           (''share_sig'', JString (g_shareSignature g)),
           (''share_and_owner_confirm_sig'', JString (g_shareAndOwnerConfirmSignature g)),
           (''encrypted_name'', JString (g_encryptedName g)), (''encrypted_icon'', JString (g_encryptedIcon g)),
           (''encrypted_notice'', JString (g_encryptedNotice g))]"

section \<open>Round trips\<close>

lemmas from_json_simps = to_u32_def to_u64_def to_int32_def to_int64_def toNumber_def toGeneric_def toString_def
  skip_optional_def ju32_def ju64_def

lemma get_u64_ju64 [simp]: "get_u64 (ju64 n) = Some n"
  by (simp add: get_u64_def ju64_def)

lemma GroupKeyEntryV0_roundtrip: "GroupKeyEntryV0_from_json lx (GroupKeyEntryV0_to_json e) = Some e"
  by (simp add: GroupKeyEntryV0_from_json_def GroupKeyEntryV0_to_json_def from_json_simps)

lemma GroupKeyEntryV1_roundtrip: "GroupKeyEntryV1_from_json (GroupKeyEntryV1_to_json e) = Some e"
  by (simp add: GroupKeyEntryV1_from_json_def GroupKeyEntryV1_to_json_def from_json_simps)

lemma jobj_not_null [simp]: "jobj fs \<noteq> JNull"
  by (simp add: jobj_def)

text \<open>The keys of a group as they are stored read back: what a member uploads as the keys of the group
  is what the other members fetch, for every version number of the encryption that fits its field.\<close>

lemma group_keys_roundtrip:
  assumes "- (2 ^ 31) \<le> kj_encryptVersion k" and "kj_encryptVersion k < 2 ^ 31"
  shows "GroupKeysJson_from_json lx (GroupKeysJson_to_json k) = Some k"
proof -
  have "get_list (GroupKeyEntryV0_from_json lx) (JArray (map GroupKeyEntryV0_to_json (kj_keysV0 k))) = Some (kj_keysV0 k)"
    by (rule get_list_map) (rule GroupKeyEntryV0_roundtrip)
  moreover have "GroupKeyEntryV1_to_json e \<noteq> JNull" for e by (simp add: GroupKeyEntryV1_to_json_def)
  ultimately show ?thesis
    by (simp add: GroupKeysJson_from_json_def GroupKeysJson_to_json_def from_json_simps to_i32_id [OF assms] GroupKeyEntryV1_roundtrip
        del: get_list.simps)
qed

definition demo_group_keys :: GroupKeysJson where
  "demo_group_keys = \<lparr>kj_encryptVersion = 1, kj_keysV0 = [\<lparr>k0_uid = ''amy'', k0_deviceId = 1, k0_key = ''k''\<rparr>], kj_keysV1 = \<lparr>k1_key = []\<rparr>\<rparr>"

theorem group_keys_roundtrip_witness:
  "GroupKeysJson_from_json \<lparr>lx_u32 = (\<lambda>_. None), lx_u64 = (\<lambda>_. None), lx_i32 = (\<lambda>_. None), lx_i64 = (\<lambda>_. None)\<rparr>
     (GroupKeysJson_to_json demo_group_keys) = Some demo_group_keys"
  by (rule group_keys_roundtrip) (simp_all add: demo_group_keys_def)

lemma KickGroupMemberBody_roundtrip: "KickGroupMemberBody_from_json lx (KickGroupMemberBody_to_json b) = Some b"
  using get_list_map [of get_string JString "kb_members b"]
  by (simp add: KickGroupMemberBody_from_json_def KickGroupMemberBody_to_json_def from_json_simps del: get_list.simps)

lemma FetchLatestGroupKeysRequest_roundtrip:
  assumes "sorted (flk_gids r)" and "distinct (flk_gids r)"
  shows "FetchLatestGroupKeysRequest_from_json (FetchLatestGroupKeysRequest_to_json r) = Some r"
  using get_list_map [of get_u64 ju64 "flk_gids r"] set_of_sorted [OF assms]
  by (simp add: FetchLatestGroupKeysRequest_from_json_def FetchLatestGroupKeysRequest_to_json_def toGeneric_def skip_optional_def del: get_list.simps)

lemma GroupEvent_roundtrip:
  assumes "- (2 ^ 31) \<le> ge_type e" and "ge_type e < 2 ^ 31"
  shows "GroupEvent_from_json (GroupEvent_to_json e) = Some e"
  by (simp add: GroupEvent_from_json_def GroupEvent_to_json_def to_i32_id [OF assms])

end
