(* ===== verification/State_Wp.thy ===== *)
theory State_Wp
  imports Bcm_Prelude "HOL-Library.State_Monad"
begin

text \<open>
  Handlers that make many calls to the database, each of which may change the state of the world, are
  programs of the library's state monad. This theory has what their proofs share: the weakest precondition
  of a program, one introduction rule for every way to compose programs, and loops over lists. A call of the
  world comes with its own rule, named \<open>wp\<close> like the others, so that the proof of a handler follows
  its text.
\<close>

named_theorems wp "weakest preconditions of programs"

definition wps :: "('s, 'a) state \<Rightarrow> ('a \<Rightarrow> 's \<Rightarrow> bool) \<Rightarrow> 's \<Rightarrow> bool" where
  "wps m Q s = (case run_state m s of (a, s') \<Rightarrow> Q a s')"

lemma wps_run: "wps m Q s \<Longrightarrow> Q (fst (run_state m s)) (snd (run_state m s))"
  by (simp add: wps_def split_beta)

lemma wps_return [wp]: "Q a s \<Longrightarrow> wps (State_Monad.return a) Q s"
  by (simp add: wps_def)

lemma wps_bind [wp]: "wps m (\<lambda>a. wps (f a) Q) s \<Longrightarrow> wps (State_Monad.bind m f) Q s"
  by (simp add: wps_def split_beta)

lemma wps_if [wp]: "(b \<Longrightarrow> wps m Q s) \<Longrightarrow> (\<not> b \<Longrightarrow> wps n Q s) \<Longrightarrow> wps (if b then m else n) Q s"
  by simp

lemma wps_option [wp]:
  "(x = None \<Longrightarrow> wps m Q s) \<Longrightarrow> (\<And>a. x = Some a \<Longrightarrow> wps (f a) Q s) \<Longrightarrow> wps (case x of None \<Rightarrow> m | Some a \<Rightarrow> f a) Q s"
  by (cases x) auto

lemma wps_sum [wp]:
  "(\<And>e. x = Inl e \<Longrightarrow> wps (m e) Q s) \<Longrightarrow> (\<And>a. x = Inr a \<Longrightarrow> wps (f a) Q s) \<Longrightarrow> wps (case x of Inl e \<Rightarrow> m e | Inr a \<Rightarrow> f a) Q s"
  by (cases x) auto

lemma wps_prod [wp]: "(\<And>a b. x = (a, b) \<Longrightarrow> wps (f a b) Q s) \<Longrightarrow> wps (case x of (a, b) \<Rightarrow> f a b) Q s"
  by (cases x) auto

lemma wps_Let [wp]: "(\<And>x. x = t \<Longrightarrow> wps (f x) Q s) \<Longrightarrow> wps (let x = t in f x) Q s"
  by (simp add: Let_def)

lemma wps_mono: "wps m Q s \<Longrightarrow> (\<And>a s'. Q a s' \<Longrightarrow> R a s') \<Longrightarrow> wps m R s"
  by (simp add: wps_def split_beta)

section \<open>Loops\<close>

text \<open>\<open>for (x : xs) m x\<close>, and the loop that is left at the first element for which the body gives a
  value.\<close>

fun for_each :: "'a list \<Rightarrow> ('a \<Rightarrow> ('s, 'b) state) \<Rightarrow> ('s, unit) state" where
  "for_each [] m = State_Monad.return ()"
| "for_each (x # xs) m = do { m x; for_each xs m }"

fun for_until :: "'a list \<Rightarrow> ('a \<Rightarrow> ('s, 'b option) state) \<Rightarrow> ('s, 'b option) state" where
  "for_until [] m = State_Monad.return None"
| "for_until (x # xs) m = do { r \<leftarrow> m x; case r of None \<Rightarrow> for_until xs m | Some b \<Rightarrow> State_Monad.return (Some b) }"

lemma wps_for_each:
  assumes "\<And>x s. x \<in> set xs \<Longrightarrow> I s \<Longrightarrow> wps (m x) (\<lambda>_. I) s" and "I s" and "\<And>s. I s \<Longrightarrow> Q () s"
  shows "wps (for_each xs m) Q s"
  using assms
proof (induction xs arbitrary: s)
  case Nil
  then show ?case by (simp add: wp)
next
  case (Cons x xs)
  have "wps (m x) (\<lambda>_. I) s" using Cons.prems by simp
  moreover have "wps (for_each xs m) Q s'" if "I s'" for s' using Cons that by simp
  ultimately show ?case by (auto intro: wps_bind wps_mono)
qed

lemma wps_for_until:
  assumes "\<And>x s. x \<in> set xs \<Longrightarrow> I s \<Longrightarrow> wps (m x) (\<lambda>_. I) s" and "I s" and "\<And>r s. I s \<Longrightarrow> Q r s"
  shows "wps (for_until xs m) Q s"
  using assms
proof (induction xs arbitrary: s)
  case Nil
  then show ?case by (simp add: wp)
next
  case (Cons x xs)
  have "wps (m x) (\<lambda>_. I) s" using Cons.prems by simp
  moreover have "wps (case r of None \<Rightarrow> for_until xs m | Some b \<Rightarrow> State_Monad.return (Some b)) Q s'" if "I s'" for r s'
    using Cons that by (intro wp) auto
  ultimately show ?case by (simp only: for_until.simps) (rule wps_bind, rule wps_mono)
qed

end
