(* ===== verification/Group_Manager.thy ===== *)
theory Group_Manager
  imports Group_Entities State_Wp Bloom_Filters Push_Notification
begin

text \<open>
  \<open>src/controllers/group_manager_controller_V3.cpp\<close> and what it uses of
  \<open>group_manager_controller.cpp\<close>: the requests on groups. A handler is a program of the state monad:
  the state is the world outside the server (the database, Redis, the clock), of any type, and the record
  \<open>GroupManager\<close> has the calls into it, with the enumeration values, the configuration and the
  libraries. An early return of the source is a branch that ends the program with the status and the entity
  of the answer; an exception is \<open>Inl\<close>. Code under \<open>GROUP_EXCEPTION_INJECT_TEST\<close> is for
  failure tests and left out, as are logs and metrics.
\<close>

section \<open>The controller and the world\<close>

datatype GroupEntity =
    LatestGroupKeys "FetchLatestGroupKeysResponseKey list"
  | GroupKeysAnswer u64 "FetchGroupKeysResponseKey list"
  | FireResult "u64 list" "u64 list"
  | CreatedGroup u64
  | DeviceKeysList "DeviceKeys list"
  | JoinAnswer GroupJoinResponseV3
  | InviteAnswer InviteGroupMemberResponseV3
  | MembersAnswer "GroupMember list"
  | GroupResponse_ok

type_synonym answer = "cpp_error + nat \<times> GroupEntity option"

datatype limiter_name = CreationLimiter | FireKeysUpdateLimiter | DhKeysLimiter | MemberJoinLimiter

record 's GroupManager =
  gm_roleNo :: "Role \<Rightarrow> int"
  gm_oneForEach :: int
  gm_allTheSame :: int
  gm_unknown :: int
  gm_broadcastOff :: int
  gm_broadcastValid :: "int \<Rightarrow> bool"
  gm_encryptOn :: int
  gm_statusDefault :: int
  gm_typeMemberUpdate :: int
  gm_typeSwitchGroupKeys :: int
  gm_typeUpdateGroupKeysRequest :: int
  gm_master :: u32
  gm_ios :: nat
  gm_android :: nat
  gm_multiDevice :: u32
  gm_needUpgrade :: bool
  gm_powerGroupMin :: u32
  gm_powerGroupMax :: u32
  gm_normalGroupRefreshKeysMax :: u32
  gm_keySwitchCandidateCount :: u32
  gm_b64dec :: "string \<Rightarrow> string"
  gm_b64size :: "nat \<Rightarrow> nat"
  gm_decodePoint :: "string \<Rightarrow> string option"
  gm_verifySignature :: "string \<Rightarrow> string \<Rightarrow> string \<Rightarrow> int"
  gm_dump :: "json \<Rightarrow> string"
  gm_parse :: "string \<Rightarrow> json option"
  gm_lexical :: Lexical
  gm_rand :: "u32 \<Rightarrow> nat"
  gm_keysBytes :: "DeviceKeys \<Rightarrow> string"
  gm_parseKeys :: "string \<Rightarrow> DeviceKeys option"
  gm_joinReview :: "u64 \<Rightarrow> string"
  gm_now :: "('s, u64) state"
  gm_acquireAccess :: "limiter_name \<Rightarrow> string \<Rightarrow> ('s, bool) state"
  gm_limited :: "limiter_name \<Rightarrow> string \<Rightarrow> ('s, bool) state"
  gm_getAccount :: "string \<Rightarrow> ('s, dao_code \<times> Account) state"
  gm_getKeys :: "string list \<Rightarrow> ('s, dao_code \<times> DeviceKeys list) state"
  gm_getKeysByGid :: "u64 \<Rightarrow> ('s, dao_code \<times> DeviceKeys list) state"
  gm_groups_create :: "Group \<Rightarrow> ('s, dao_code \<times> u64) state"
  gm_groups_get :: "u64 \<Rightarrow> ('s, dao_code \<times> Group) state"
  gm_groups_update :: "u64 \<Rightarrow> json \<Rightarrow> ('s, dao_code) state"
  gm_groups_del :: "u64 \<Rightarrow> ('s, dao_code) state"
  gm_users_insert :: "GroupUser \<Rightarrow> ('s, dao_code) state"
  gm_users_insertBatch :: "GroupUser list \<Rightarrow> ('s, dao_code) state"
  gm_users_getMemberRole :: "u64 \<Rightarrow> string \<Rightarrow> ('s, dao_code \<times> Role) state"
  gm_users_getMemberRoles :: "u64 \<Rightarrow> (string \<times> Role) list \<Rightarrow> ('s, dao_code \<times> (string \<times> Role) list) state"
  gm_users_delMember :: "u64 \<Rightarrow> string \<Rightarrow> ('s, dao_code) state"
  gm_users_delMemberBatch :: "u64 \<Rightarrow> string list \<Rightarrow> ('s, dao_code) state"
  gm_users_getMemberBatch :: "u64 \<Rightarrow> string list \<Rightarrow> ('s, dao_code \<times> GroupUser list) state"
  gm_users_getJoinedGroups :: "string \<Rightarrow> ('s, dao_code \<times> u64 list) state"
  gm_users_getGroupOwner :: "u64 \<Rightarrow> ('s, dao_code \<times> string) state"
  gm_users_getMember :: "u64 \<Rightarrow> string \<Rightarrow> ('s, dao_code \<times> GroupUser) state"
  gm_users_memberInfo :: "u64 \<Rightarrow> ('s, dao_code \<times> GroupCounter) state"
  gm_users_memberInfo2 :: "u64 \<Rightarrow> string \<Rightarrow> string \<Rightarrow> ('s, dao_code \<times> GroupCounter \<times> Role \<times> Role) state"
  gm_users_updateRole :: "u64 \<Rightarrow> string \<Rightarrow> Role \<Rightarrow> ('s, dao_code) state"
  gm_keys_insert :: "GroupKeys \<Rightarrow> ('s, dao_code) state"
  gm_keys_get :: "u64 \<Rightarrow> int list \<Rightarrow> ('s, dao_code \<times> GroupKeys list) state"
  gm_keys_getLatestMode :: "u64 \<Rightarrow> ('s, dao_code \<times> int) state"
  gm_keys_getLatestModeAndVersion :: "u64 \<Rightarrow> ('s, dao_code \<times> int \<times> int) state"
  gm_keys_getLatestGroupKeys :: "u64 list \<Rightarrow> ('s, dao_code \<times> GroupKeys list) state"
  gm_keys_clear :: "u64 \<Rightarrow> ('s, dao_code) state"
  gm_msgs_insert :: "GroupMsg \<Rightarrow> ('s, dao_code \<times> u64) state"
  gm_pending_set :: "PendingGroupUser \<Rightarrow> ('s, dao_code) state"
  gm_pending_del :: "u64 \<Rightarrow> string list \<Rightarrow> ('s, dao_code) state"
  gm_pending_clear :: "u64 \<Rightarrow> ('s, dao_code) state"
  gm_qr_set :: "u64 \<Rightarrow> string \<Rightarrow> int \<Rightarrow> ('s, dao_code) state"
  gm_qr_get :: "u64 \<Rightarrow> string \<Rightarrow> ('s, dao_code) state"
  gm_cache_get :: "string \<Rightarrow> ('s, string option) state"
  gm_cache_set :: "string \<Rightarrow> string \<Rightarrow> ('s, bool) state"
  gm_publishUser :: "string \<Rightarrow> string \<Rightarrow> ('s, bool) state"
  gm_publishOnline :: "string \<Rightarrow> string \<Rightarrow> string \<Rightarrow> ('s, unit) state"
  gm_sleep :: "nat \<Rightarrow> ('s, unit) state"
  gm_onlineMembers :: "u64 \<Rightarrow> ('s, DispatchAddress list) state"

text \<open>An answer with no entity, and one with an entity.\<close>

definition reply :: "nat \<Rightarrow> ('s, answer) state" where
  "reply status = State_Monad.return (Inr (status, None))"

definition reply_with :: "nat \<Rightarrow> GroupEntity \<Rightarrow> ('s, answer) state" where
  "reply_with status e = State_Monad.return (Inr (status, Some e))"

abbreviation raise :: "cpp_error \<Rightarrow> ('s, answer) state" where
  "raise e \<equiv> State_Monad.return (Inl e)"

definition kQrCodeGroupUserTtl :: int where "kQrCodeGroupUserTtl = 60"
definition GroupV3 :: int where "GroupV3 = 3"

definition checkGroupVersion :: "Group \<Rightarrow> int \<Rightarrow> bool" where
  "checkGroupVersion gr expected \<longleftrightarrow> g_version gr = expected"

definition GROUP_INFO_UPDATE :: int where "GROUP_INFO_UPDATE = 3"
definition GROUP_MEMBER_UPDATE :: int where "GROUP_MEMBER_UPDATE = 4"
definition INTERNAL_USER_ENTER_GROUP :: int where "INTERNAL_USER_ENTER_GROUP = 1"
definition INTERNAL_USER_QUIT_GROUP :: int where "INTERNAL_USER_QUIT_GROUP = 2"
definition INTERNAL_USER_CHANGE_ROLE :: int where "INTERNAL_USER_CHANGE_ROLE = 3"

section \<open>Signatures and friends\<close>

definition gm_decode :: "'s GroupManager \<Rightarrow> string \<Rightarrow> string" where
  "gm_decode gm t = Base64_decode (gm_b64dec gm) (gm_b64size gm) t False"

definition verifySignature :: "'s GroupManager \<Rightarrow> string \<Rightarrow> string \<Rightarrow> string \<Rightarrow> bool" where
  "verifySignature gm key message sign =
     (case gm_decodePoint gm (gm_decode gm key) of
        None \<Rightarrow> False
      | Some publicKey \<Rightarrow> 0 < gm_verifySignature gm publicKey message (gm_decode gm sign))"

definition int_text :: "int \<Rightarrow> string" where
  "int_text i = (if i < 0 then CHR ''-'' # to_dec (nat (- i)) else to_dec (nat i))"

definition verifyGroupSetting :: "'s GroupManager \<Rightarrow> string \<Rightarrow> string \<Rightarrow> int \<Rightarrow> string \<Rightarrow> string \<Rightarrow> bool" where
  "verifyGroupSetting gm qrCodeSetting shareSignature ownerConfirm shareAndOwnerConfirmSignature ownerPublicKey =
     (let decoded = (if shareSignature \<noteq> [] then gm_decode gm qrCodeSetting else [])
      in if shareSignature \<noteq> [] \<and> \<not> verifySignature gm ownerPublicKey decoded shareSignature then False
         else if shareAndOwnerConfirmSignature \<noteq> []
              \<and> \<not> verifySignature gm ownerPublicKey (decoded @ int_text ownerConfirm) shareAndOwnerConfirmSignature then False
         else True)"

text \<open>A phone client that does not support several devices is told to upgrade.\<close>

definition group_must_upgrade :: "'s GroupManager \<Rightarrow> Account \<Rightarrow> cpp_error + bool" where
  "group_must_upgrade gm account =
     (if \<not> gm_needUpgrade gm then Inr False
      else case getAuthDevice account of
             None \<Rightarrow> Inl NoneAccess
           | Some authDevice \<Rightarrow>
               (case HexEncoder_decode (getFeatures account (d_id authDevice)) False of
                  Inl e \<Rightarrow> Inl e
                | Inr features \<Rightarrow>
                    Inr ((cv_osType (clientversion authDevice) = gm_ios gm \<or> cv_osType (clientversion authDevice) = gm_android gm)
                         \<and> \<not> hasFeature (BaseFeatures_str features) (gm_multiDevice gm))))"

text \<open>Whether the filter of an account's contacts, if it has one, lets a user pass.\<close>

definition is_friend :: "'s GroupManager \<Rightarrow> Account \<Rightarrow> string \<Rightarrow> cpp_error + bool" where
  "is_friend gm account uid =
     (case a_contactsFilters account of
        None \<Rightarrow> Inr True
      | Some filters \<Rightarrow> bloom_contains uid (BloomFilters_content (cf_algo filters) (gm_decode gm (cf_content filters))))"

text \<open>Both loops of \<open>checkBidirectionalRelationship\<close>: \<open>None\<close> means the users may be put in the
  group, otherwise the status to answer with (200 hides the refusal).\<close>

fun all_friends :: "'s GroupManager \<Rightarrow> Account \<Rightarrow> string list \<Rightarrow> (cpp_error + nat) option" where
  "all_friends gm account [] = None"
| "all_friends gm account (m # ms) =
     (case is_friend gm account m of
        Inl e \<Rightarrow> Some (Inl e)
      | Inr False \<Rightarrow> Some (Inr 200)
      | Inr True \<Rightarrow> all_friends gm account ms)"

definition friend_of_member :: "'s GroupManager \<Rightarrow> Account \<Rightarrow> string \<Rightarrow> ('s, (cpp_error + nat) option) state" where
  "friend_of_member gm account m = do {
     (ec, memberAccount) \<leftarrow> gm_getAccount gm m;
     if ec \<noteq> Dao_Success then State_Monad.return (Some (Inr 500))
     else State_Monad.return (all_friends gm memberAccount [a_uid account]) }"

definition checkBidirectionalRelationship ::
    "'s GroupManager \<Rightarrow> Account \<Rightarrow> string list \<Rightarrow> ('s, (cpp_error + nat) option) state" where
  "checkBidirectionalRelationship gm account members =
     (case all_friends gm account members of
        Some r \<Rightarrow> State_Monad.return (Some r)
      | None \<Rightarrow> for_until members (friend_of_member gm account))"

definition undefined_roles :: "string list \<Rightarrow> (string \<times> Role) list" where
  "undefined_roles members = fold (\<lambda>m. sm_put m ROLE_UNDEFINE) members []"

definition checkBidirectionalRelationshipBypassSubscribers ::
    "'s GroupManager \<Rightarrow> Account \<Rightarrow> u64 \<Rightarrow> string list \<Rightarrow> ('s, (cpp_error + nat) option) state" where
  "checkBidirectionalRelationshipBypassSubscribers gm account gid members = do {
     (ec, memberRoles) \<leftarrow> gm_users_getMemberRoles gm gid (undefined_roles members);
     if ec \<noteq> Dao_Success \<and> ec \<noteq> Dao_NoSuchData then State_Monad.return (Some (Inr 500))
     else
       let others = filter (\<lambda>m. map_of memberRoles m \<noteq> Some ROLE_SUBSCRIBER) members
       in case all_friends gm account others of
            Some r \<Rightarrow> State_Monad.return (Some r)
          | None \<Rightarrow> for_until others (friend_of_member gm account) }"

definition getGroupOwner :: "'s GroupManager \<Rightarrow> u64 \<Rightarrow> ('s, Account option) state" where
  "getGroupOwner gm gid = do {
     (ec, ownerUid) \<leftarrow> gm_users_getGroupOwner gm gid;
     if ec \<noteq> Dao_Success then State_Monad.return None
     else do {
       (ec, owner) \<leftarrow> gm_getAccount gm ownerUid;
       if ec \<noteq> Dao_Success then State_Monad.return None else State_Monad.return (Some owner) } }"

section \<open>Messages to the members\<close>

text \<open>A system message is stored and announced; \<open>Some mid\<close> is success.\<close>

definition pubGroupSystemMessage :: "'s GroupManager \<Rightarrow> string \<Rightarrow> u64 \<Rightarrow> int \<Rightarrow> string \<Rightarrow> ('s, u64 option) state" where
  "pubGroupSystemMessage gm uid groupid ty strText = do {
     nowTime \<leftarrow> gm_now gm;
     (ec, newMid) \<leftarrow> gm_msgs_insert gm \<lparr>gmsg_gid = groupid, gmsg_fromUid = uid, gmsg_text = strText, gmsg_updateTime = nowTime,
       gmsg_createTime = nowTime, gmsg_type = ty, gmsg_status = 1, gmsg_atList = ''[]''\<rparr>;
     if ec \<noteq> Dao_Success then State_Monad.return None
     else do {
       gm_publishOnline gm ''group_event_msg'' ''group_event_msg''
         (gm_dump gm (jobj [(''gid'', ju64 groupid), (''mid'', ju64 newMid), (''type'', JInt ty), (''from_uid'', JString uid),
            (''create_time'', ju64 nowTime), (''text'', JString strText)]));
       State_Monad.return (Some newMid) } }"

text \<open>The event on the channel of the user. The braces of the failure branch are missing in the source, so
  that the function always returns false.\<close>

definition publishGroupUserEvent :: "'s GroupManager \<Rightarrow> u64 \<Rightarrow> string \<Rightarrow> int \<Rightarrow> ('s, bool) state" where
  "publishGroupUserEvent gm gid uid ty = do {
     gm_publishUser gm (''user_'' @ uid) (gm_dump gm (GroupEvent_to_json \<lparr>ge_type = ty, ge_uid = uid, ge_gid = gid\<rparr>));
     State_Monad.return False }"

definition pubReviewJoinRequestToOwner :: "'s GroupManager \<Rightarrow> u64 \<Rightarrow> string \<Rightarrow> ('s, unit) state" where
  "pubReviewJoinRequestToOwner gm gid uid =
     gm_publishOnline gm uid (getSerialized \<lparr>da_uid = uid, da_deviceid = gm_master gm\<rparr>) (gm_joinReview gm gid)"

text \<open>\<open>sendSwitchGroupKeysWithRetry\<close>: three attempts, with a pause after each failure.\<close>

fun switch_retry :: "'s GroupManager \<Rightarrow> string \<Rightarrow> u64 \<Rightarrow> int \<Rightarrow> nat list \<Rightarrow> ('s, bool) state" where
  "switch_retry gm uid gid version [] = State_Monad.return False"
| "switch_retry gm uid gid version (i # is) = do {
     r \<leftarrow> pubGroupSystemMessage gm uid gid (gm_typeSwitchGroupKeys gm) (gm_dump gm (GroupSwitchGroupKeysBody_to_json version));
     case r of
       Some _ \<Rightarrow> State_Monad.return True
     | None \<Rightarrow> do { gm_sleep gm (200 * i); switch_retry gm uid gid version is } }"

definition sendSwitchGroupKeysWithRetry :: "'s GroupManager \<Rightarrow> string \<Rightarrow> u64 \<Rightarrow> int \<Rightarrow> ('s, bool) state" where
  "sendSwitchGroupKeysWithRetry gm uid gid version = switch_retry gm uid gid version [1, 2, 3]"

section \<open>The cache of device keys\<close>

definition cacheKey :: "u64 \<Rightarrow> int \<Rightarrow> string" where
  "cacheKey gid version = to_dec (unat gid) @ ''_'' @ int_text version"

text \<open>Little-endian lengths.\<close>

definition le32 :: "nat \<Rightarrow> string" where
  "le32 n = [char_of (n mod 256), char_of (n div 256 mod 256), char_of (n div 65536 mod 256), char_of (n div 16777216 mod 256)]"

definition read_le32 :: "string \<Rightarrow> nat" where
  "read_le32 t = of_char (t ! 0) + of_char (t ! 1) * 256 + of_char (t ! 2) * 65536 + of_char (t ! 3) * 16777216"

definition KeysCache_serialize :: "'s GroupManager \<Rightarrow> DeviceKeys list \<Rightarrow> string option" where
  "KeysCache_serialize gm keys =
     (if keys = [] then None else Some (concat (map (\<lambda>k. le32 (length (gm_keysBytes gm k)) @ gm_keysBytes gm k) keys)))"

text \<open>The loop reads a length and that many bytes; both may lie behind the end of the value. The keys read
  before a failure stay in the result.\<close>

function KeysCache_deserialize :: "'s GroupManager \<Rightarrow> string \<Rightarrow> DeviceKeys list \<Rightarrow> cpp_error + bool \<times> DeviceKeys list" where
  "KeysCache_deserialize gm t keys =
     (if t = [] then Inr (True, keys)
      else if length t < 4 then Inl OutOfBounds
      else let len = read_le32 t
           in if length t < 4 + len then Inl OutOfBounds
              else case gm_parseKeys gm (take len (drop 4 t)) of
                     None \<Rightarrow> Inr (False, keys)
                   | Some key \<Rightarrow> KeysCache_deserialize gm (drop (4 + len) t) (keys @ [key]))"
  by pat_completeness auto
termination by (relation "measure (\<lambda>(gm, t, keys). length t)") auto

declare KeysCache_deserialize.simps [simp del]

definition KeysCache_get :: "'s GroupManager \<Rightarrow> u64 \<Rightarrow> int \<Rightarrow> ('s, cpp_error + bool \<times> DeviceKeys list) state" where
  "KeysCache_get gm gid version = do {
     v \<leftarrow> gm_cache_get gm (cacheKey gid version);
     case v of
       None \<Rightarrow> State_Monad.return (Inr (False, []))
     | Some t \<Rightarrow> State_Monad.return (if t = [] then Inr (False, []) else KeysCache_deserialize gm t []) }"

definition KeysCache_set :: "'s GroupManager \<Rightarrow> u64 \<Rightarrow> int \<Rightarrow> DeviceKeys list \<Rightarrow> ('s, bool) state" where
  "KeysCache_set gm gid version keys =
     (case KeysCache_serialize gm keys of
        None \<Rightarrow> State_Monad.return False
      | Some t \<Rightarrow> gm_cache_set gm (cacheKey gid version) t)"

section \<open>When the keys of a group are changed\<close>

text \<open>\<open>sendGroupKeysUpdateRequestWithRetry\<close>.\<close>

fun update_retry :: "'s GroupManager \<Rightarrow> string \<Rightarrow> u64 \<Rightarrow> int \<Rightarrow> nat list \<Rightarrow> ('s, bool) state" where
  "update_retry gm uid gid mode [] = State_Monad.return False"
| "update_retry gm uid gid mode (i # is) = do {
     r \<leftarrow> pubGroupSystemMessage gm uid gid (gm_typeUpdateGroupKeysRequest gm) (gm_dump gm (GroupUpdateGroupKeysRequestBody_to_json mode));
     case r of
       Some mid \<Rightarrow>
         if mode = gm_oneForEach gm then do {
           (ec, keys) \<leftarrow> gm_getKeysByGid gm gid;
           if ec = Dao_Success then do { KeysCache_set gm gid (sint mid) keys; State_Monad.return True }
           else State_Monad.return True }
         else State_Monad.return True
     | None \<Rightarrow> do { gm_sleep gm (200 * i); update_retry gm uid gid mode is } }"

definition sendGroupKeysUpdateRequestWithRetry :: "'s GroupManager \<Rightarrow> string \<Rightarrow> u64 \<Rightarrow> int \<Rightarrow> ('s, bool) state" where
  "sendGroupKeysUpdateRequestWithRetry gm uid gid mode = update_retry gm uid gid mode [1, 2, 3]"

definition latest_mode :: "'s GroupManager \<Rightarrow> u64 \<Rightarrow> ('s, int) state" where
  "latest_mode gm gid = do {
     (ret, mode) \<leftarrow> gm_keys_getLatestMode gm gid;
     State_Monad.return (if ret \<noteq> Dao_Success then gm_unknown gm else mode) }"

definition sendGroupKeysUpdateRequestWhenMemberChanges :: "'s GroupManager \<Rightarrow> string \<Rightarrow> u64 \<Rightarrow> u32 \<Rightarrow> ('s, bool) state" where
  "sendGroupKeysUpdateRequestWhenMemberChanges gm uid gid n =
     (let sendPower = sendGroupKeysUpdateRequestWithRetry gm uid gid (gm_oneForEach gm);
          sendNormal = sendGroupKeysUpdateRequestWithRetry gm uid gid (gm_allTheSame gm)
      in if n \<le> gm_powerGroupMin gm then sendPower
         else if gm_powerGroupMin gm < n \<and> n \<le> gm_powerGroupMax gm then do {
           mode \<leftarrow> latest_mode gm gid;
           if mode = gm_oneForEach gm then sendPower
           else if mode = gm_allTheSame gm then sendNormal
           else if mode = gm_unknown gm then sendPower
           else State_Monad.return False }
         else if gm_powerGroupMax gm < n \<and> n \<le> gm_normalGroupRefreshKeysMax gm then sendNormal
         else do {
           mode \<leftarrow> latest_mode gm gid;
           if mode = gm_oneForEach gm then sendNormal
           else if mode = gm_allTheSame gm then State_Monad.return True
           else if mode = gm_unknown gm then sendNormal
           else State_Monad.return False })"

section \<open>Who may distribute new keys\<close>

text \<open>\<open>GroupMsgService::getLocalOnlineGroupMembers\<close>: the main devices among the members connected to
  this server; a count of 0 means all.\<close>

fun take_masters :: "u32 \<Rightarrow> nat \<Rightarrow> DispatchAddress list \<Rightarrow> DispatchAddress list \<Rightarrow> DispatchAddress list" where
  "take_masters master count [] users = users"
| "take_masters master count (u # us) users =
     (if 0 < count \<and> count \<le> length users then users
      else take_masters master count us (if da_deviceid u = master then users @ [u] else users))"

definition getLocalOnlineGroupMembers :: "'s GroupManager \<Rightarrow> u64 \<Rightarrow> nat \<Rightarrow> ('s, DispatchAddress list) state" where
  "getLocalOnlineGroupMembers gm gid count = do {
     tmpUsers \<leftarrow> gm_onlineMembers gm gid;
     State_Monad.return (take_masters (gm_master gm) count tmpUsers []) }"

text \<open>The loop of \<open>selectKeyDistributionCandidates\<close>: the index moves on only over main devices, so
  on other input the loop may not end, which is \<open>None\<close>.\<close>

partial_function (option) candidates_loop ::
    "u32 \<Rightarrow> nat \<Rightarrow> DispatchAddress list \<Rightarrow> nat \<Rightarrow> DispatchAddress list \<Rightarrow> DispatchAddress list option" where
  "candidates_loop master count users index candidates =
     (let ismaster = da_deviceid (users ! index) = master;
          candidates' = (if ismaster then List.insert (users ! index) candidates else candidates);
          index' = (if ismaster then (index + 1) mod length users else index)
      in if length candidates' < count then candidates_loop master count users index' candidates' else Some candidates')"

definition selectKeyDistributionCandidates :: "'s GroupManager \<Rightarrow> u64 \<Rightarrow> u32 \<Rightarrow> nat \<Rightarrow> ('s, DispatchAddress list option) state" where
  "selectKeyDistributionCandidates gm gid seed count =
     (if count = 0 then State_Monad.return (Some [])
      else do {
        users \<leftarrow> getLocalOnlineGroupMembers gm gid 0;
        if length users \<le> count then State_Monad.return (Some (remdups users))
        else State_Monad.return (candidates_loop (gm_master gm) count users (gm_rand gm seed mod length users) []) })"

section \<open>Handlers: keys of a group\<close>

definition onUploadGroupKeysV3 :: "'s GroupManager \<Rightarrow> Account \<Rightarrow> UploadGroupKeysRequest \<Rightarrow> ('s, answer) state" where
  "onUploadGroupKeysV3 gm account req = do {
     (getMemberRet, user) \<leftarrow> gm_users_getMember gm (ugk_gid req) (a_uid account);
     if getMemberRet = Dao_NoSuchData then reply 403
     else if getMemberRet \<noteq> Dao_Success then reply 500
     else do {
       (getGroupRet, gr) \<leftarrow> gm_groups_get gm (ugk_gid req);
       if getGroupRet \<noteq> Dao_Success then reply 500
       else if g_version gr \<noteq> GroupV3 then reply 400
       else if ugk_groupKeysMode req \<noteq> gm_allTheSame gm \<and> ugk_groupKeysMode req \<noteq> gm_oneForEach gm then reply 400
       else do {
         createTime \<leftarrow> gm_now gm;
         ret \<leftarrow> gm_keys_insert gm \<lparr>gk_gid = ugk_gid req, gk_version = ugk_version req,
           gk_groupKeys = gm_dump gm (GroupKeysJson_to_json (ugk_groupKeys req)), gk_mode = ugk_groupKeysMode req,
           gk_creator = a_uid account, gk_createTime = createTime\<rparr>;
         if ret = Dao_Success then do {
           sendSwitchGroupKeysWithRetry gm (a_uid account) (ugk_gid req) (ugk_version req);
           reply 204 }
         else if ret = Dao_CasFail then reply 409
         else reply 500 } } }"

text \<open>The key of one stored version for one device: an error, nothing (the version has no key for the
  device), or the entry.\<close>

definition key_entry ::
    "'s GroupManager \<Rightarrow> string \<Rightarrow> u32 \<Rightarrow> GroupKeys \<Rightarrow> FetchGroupKeysResponseKey option option" where
  "key_entry gm uid deviceId groupKey =
     (case do { j \<leftarrow> gm_parse gm (gk_groupKeys groupKey); GroupKeysJson_from_json (gm_lexical gm) j } of
        None \<Rightarrow> None
      | Some js \<Rightarrow>
          (let r = \<lparr>rk_version = gk_version groupKey, rk_encryptVersion = kj_encryptVersion js, rk_groupKeysMode = gk_mode groupKey,
                    rk_keysV0 = GroupKeyEntryV0_new, rk_keysV1 = \<lparr>k1_key = []\<rparr>\<rparr>
           in if gk_mode groupKey = gm_allTheSame gm then Some (Some (r\<lparr>rk_keysV1 := kj_keysV1 js\<rparr>))
              else if gk_mode groupKey = gm_oneForEach gm then
                Some (map_option (\<lambda>e. r\<lparr>rk_keysV0 := e\<rparr>)
                  (List.find (\<lambda>e. k0_uid e = uid \<and> k0_deviceId e = deviceId) (kj_keysV0 js)))
              else Some (Some r)))"

fun key_entries :: "'s GroupManager \<Rightarrow> string \<Rightarrow> u32 \<Rightarrow> GroupKeys list \<Rightarrow> (u64 \<times> FetchGroupKeysResponseKey) list option" where
  "key_entries gm uid deviceId [] = Some []"
| "key_entries gm uid deviceId (k # ks) =
     (case key_entry gm uid deviceId k of
        None \<Rightarrow> None
      | Some None \<Rightarrow> key_entries gm uid deviceId ks
      | Some (Some e) \<Rightarrow> map_option (Cons (gk_gid k, e)) (key_entries gm uid deviceId ks))"

definition latest_key :: "u64 \<times> FetchGroupKeysResponseKey \<Rightarrow> FetchLatestGroupKeysResponseKey" where
  "latest_key p = FetchGroupKeysResponseKey.extend (snd p) \<lparr>rk_gid = fst p\<rparr>"

definition onFetchLatestGroupKeysV3 :: "'s GroupManager \<Rightarrow> Account \<Rightarrow> FetchLatestGroupKeysRequest \<Rightarrow> ('s, answer) state" where
  "onFetchLatestGroupKeysV3 gm account req =
     (if kMaxGroupBatchFetchLatestKeysV3 < length (flk_gids req) then reply 400
      else do {
        (ret, joinedGids) \<leftarrow> gm_users_getJoinedGroups gm (a_uid account);
        if ret \<noteq> Dao_Success then reply 500
        else if \<not> list_all (\<lambda>gid. gid \<in> set joinedGids) (flk_gids req) then reply 403
        else do {
          (ret, groupKeys) \<leftarrow> gm_keys_getLatestGroupKeys gm (flk_gids req);
          if ret = Dao_NoSuchData then reply_with 200 (LatestGroupKeys [])
          else if ret \<noteq> Dao_Success then reply 500
          else case getAuthDevice account of
                 None \<Rightarrow> raise NoneAccess
               | Some device \<Rightarrow>
                   (case key_entries gm (a_uid account) (d_id device) groupKeys of
                      None \<Rightarrow> reply 500
                    | Some es \<Rightarrow> reply_with 200 (LatestGroupKeys (map latest_key es))) } })"

definition onFetchGroupKeysV3 :: "'s GroupManager \<Rightarrow> Account \<Rightarrow> FetchGroupKeysRequest \<Rightarrow> ('s, answer) state" where
  "onFetchGroupKeysV3 gm account req =
     (if kMaxGroupBatchCommonV3 < length (fgk_versions req) then reply 400
      else do {
        (getMemberRet, user) \<leftarrow> gm_users_getMember gm (fgk_gid req) (a_uid account);
        if getMemberRet = Dao_NoSuchData then reply 403
        else if getMemberRet \<noteq> Dao_Success then reply 500
        else do {
          (ret, groupKeys) \<leftarrow> gm_keys_get gm (fgk_gid req) (fgk_versions req);
          if ret = Dao_NoSuchData then reply_with 200 (GroupKeysAnswer (fgk_gid req) [])
          else if ret \<noteq> Dao_Success then reply 500
          else case getAuthDevice account of
                 None \<Rightarrow> raise NoneAccess
               | Some device \<Rightarrow>
                   (case key_entries gm (a_uid account) (d_id device) groupKeys of
                      None \<Rightarrow> reply 500
                    | Some es \<Rightarrow> reply_with 200 (GroupKeysAnswer (fgk_gid req) (map snd es))) } })"

text \<open>The loop of \<open>fireGroupKeysUpdateV3\<close> over the groups.\<close>

fun fire_loop :: "'s GroupManager \<Rightarrow> string \<Rightarrow> u64 list \<Rightarrow> u64 list \<Rightarrow> u64 list \<Rightarrow> ('s, answer) state" where
  "fire_loop gm uid [] success fail = reply_with 200 (FireResult success fail)"
| "fire_loop gm uid (gid # gids) success fail = do {
     (ret, counter) \<leftarrow> gm_users_memberInfo gm gid;
     if ret \<noteq> Dao_Success then reply 500
     else do {
       ok \<leftarrow> sendGroupKeysUpdateRequestWhenMemberChanges gm uid gid (gc_memberCnt counter);
       if ok then fire_loop gm uid gids (success @ [gid]) fail else fire_loop gm uid gids success (fail @ [gid]) } }"

definition fireGroupKeysUpdateV3 :: "'s GroupManager \<Rightarrow> Account \<Rightarrow> FireGroupKeysUpdateRequest \<Rightarrow> ('s, answer) state" where
  "fireGroupKeysUpdateV3 gm account req =
     (if kMaxGroupBatchCommonV3 < length (fku_gids req) then reply 400
      else do {
        limit \<leftarrow> for_until (fku_gids req) (\<lambda>gid. do {
          limited \<leftarrow> gm_acquireAccess gm FireKeysUpdateLimiter (a_uid account @ ''_'' @ to_dec (unat gid));
          State_Monad.return (if limited then Some () else None) });
        case limit of
          Some _ \<Rightarrow> reply 460
        | None \<Rightarrow> do {
            (ret, joinedGids) \<leftarrow> gm_users_getJoinedGroups gm (a_uid account);
            if ret \<noteq> Dao_Success then reply 500
            else if \<not> list_all (\<lambda>gid. gid \<in> set joinedGids) (fku_gids req) then reply 403
            else fire_loop gm (a_uid account) (fku_gids req) [] [] } })"

definition onDhKeysV3 :: "'s GroupManager \<Rightarrow> Account \<Rightarrow> DhKeysRequest \<Rightarrow> ('s, answer) state" where
  "onDhKeysV3 gm account req =
     (if \<not> DhKeysRequest_check req then reply 400
      else do {
        limited \<leftarrow> gm_acquireAccess gm DhKeysLimiter (a_uid account);
        if limited then reply 460
        else do {
          (ec, keys) \<leftarrow> gm_getKeys gm (dh_uids req);
          if ec \<noteq> Dao_NoSuchData \<and> ec \<noteq> Dao_Success then reply 500
          else reply_with 200 (DeviceKeysList keys) } })"

text \<open>\<open>None\<close>: the handler does not return. What a failed read of the cache left in \<open>keys\<close>
  stays there when the database has no keys for the group.\<close>

definition onPrepareKeyUpdateV3 :: "'s GroupManager \<Rightarrow> Account \<Rightarrow> PrepareKeyUpdateRequestV3 \<Rightarrow> ('s, answer option) state" where
  "onPrepareKeyUpdateV3 gm account req = do {
     let done = (\<lambda>m. do { a \<leftarrow> m; State_Monad.return (Some a) });
     (ec, gr) \<leftarrow> gm_groups_get gm (pku_gid req);
     if ec = Dao_NoSuchData then done (reply 400)
     else if ec \<noteq> Dao_Success then done (reply 500)
     else if \<not> checkGroupVersion gr GroupV3 then done (reply 400)
     else do {
       (ec, mode, version) \<leftarrow> gm_keys_getLatestModeAndVersion gm (pku_gid req);
       if ec \<noteq> Dao_Success \<and> ec \<noteq> Dao_NoSuchData then done (reply 500)
       else if ec = Dao_Success \<and> pku_version req \<le> version then done (reply 409)
       else do {
         c \<leftarrow> selectKeyDistributionCandidates gm (pku_gid req) (word_of_int (pku_version req)) (unat (gm_keySwitchCandidateCount gm));
         case c of
           None \<Rightarrow> State_Monad.return None
         | Some candidates \<Rightarrow>
             if \<lparr>da_uid = a_uid account, da_deviceid = a_authDeviceId account\<rparr> \<notin> set candidates then
               done (reply_with 409 (DeviceKeysList []))
             else if pku_mode req = gm_oneForEach gm then do {
               cached \<leftarrow> KeysCache_get gm (pku_gid req) (pku_version req);
               case cached of
                 Inl e \<Rightarrow> done (raise e)
               | Inr (True, keys) \<Rightarrow> done (reply_with 200 (DeviceKeysList keys))
               | Inr (False, partial) \<Rightarrow> do {
                   (ec, keys') \<leftarrow> gm_getKeysByGid gm (pku_gid req);
                   let keys = (if ec = Dao_Success then keys' else partial);
                   if ec \<noteq> Dao_NoSuchData \<and> ec \<noteq> Dao_Success then done (reply 500)
                   else do {
                     KeysCache_set gm (pku_gid req) (pku_version req) keys;
                     done (reply_with 200 (DeviceKeysList keys)) } } }
             else done (reply_with 200 (DeviceKeysList [])) } } }"

section \<open>Handlers: members of a group\<close>

definition sys_text :: "'s GroupManager \<Rightarrow> GroupMemberUpdateAction \<Rightarrow> SimpleGroupMemberInfo list \<Rightarrow> string" where
  "sys_text gm action members = gm_dump gm (GroupSysMsgBody_to_json (gm_roleNo gm) \<lparr>sm_action = action, sm_members = members\<rparr>)"

abbreviation member_info :: "string \<Rightarrow> string \<Rightarrow> Role \<Rightarrow> SimpleGroupMemberInfo" where
  "member_info uid nick role \<equiv> \<lparr>si_uid = uid, si_nick = nick, si_role = role\<rparr>"

text \<open>The requested members that are in the group, as the database gave them.\<close>

definition to_kick :: "GroupUser list \<Rightarrow> string list \<Rightarrow> GroupUser list" where
  "to_kick users members = List.map_filter (\<lambda>m. map_of (map (\<lambda>u. (gu_uid u, u)) (rev users)) m) members"

definition members_after :: "u32 \<Rightarrow> nat \<Rightarrow> u32" where
  "members_after cnt n = (if n \<le> unat cnt then cnt - word_of_nat n else 0)"

definition onKickGroupMemberV3 :: "'s GroupManager \<Rightarrow> Account \<Rightarrow> KickGroupMemberBody \<Rightarrow> ('s, answer) state" where
  "onKickGroupMemberV3 gm account body =
     (let gid = kb_gid body
      in if \<not> KickGroupMemberBody_check (a_uid account) body then reply 400
         else do {
           (getGroupRet, gr) \<leftarrow> gm_groups_get gm gid;
           if getGroupRet \<noteq> Dao_Success then reply 500
           else if g_version gr \<noteq> GroupV3 then reply 400
           else do {
             (counterRet, counter) \<leftarrow> gm_users_memberInfo gm gid;
             if counterRet \<noteq> Dao_Success then reply 500
             else do {
               (roleRet, role) \<leftarrow> gm_users_getMemberRole gm gid (a_uid account);
               if roleRet \<noteq> Dao_Success then reply 500
               else if role \<noteq> ROLE_OWNER then reply 400
               else do {
                 (queryRet, users) \<leftarrow> gm_users_getMemberBatch gm gid (kb_members body);
                 if queryRet \<noteq> Dao_Success then reply 500
                 else do {
                   let kicked = to_kick users (kb_members body);
                   kickRet \<leftarrow> gm_users_delMemberBatch gm gid (map gu_uid kicked);
                   if kickRet \<noteq> Dao_Success then reply 500
                   else do {
                     pubGroupSystemMessage gm (a_uid account) gid GROUP_MEMBER_UPDATE
                       (sys_text gm QUIT_GROUP (map (\<lambda>u. member_info (gu_uid u) (gu_uid u) (gu_role u)) kicked));
                     for_each (map gu_uid kicked) (\<lambda>m. publishGroupUserEvent gm gid m INTERNAL_USER_QUIT_GROUP);
                     sendGroupKeysUpdateRequestWhenMemberChanges gm (a_uid account) gid
                       (members_after (gc_memberCnt counter) (length (kb_members body)));
                     reply 204 } } } } } })"

definition onLeaveGroupV3 :: "'s GroupManager \<Rightarrow> Account \<Rightarrow> LeaveGroupBody \<Rightarrow> ('s, answer) state" where
  "onLeaveGroupV3 gm account body =
     (let gid = lb_gid body; nextOwner = lb_nextOwner body
      in if \<not> LeaveGroupBody_check body then reply 400
         else do {
           (getGroupRet, gr) \<leftarrow> gm_groups_get gm gid;
           if getGroupRet \<noteq> Dao_Success then reply 500
           else if g_version gr \<noteq> GroupV3 then reply 400
           else do {
             (roleRet, counter, role, nextOwnerRole) \<leftarrow> gm_users_memberInfo2 gm gid (a_uid account) nextOwner;
             if roleRet \<noteq> Dao_Success then reply 500
             else if role \<noteq> ROLE_OWNER \<and> role \<noteq> ROLE_MEMBER then reply 400
             else if gc_memberCnt counter = 0 then reply 400
             else
               let needNextOwner = (role = ROLE_OWNER \<and> 1 < gc_memberCnt counter)
               in if needNextOwner
                     \<and> (nextOwner = [] \<or> nextOwner = a_uid account \<or> (nextOwnerRole \<noteq> ROLE_OWNER \<and> nextOwnerRole \<noteq> ROLE_MEMBER))
                  then reply 400
                  else do {
                    upRet \<leftarrow> (if needNextOwner then gm_users_updateRole gm gid nextOwner ROLE_OWNER else State_Monad.return Dao_Success);
                    if upRet \<noteq> Dao_Success then reply 500
                    else do {
                      delRet \<leftarrow> gm_users_delMember gm gid (a_uid account);
                      if delRet \<noteq> Dao_Success then reply 500
                      else do {
                        (if needNextOwner then do {
                           pubGroupSystemMessage gm (a_uid account) gid GROUP_MEMBER_UPDATE
                             (sys_text gm UPDATE_INFO [member_info nextOwner nextOwner ROLE_OWNER]);
                           publishGroupUserEvent gm gid nextOwner INTERNAL_USER_CHANGE_ROLE }
                         else State_Monad.return False);
                        pubGroupSystemMessage gm (a_uid account) gid GROUP_MEMBER_UPDATE
                          (sys_text gm QUIT_GROUP [member_info (a_uid account) [] ROLE_UNDEFINE]);
                        publishGroupUserEvent gm gid (a_uid account) INTERNAL_USER_QUIT_GROUP;
                        sendGroupKeysUpdateRequestWhenMemberChanges gm (a_uid account) gid (members_after (gc_memberCnt counter) 1);
                        reply 204 } } } } })"

text \<open>A new user of a group, with the fields all handlers set.\<close>

definition new_user :: "'s GroupManager \<Rightarrow> u64 \<Rightarrow> string \<Rightarrow> Role \<Rightarrow> u64 \<Rightarrow> u64 \<Rightarrow> string \<Rightarrow> string \<Rightarrow> GroupUser" where
  "new_user gm gid uid role lastMid now secret prf =
     GroupUser_new\<lparr>gu_uid := uid, gu_nick := uid, gu_role := role, gu_gid := gid, gu_lastAckMid := lastMid,
       gu_status := gm_statusDefault gm, gu_updateTime := now, gu_createTime := now, gu_groupInfoSecret := secret, gu_proof := prf\<rparr>"

definition create_users :: "'s GroupManager \<Rightarrow> Account \<Rightarrow> CreateGroupBodyV3 \<Rightarrow> u64 \<Rightarrow> u64 \<Rightarrow> GroupUser list" where
  "create_users gm account body gid createTime =
     map (\<lambda>i. new_user gm gid (cg_members body ! i) ROLE_MEMBER 0 createTime
                (cg_membersGroupInfoSecrets body ! i) (cg_memberProofs body ! i)) [0..<length (cg_members body)]
     @ [(new_user gm gid (a_uid account) ROLE_OWNER 0 createTime (cg_ownerSecretKey body) (cg_ownerProof body))
          \<lparr>gu_nickname := cg_ownerNickname body, gu_profileKeys := cg_ownerProfileKeys body\<rparr>]"

definition create_group_data :: "'s GroupManager \<Rightarrow> CreateGroupBodyV3 \<Rightarrow> u64 \<Rightarrow> Group" where
  "create_group_data gm body createTime =
     Group_new\<lparr>g_name := cg_name body, g_icon := cg_icon body, g_permission := 0, g_updateTime := createTime,
       g_broadcast := cg_broadcast body, g_status := 1, g_channel := [], g_intro := cg_intro body, g_encryptStatus := gm_encryptOn gm,
       g_createTime := createTime, g_shareQrCodeSetting := cg_qrCodeSetting body, g_shareSignature := cg_shareSignature body,
       g_ownerConfirm := cg_ownerConfirm body, g_shareAndOwnerConfirmSignature := cg_shareAndOwnerConfirmSignature body,
       g_encryptedGroupInfoSecret := cg_encryptedGroupInfoSecret body, g_version := GroupV3,
       g_encryptedEphemeralKey := cg_encryptedEphemeralKey body\<rparr>"

text \<open>Whether the settings of a group are all there and signed by its owner.\<close>

definition setting_present :: "Group \<Rightarrow> bool" where
  "setting_present gr \<longleftrightarrow> g_shareQrCodeSetting gr \<noteq> [] \<and> g_shareSignature gr \<noteq> [] \<and> g_shareAndOwnerConfirmSignature gr \<noteq> []"

definition setting_verified :: "'s GroupManager \<Rightarrow> Group \<Rightarrow> string \<Rightarrow> bool" where
  "setting_verified gm gr publicKey =
     verifyGroupSetting gm (g_shareQrCodeSetting gr) (g_shareSignature gr) (g_ownerConfirm gr) (g_shareAndOwnerConfirmSignature gr) publicKey"

definition create_store ::
    "'s GroupManager \<Rightarrow> Account \<Rightarrow> CreateGroupBodyV3 \<Rightarrow> u64 \<Rightarrow> ('s, answer) state" where
  "create_store gm account body createTime = do {
     (createGroupRet, gid) \<leftarrow> gm_groups_create gm (create_group_data gm body createTime);
     if createGroupRet \<noteq> Dao_Success then reply 500
     else do {
       insertGroupKeysRet \<leftarrow> gm_keys_insert gm \<lparr>gk_gid = gid, gk_version = 0,
         gk_groupKeys = gm_dump gm (GroupKeysJson_to_json (cg_groupKeys body)), gk_mode = cg_groupKeysMode body,
         gk_creator = a_uid account, gk_createTime = createTime\<rparr>;
       if insertGroupKeysRet \<noteq> Dao_Success then do { gm_groups_del gm gid; reply 500 }
       else do {
         let users = create_users gm account body gid createTime;
         insertMembersRet \<leftarrow> gm_users_insertBatch gm users;
         if insertMembersRet \<noteq> Dao_Success then do { gm_groups_del gm gid; gm_keys_clear gm gid; reply 500 }
         else do {
           for_each users (\<lambda>m. publishGroupUserEvent gm gid (gu_uid m) INTERNAL_USER_ENTER_GROUP);
           pubGroupSystemMessage gm (a_uid account) gid (gm_typeMemberUpdate gm)
             (sys_text gm ENTER_GROUP (map (\<lambda>m. member_info (gu_uid m) (gu_nick m) (gu_role m)) (filter (\<lambda>m. gu_uid m \<noteq> a_uid account) users)));
           sendSwitchGroupKeysWithRetry gm (a_uid account) gid 0;
           reply_with 200 (CreatedGroup gid) } } } }"

definition onCreateGroupV3 :: "'s GroupManager \<Rightarrow> Account \<Rightarrow> CreateGroupBodyV3 \<Rightarrow> ('s, answer) state" where
  "onCreateGroupV3 gm account body =
     (case group_must_upgrade gm account of
        Inl e \<Rightarrow> raise e
      | Inr upgrade \<Rightarrow>
          if upgrade then reply 461
          else do {
            limited \<leftarrow> gm_acquireAccess gm CreationLimiter (a_uid account);
            if limited then reply 460
            else if \<not> CreateGroupBodyV3_check (gm_broadcastOff gm) (gm_oneForEach gm) body then reply 400
            else do {
              r \<leftarrow> checkBidirectionalRelationship gm account (cg_members body);
              case r of
                Some (Inl e) \<Rightarrow> raise e
              | Some (Inr status) \<Rightarrow> reply status
              | None \<Rightarrow> do {
                  createTime \<leftarrow> gm_now gm;
                  let gr = create_group_data gm body createTime;
                  if \<not> setting_present gr then reply 400
                  else if \<not> setting_verified gm gr (a_publicKey account) then reply 400
                  else create_store gm account body createTime } } })"

definition getMemberJoinLimiterId :: "u64 \<Rightarrow> string \<Rightarrow> string" where
  "getMemberJoinLimiterId gid uid = to_dec (unat gid) @ ''_'' @ uid"

text \<open>The common start of the requests that end in a new member: the group, or the answer.\<close>

definition join_group :: "'s GroupManager \<Rightarrow> u64 \<Rightarrow> ('s, nat + Group) state" where
  "join_group gm gid = do {
     (ec, gr) \<leftarrow> gm_groups_get gm gid;
     if ec = Dao_NoSuchData then State_Monad.return (Inl 400)
     else if ec \<noteq> Dao_Success then State_Monad.return (Inl 500)
     else if \<not> checkGroupVersion gr GroupV3 then State_Monad.return (Inl 400)
     else State_Monad.return (Inr gr) }"

definition join_answer :: "Group \<Rightarrow> bool \<Rightarrow> GroupEntity" where
  "join_answer gr ownerConfirm =
     JoinAnswer \<lparr>jr_ownerConfirm = ownerConfirm, jr_encryptedGroupInfoSecret = g_encryptedGroupInfoSecret gr\<rparr>"

text \<open>The entity of the answer that waits for the owner is not initialized in the source
  (\<open>ownerConfirm\<close> has no initial value); it is the argument \<open>garbage\<close>.\<close>

definition onGroupJoinRequstV3 :: "'s GroupManager \<Rightarrow> bool \<Rightarrow> Account \<Rightarrow> GroupJoinRequestV3 \<Rightarrow> ('s, answer) state" where
  "onGroupJoinRequstV3 gm garbage account req =
     (if \<not> GroupJoinRequestV3_check req then reply 400
      else do {
        limited \<leftarrow> gm_limited gm MemberJoinLimiter (getMemberJoinLimiterId (gj_gid req) (a_uid account));
        if limited then reply 460
        else do {
          g \<leftarrow> join_group gm (gj_gid req);
          case g of
            Inl status \<Rightarrow> reply status
          | Inr gr \<Rightarrow> do {
              (ec, user) \<leftarrow> gm_users_getMember gm (gj_gid req) (a_uid account);
              if ec = Dao_Success then reply_with 200 (join_answer gr (g_ownerConfirm gr \<noteq> 0))
              else do {
                o' \<leftarrow> getGroupOwner gm (g_gid gr);
                case o' of
                  None \<Rightarrow> reply 500
                | Some owner \<Rightarrow>
                    if \<not> setting_present gr then reply 400
                    else if \<not> setting_verified gm gr (a_publicKey owner) then reply 400
                    else if gj_qrCodeToken req \<noteq> g_shareSignature gr then reply 400
                    else if \<not> verifySignature gm (a_publicKey account) (gm_decode gm (gj_qrCode req) @ gm_decode gm (gj_qrCodeToken req)) (gj_signature req)
                    then reply 400
                    else if g_ownerConfirm gr = 0 then do {
                      ec \<leftarrow> gm_qr_set gm (gj_gid req) (a_uid account) kQrCodeGroupUserTtl;
                      if ec \<noteq> Dao_Success then reply 500 else reply_with 200 (join_answer gr False) }
                    else do {
                      ec \<leftarrow> gm_pending_set gm \<lparr>pu_gid = gj_gid req, pu_uid = a_uid account, pu_inviter = [],
                        pu_signature = gj_signature req, pu_comment = gj_comment req\<rparr>;
                      if ec \<noteq> Dao_Success then reply 500
                      else do {
                        pubReviewJoinRequestToOwner gm (gj_gid req) (a_uid owner);
                        reply_with 200 (JoinAnswer \<lparr>jr_ownerConfirm = garbage, jr_encryptedGroupInfoSecret = []\<rparr>) } } } } } })"

definition onAddMeRequstV3 :: "'s GroupManager \<Rightarrow> Account \<Rightarrow> AddMeRequestV3 \<Rightarrow> ('s, answer) state" where
  "onAddMeRequstV3 gm account req =
     (if \<not> AddMeRequestV3_check req then reply 400
      else do {
        limited \<leftarrow> gm_acquireAccess gm MemberJoinLimiter (getMemberJoinLimiterId (am_gid req) (a_uid account));
        if limited then reply 460
        else do {
          (ec, gr) \<leftarrow> gm_groups_get gm (am_gid req);
          if ec \<noteq> Dao_Success then reply 400
          else if \<not> checkGroupVersion gr GroupV3 then reply 400
          else do {
            (ec, user) \<leftarrow> gm_users_getMember gm (am_gid req) (a_uid account);
            if ec = Dao_Success then reply 200
            else do {
              ec \<leftarrow> gm_qr_get gm (am_gid req) (a_uid account);
              if ec \<noteq> Dao_Success then reply 400
              else do {
                (ec, counter) \<leftarrow> gm_users_memberInfo gm (am_gid req);
                if ec \<noteq> Dao_Success then reply 500
                else do {
                  now \<leftarrow> gm_now gm;
                  let user = new_user gm (am_gid req) (a_uid account) ROLE_MEMBER (g_lastMid gr) now (am_groupInfoSecret req) (am_proof req);
                  ec \<leftarrow> gm_users_insert gm user;
                  if ec \<noteq> Dao_Success then reply 500
                  else do {
                    publishGroupUserEvent gm (am_gid req) (a_uid account) INTERNAL_USER_ENTER_GROUP;
                    pubGroupSystemMessage gm (a_uid account) (am_gid req) GROUP_MEMBER_UPDATE
                      (sys_text gm ENTER_GROUP [member_info (gu_uid user) (gu_nick user) (gu_role user)]);
                    sendGroupKeysUpdateRequestWhenMemberChanges gm (a_uid account) (am_gid req) (gc_memberCnt counter + 1);
                    reply 200 } } } } } } })"

text \<open>The signatures of an invitation that the owner has to confirm: an exception, or whether all are
  good.\<close>

fun signatures_ok :: "'s GroupManager \<Rightarrow> string \<Rightarrow> string list \<Rightarrow> cpp_error + bool" where
  "signatures_ok gm publicKey [] = Inr True"
| "signatures_ok gm publicKey (item # items) =
     (case do { j \<leftarrow> gm_parse gm (gm_decode gm item); d \<leftarrow> jfind j ''data''; d \<leftarrow> get_string d;
                s \<leftarrow> jfind j ''sig''; s \<leftarrow> get_string s; Some (d, s) } of
        None \<Rightarrow> Inl ThrowStd
      | Some (d, s) \<Rightarrow>
          if \<not> verifySignature gm publicKey (gm_decode gm d) s then Inr False else signatures_ok gm publicKey items)"

text \<open>Inviting when the owner confirms: every user not yet in the group goes to the pending list.\<close>

fun pending_loop ::
    "'s GroupManager \<Rightarrow> Account \<Rightarrow> u64 \<Rightarrow> (string \<times> Role) list \<Rightarrow> (string \<times> string) list \<Rightarrow> SimpleGroupMemberInfo list
      \<Rightarrow> ('s, SimpleGroupMemberInfo list option) state" where
  "pending_loop gm account gid roleMap [] success = State_Monad.return (Some success)"
| "pending_loop gm account gid roleMap ((uid, signature) # ms) success =
     (if map_of roleMap uid \<noteq> None \<and> map_of roleMap uid \<noteq> Some ROLE_UNDEFINE then pending_loop gm account gid roleMap ms success
      else do {
        ret \<leftarrow> gm_pending_set gm \<lparr>pu_gid = gid, pu_uid = uid, pu_inviter = a_uid account, pu_signature = signature, pu_comment = []\<rparr>;
        if ret \<noteq> Dao_Success then State_Monad.return None
        else pending_loop gm account gid roleMap ms (success @ [member_info uid uid ROLE_MEMBER]) })"

text \<open>Whether an invited user can be put in the group: it is in the role map, as a user without a role or
  with one below a member's.\<close>

definition invitable :: "'s GroupManager \<Rightarrow> (string \<times> Role) list \<Rightarrow> string \<Rightarrow> bool" where
  "invitable gm roleMap uid =
     (case map_of roleMap uid of
        None \<Rightarrow> False
      | Some r \<Rightarrow> \<not> (r \<noteq> ROLE_UNDEFINE \<and> gm_roleNo gm r \<le> gm_roleNo gm ROLE_MEMBER))"

definition invite_users ::
    "'s GroupManager \<Rightarrow> InviteGroupMemberRequestV3 \<Rightarrow> Group \<Rightarrow> (string \<times> Role) list \<Rightarrow> u64 \<Rightarrow> GroupUser list" where
  "invite_users gm req gr roleMap createTime =
     map (\<lambda>i. new_user gm (iv_gid req) (iv_members req ! i) ROLE_MEMBER (g_lastMid gr) createTime
                (iv_memberGroupInfoSecrets req ! i) (iv_memberProofs req ! i))
       (filter (\<lambda>i. invitable gm roleMap (iv_members req ! i)) [0..<length (iv_members req)])"

definition invite_direct ::
    "'s GroupManager \<Rightarrow> Account \<Rightarrow> InviteGroupMemberRequestV3 \<Rightarrow> Group \<Rightarrow> (string \<times> Role) list \<Rightarrow> u64 \<Rightarrow> ('s, answer) state" where
  "invite_direct gm account req gr roleMap createTime =
     (let users = invite_users gm req gr roleMap createTime;
          failedMembers = filter (\<lambda>m. \<not> invitable gm roleMap m) (iv_members req)
      in if users = [] then reply_with 200 (InviteAnswer \<lparr>ir_successMembers = [], ir_failedMembers = failedMembers\<rparr>)
         else do {
           (ec, counter) \<leftarrow> gm_users_memberInfo gm (iv_gid req);
           if ec \<noteq> Dao_Success then reply 500
           else do {
             insertRet \<leftarrow> gm_users_insertBatch gm users;
             if insertRet \<noteq> Dao_Success then reply 500
             else do {
               for_each users (\<lambda>m. publishGroupUserEvent gm (iv_gid req) (gu_uid m) INTERNAL_USER_ENTER_GROUP);
               let success = map (\<lambda>m. member_info (gu_uid m) (gu_uid m) (gu_role m)) users;
               pubGroupSystemMessage gm (a_uid account) (iv_gid req) GROUP_MEMBER_UPDATE (sys_text gm ENTER_GROUP success);
               sendGroupKeysUpdateRequestWhenMemberChanges gm (a_uid account) (iv_gid req)
                 (gc_memberCnt counter + word_of_nat (length users));
               reply_with 200 (InviteAnswer \<lparr>ir_successMembers = success, ir_failedMembers = failedMembers\<rparr>) } } })"

definition invite_checked ::
    "'s GroupManager \<Rightarrow> Account \<Rightarrow> InviteGroupMemberRequestV3 \<Rightarrow> ('s, answer) state" where
  "invite_checked gm account req = do {
     (queryRet, gr) \<leftarrow> gm_groups_get gm (iv_gid req);
     if queryRet \<noteq> Dao_Success then reply (if queryRet = Dao_NoSuchData then 404 else 500)
     else if \<not> checkGroupVersion gr GroupV3 then reply 400
     else do {
       (ec, ownerUid) \<leftarrow> gm_users_getGroupOwner gm (iv_gid req);
       if ec \<noteq> Dao_Success then reply 500
       else
         let confirm = (g_ownerConfirm gr \<noteq> 0 \<and> ownerUid \<noteq> a_uid account);
             good = (if confirm then
                       if length (iv_members req) \<noteq> length (iv_signatureInfos req) then Inr False
                       else signatures_ok gm (a_publicKey account) (iv_signatureInfos req)
                     else Inr (length (iv_members req) = length (iv_memberProofs req)
                               \<and> length (iv_members req) = length (iv_memberGroupInfoSecrets req)))
         in case good of
              Inl e \<Rightarrow> raise e
            | Inr ok \<Rightarrow>
                if \<not> ok then reply 400
                else do {
                  createTime \<leftarrow> gm_now gm;
                  (ec, roleMap) \<leftarrow> gm_users_getMemberRoles gm (iv_gid req) (undefined_roles (iv_members req));
                  if ec \<noteq> Dao_Success \<and> ec \<noteq> Dao_NoSuchData then reply 500
                  else if confirm then do {
                    r \<leftarrow> pending_loop gm account (iv_gid req) roleMap (zip (iv_members req) (iv_signatureInfos req)) [];
                    case r of
                      None \<Rightarrow> reply 500
                    | Some success \<Rightarrow> do {
                        pubReviewJoinRequestToOwner gm (g_gid gr) ownerUid;
                        reply_with 200 (InviteAnswer \<lparr>ir_successMembers = success, ir_failedMembers = []\<rparr>) } }
                  else invite_direct gm account req gr roleMap createTime } } }"

definition onInviteGroupMemberV3 :: "'s GroupManager \<Rightarrow> Account \<Rightarrow> InviteGroupMemberRequestV3 \<Rightarrow> ('s, answer) state" where
  "onInviteGroupMemberV3 gm account req =
     (case group_must_upgrade gm account of
        Inl e \<Rightarrow> raise e
      | Inr upgrade \<Rightarrow>
          if upgrade then reply 461
          else if \<not> InviteGroupMemberRequestV3_check req then reply 400
          else do {
            limit \<leftarrow> for_until (iv_members req) (\<lambda>item. do {
              limited \<leftarrow> gm_acquireAccess gm MemberJoinLimiter (getMemberJoinLimiterId (iv_gid req) item);
              State_Monad.return (if limited then Some () else None) });
            case limit of
              Some _ \<Rightarrow> reply 460
            | None \<Rightarrow>
                if a_uid account \<noteq> ''bcm_backend_manager'' then do {
                  (roleRet, role) \<leftarrow> gm_users_getMemberRole gm (iv_gid req) (a_uid account);
                  if roleRet \<noteq> Dao_Success then reply (if roleRet = Dao_NoSuchData then 404 else 500)
                  else if role \<noteq> ROLE_OWNER \<and> role \<noteq> ROLE_MEMBER \<and> role \<noteq> ROLE_ADMINISTROR then reply 403
                  else do {
                    r \<leftarrow> checkBidirectionalRelationshipBypassSubscribers gm account (iv_gid req) (iv_members req);
                    case r of
                      Some (Inl e) \<Rightarrow> raise e
                    | Some (Inr status) \<Rightarrow> reply status
                    | None \<Rightarrow> invite_checked gm account req } }
                else invite_checked gm account req })"

text \<open>The new users of a review, by who invited them.\<close>

definition invitees :: "ReviewJoinResultV3 list \<Rightarrow> (string \<times> string list) list" where
  "invitees items =
     fold (\<lambda>it m. sm_put (rj_inviter it) (set_of (rj_uid it # (case map_of m (rj_inviter it) of None \<Rightarrow> [] | Some us \<Rightarrow> us))) m) items []"

definition review_insert ::
    "'s GroupManager \<Rightarrow> Account \<Rightarrow> u64 \<Rightarrow> Group \<Rightarrow> u64 \<Rightarrow> ReviewJoinResultV3 list \<Rightarrow> ('s, nat option) state" where
  "review_insert gm account gid gr nowMs items =
     (if items = [] then State_Monad.return None
      else do {
        (ec, counter) \<leftarrow> gm_users_memberInfo gm gid;
        if ec \<noteq> Dao_Success then State_Monad.return (Some 500)
        else do {
          ec \<leftarrow> gm_users_insertBatch gm
            (map (\<lambda>it. new_user gm gid (rj_uid it) ROLE_MEMBER (g_lastMid gr) nowMs (rj_groupInfoSecret it) (rj_proof it)) items);
          if ec \<noteq> Dao_Success then State_Monad.return (Some 500)
          else do {
            for_each (invitees items) (\<lambda>it. do {
              for_each (snd it) (\<lambda>uid. publishGroupUserEvent gm gid uid INTERNAL_USER_ENTER_GROUP);
              pubGroupSystemMessage gm (fst it) gid GROUP_MEMBER_UPDATE
                (sys_text gm ENTER_GROUP (map (\<lambda>uid. member_info uid uid ROLE_MEMBER) (snd it))) });
            sendGroupKeysUpdateRequestWhenMemberChanges gm (a_uid account) gid (gc_memberCnt counter + word_of_nat (length items));
            State_Monad.return None } } })"

definition onReviewJoinRequestV3 :: "'s GroupManager \<Rightarrow> Account \<Rightarrow> ReviewJoinResultRequestV3 \<Rightarrow> ('s, answer) state" where
  "onReviewJoinRequestV3 gm account req =
     (if \<not> ReviewJoinResultRequestV3_check req then reply 400
      else do {
        (ec, ownerUid) \<leftarrow> gm_users_getGroupOwner gm (rv_gid req);
        if ec \<noteq> Dao_Success then reply 500
        else if ownerUid \<noteq> a_uid account then reply 400
        else do {
          (ec, gr) \<leftarrow> gm_groups_get gm (rv_gid req);
          if ec \<noteq> Dao_Success then reply 500
          else if \<not> checkGroupVersion gr GroupV3 then reply 400
          else if \<not> setting_verified gm gr (a_publicKey account) then reply 500
          else do {
            let acceptedList = filter rj_accepted (rv_list req);
            let uids = map rj_uid acceptedList;
            (ec, users) \<leftarrow> (if uids \<noteq> [] then gm_users_getMemberBatch gm (rv_gid req) uids else State_Monad.return (Dao_Success, []));
            if ec \<noteq> Dao_Success \<and> ec \<noteq> Dao_NoSuchData then reply 500
            else do {
              let existedUsers = map gu_uid users;
              nowMs \<leftarrow> gm_now gm;
              r \<leftarrow> review_insert gm account (rv_gid req) gr nowMs (filter (\<lambda>it. rj_uid it \<notin> set existedUsers) acceptedList);
              case r of
                Some status \<Rightarrow> reply status
              | None \<Rightarrow> do {
                  let delUsers = set_of (map rj_uid (rv_list req));
                  (if delUsers \<noteq> [] then gm_pending_del gm (rv_gid req) delUsers else State_Monad.return Dao_Success);
                  reply 200 } } } } })"

text \<open>What the members are told about the changed group.\<close>

definition group_info_text :: "'s GroupManager \<Rightarrow> Group \<Rightarrow> string \<Rightarrow> string" where
  "group_info_text gm gr uid =
     gm_dump gm (jerase ''encrypted_notice'' (jerase ''status'' (jerase ''gid'' (jerase ''permission''
       (jset ''owner'' (JString uid) (Group_to_json (gm_parse gm) gr))))))"

text \<open>The settings after the update, for the check of their signatures.\<close>

definition updated_setting_ok :: "'s GroupManager \<Rightarrow> Account \<Rightarrow> UpdateGroupInfoBodyV3 \<Rightarrow> Group \<Rightarrow> bool" where
  "updated_setting_ok gm account body g =
     verifyGroupSetting gm
       (if ui_qrCodeSetting body \<noteq> [] then ui_qrCodeSetting body else g_shareQrCodeSetting g)
       (if ui_shareSignature body \<noteq> [] then ui_shareSignature body else g_shareSignature g)
       (if ui_ownerConfirm body \<noteq> -1 then ui_ownerConfirm body else g_ownerConfirm g)
       (if ui_shareAndOwnerConfirmSignature body \<noteq> [] then ui_shareAndOwnerConfirmSignature body else g_shareAndOwnerConfirmSignature g)
       (a_publicKey account)"

definition onUpdateGroupInfoV3 :: "'s GroupManager \<Rightarrow> Account \<Rightarrow> UpdateGroupInfoBodyV3 \<Rightarrow> ('s, answer) state" where
  "onUpdateGroupInfoV3 gm account body =
     (let gid = ui_gid body
      in if \<not> UpdateGroupInfoBodyV3_check (gm_broadcastOff gm) (gm_broadcastValid gm) body then reply 400
         else do {
           (roleRet, role) \<leftarrow> gm_users_getMemberRole gm gid (a_uid account);
           if roleRet \<noteq> Dao_Success then reply (if roleRet = Dao_NoSuchData then 404 else 500)
           else if role \<noteq> ROLE_OWNER then reply 403
           else do {
             refused \<leftarrow> (if ui_qrCodeSetting body \<noteq> [] \<or> ui_ownerConfirm body \<noteq> -1 then do {
                            (rc, g) \<leftarrow> gm_groups_get gm gid;
                            if rc \<noteq> Dao_Success then State_Monad.return (Some 500)
                            else State_Monad.return (if \<not> updated_setting_ok gm account body g then Some 400 else None) }
                          else State_Monad.return None);
             case refused of
               Some status \<Rightarrow> reply status
             | None \<Rightarrow> do {
                 now \<leftarrow> gm_now gm;
                 upRet \<leftarrow> gm_groups_update gm gid (UpdateGroupInfoBodyV3_to_json (body\<lparr>ui_updateTime := now\<rparr>));
                 if upRet \<noteq> Dao_Success then reply 403
                 else do {
                   (if ui_qrCodeSetting body \<noteq> [] then gm_pending_clear gm gid else State_Monad.return Dao_Success);
                   (queryRet, gr) \<leftarrow> gm_groups_get gm gid;
                   if queryRet \<noteq> Dao_Success then reply_with 200 GroupResponse_ok
                   else do {
                     pubGroupSystemMessage gm (a_uid account) gid GROUP_INFO_UPDATE (group_info_text gm gr (a_uid account));
                     reply_with 200 GroupResponse_ok } } } } })"

definition member_answer :: "'s GroupManager \<Rightarrow> GroupUser \<Rightarrow> GroupMember" where
  "member_answer gm u = \<lparr>me_uid = gu_uid u, me_nick = gu_nick u, me_nickname = gu_nickname u, me_groupNickname = gu_groupNickname u,
     me_profileKeys = gu_profileKeys u, me_role = gm_roleNo gm (gu_role u), me_createTime = gu_createTime u, me_proof = gu_proof u\<rparr>"

definition onQueryMembersV3 :: "'s GroupManager \<Rightarrow> Account \<Rightarrow> QueryMembersRequestV3 \<Rightarrow> ('s, answer) state" where
  "onQueryMembersV3 gm account req =
     (if \<not> QueryMembersRequestV3_check req then reply 400
      else do {
        (ec, user) \<leftarrow> gm_users_getMember gm (qm_gid req) (a_uid account);
        if ec = Dao_NoSuchData then reply 400
        else if ec \<noteq> Dao_Success then reply 500
        else do {
          (ec, members) \<leftarrow> gm_users_getMemberBatch gm (qm_gid req) (qm_uids req);
          if ec \<noteq> Dao_NoSuchData \<and> ec \<noteq> Dao_Success then reply 500
          else reply_with 200 (MembersAnswer (map (member_answer gm) members)) } })"

section \<open>All requests\<close>

datatype group_request =
    UploadGroupKeys UploadGroupKeysRequest
  | FetchLatestGroupKeys FetchLatestGroupKeysRequest
  | FetchGroupKeys FetchGroupKeysRequest
  | FireGroupKeysUpdate FireGroupKeysUpdateRequest
  | Kick KickGroupMemberBody
  | Leave LeaveGroupBody
  | Create CreateGroupBodyV3
  | DhKeys DhKeysRequest
  | PrepareKeyUpdate PrepareKeyUpdateRequestV3
  | GroupJoin bool GroupJoinRequestV3
  | AddMe AddMeRequestV3
  | Invite InviteGroupMemberRequestV3
  | ReviewJoin ReviewJoinResultRequestV3
  | UpdateGroupInfo UpdateGroupInfoBodyV3
  | QueryMembers QueryMembersRequestV3

text \<open>The handler of each route (\<open>addRoutes\<close>).\<close>

fun handle :: "'s GroupManager \<Rightarrow> Account \<Rightarrow> group_request \<Rightarrow> ('s, answer option) state" where
  "handle gm account (UploadGroupKeys b) = map_state Some (onUploadGroupKeysV3 gm account b)"
| "handle gm account (FetchLatestGroupKeys b) = map_state Some (onFetchLatestGroupKeysV3 gm account b)"
| "handle gm account (FetchGroupKeys b) = map_state Some (onFetchGroupKeysV3 gm account b)"
| "handle gm account (FireGroupKeysUpdate b) = map_state Some (fireGroupKeysUpdateV3 gm account b)"
| "handle gm account (Kick b) = map_state Some (onKickGroupMemberV3 gm account b)"
| "handle gm account (Leave b) = map_state Some (onLeaveGroupV3 gm account b)"
| "handle gm account (Create b) = map_state Some (onCreateGroupV3 gm account b)"
| "handle gm account (DhKeys b) = map_state Some (onDhKeysV3 gm account b)"
| "handle gm account (PrepareKeyUpdate b) = onPrepareKeyUpdateV3 gm account b"
| "handle gm account (GroupJoin garbage b) = map_state Some (onGroupJoinRequstV3 gm garbage account b)"
| "handle gm account (AddMe b) = map_state Some (onAddMeRequstV3 gm account b)"
| "handle gm account (Invite b) = map_state Some (onInviteGroupMemberV3 gm account b)"
| "handle gm account (ReviewJoin b) = map_state Some (onReviewJoinRequestV3 gm account b)"
| "handle gm account (UpdateGroupInfo b) = map_state Some (onUpdateGroupInfoV3 gm account b)"
| "handle gm account (QueryMembers b) = map_state Some (onQueryMembersV3 gm account b)"


end
