(* ===== verification/Group_Members.thy ===== *)
theory Group_Members
  imports Group_Manager
begin

text \<open>
  What the requests on groups do to the table of members. The abstract specification is a step relation on
  tables (\<open>member_step\<close>): a group is created, a member leaves or hands the group over, the owner
  removes members, a user joins, members bring in others. The handlers of version 3 are shown to refine it, whatever
  calls of the database fail; \<open>Group_Members_V2\<close> does the same for the older versions. \<open>member_store\<close>
  states what the database does with the table.
\<close>

section \<open>The table and its steps\<close>

type_synonym member_table = "u64 \<Rightarrow> string \<Rightarrow> Role option"

text \<open>The members that count: all but subscribers.\<close>

definition counted :: "Role set" where
  "counted = {ROLE_OWNER, ROLE_ADMINISTROR, ROLE_MEMBER}"

definition members_of :: "member_table \<Rightarrow> u64 \<Rightarrow> string set" where
  "members_of t gid = {u. \<exists>r \<in> counted. t gid u = Some r}"

definition put_user :: "GroupUser \<Rightarrow> member_table \<Rightarrow> member_table" where
  "put_user u t = t(gu_gid u := (t (gu_gid u))(gu_uid u \<mapsto> gu_role u))"

inductive member_step :: "string \<Rightarrow> u64 option \<Rightarrow> member_table \<Rightarrow> member_table \<Rightarrow> bool" for uid jn where
  stay: "member_step uid jn t t"
| create: "t gid = Map.empty \<Longrightarrow> m uid = Some ROLE_OWNER \<Longrightarrow> \<forall>u. u \<noteq> uid \<longrightarrow> m u = None \<or> m u = Some ROLE_MEMBER
    \<Longrightarrow> member_step uid jn t (t(gid := m))"
| kick: "t gid uid = Some ROLE_OWNER \<Longrightarrow> uid \<notin> K \<Longrightarrow> member_step uid jn t (t(gid := t gid |` (- K)))"
| leave: "t gid uid = Some r \<Longrightarrow> r = ROLE_OWNER \<longrightarrow> members_of t gid = {uid} \<Longrightarrow> member_step uid jn t (t(gid := (t gid)(uid := None)))"
| hand_over: "t gid uid = Some ROLE_OWNER \<Longrightarrow> n \<noteq> uid \<Longrightarrow> t gid n \<in> {Some ROLE_OWNER, Some ROLE_MEMBER}
    \<Longrightarrow> member_step uid jn t (t(gid := (t gid)(n \<mapsto> ROLE_OWNER)))"
| hand_over_leave: "t gid uid = Some ROLE_OWNER \<Longrightarrow> n \<noteq> uid \<Longrightarrow> t gid n \<in> {Some ROLE_OWNER, Some ROLE_MEMBER}
    \<Longrightarrow> member_step uid jn t (t(gid := (t gid)(n \<mapsto> ROLE_OWNER, uid := None)))"
| join: "jn = Some gid \<or> (\<exists>u. t gid u = Some ROLE_OWNER) \<Longrightarrow> t gid uid = None \<Longrightarrow> member_step uid jn t (t(gid := (t gid)(uid \<mapsto> ROLE_MEMBER)))"
| bring: "uid = ''bcm_backend_manager'' \<or> (\<exists>r \<in> counted. t gid uid = Some r) \<Longrightarrow> t gid owner = Some ROLE_OWNER \<Longrightarrow> \<forall>u \<in> U. t gid u \<notin> Some ` counted
    \<Longrightarrow> member_step uid jn t (t(gid := (\<lambda>u. if u \<in> U then Some ROLE_MEMBER else t gid u)))"

inductive_cases member_stepE: "member_step uid jn t t'"

section \<open>What the database does\<close>

text \<open>A program leaves the table alone.\<close>

definition still :: "('s \<Rightarrow> member_table) \<Rightarrow> ('s, 'a) state \<Rightarrow> bool" where
  "still members m \<longleftrightarrow> (\<forall>s. members (snd (run_state m s)) = members s)"

text \<open>Every call that is not one of the five writers of the table leaves it alone.\<close>

definition member_frame :: "'s GroupManager \<Rightarrow> ('s \<Rightarrow> member_table) \<Rightarrow> bool" where
  "member_frame gm members \<longleftrightarrow>
     still members (gm_now gm) \<and> (\<forall>l i. still members (gm_acquireAccess gm l i)) \<and> (\<forall>l i. still members (gm_limited gm l i))
     \<and> (\<forall>u. still members (gm_getAccount gm u)) \<and> (\<forall>us. still members (gm_getKeys gm us)) \<and> (\<forall>g. still members (gm_getKeysByGid gm g))
     \<and> (\<forall>g. still members (gm_groups_create gm g)) \<and> (\<forall>g. still members (gm_groups_get gm g))
     \<and> (\<forall>g j. still members (gm_groups_update gm g j)) \<and> (\<forall>g. still members (gm_groups_del gm g))
     \<and> (\<forall>g u. still members (gm_users_getMemberRole gm g u)) \<and> (\<forall>g r. still members (gm_users_getMemberRoles gm g r))
     \<and> (\<forall>g us. still members (gm_users_getMemberBatch gm g us)) \<and> (\<forall>u. still members (gm_users_getJoinedGroups gm u))
     \<and> (\<forall>g. still members (gm_users_getGroupOwner gm g)) \<and> (\<forall>g u. still members (gm_users_getMember gm g u))
     \<and> (\<forall>g. still members (gm_users_memberInfo gm g)) \<and> (\<forall>g u n. still members (gm_users_memberInfo2 gm g u n))
     \<and> (\<forall>k. still members (gm_keys_insert gm k)) \<and> (\<forall>g vs. still members (gm_keys_get gm g vs))
     \<and> (\<forall>g. still members (gm_keys_getLatestMode gm g)) \<and> (\<forall>g. still members (gm_keys_getLatestModeAndVersion gm g))
     \<and> (\<forall>gs. still members (gm_keys_getLatestGroupKeys gm gs)) \<and> (\<forall>g. still members (gm_keys_clear gm g))
     \<and> (\<forall>m. still members (gm_msgs_insert gm m)) \<and> (\<forall>p. still members (gm_pending_set gm p))
     \<and> (\<forall>g us. still members (gm_pending_del gm g us)) \<and> (\<forall>g. still members (gm_pending_clear gm g))
     \<and> (\<forall>g u i. still members (gm_qr_set gm g u i)) \<and> (\<forall>g u. still members (gm_qr_get gm g u))
     \<and> (\<forall>k. still members (gm_cache_get gm k)) \<and> (\<forall>k v. still members (gm_cache_set gm k v))
     \<and> (\<forall>c m. still members (gm_publishUser gm c m)) \<and> (\<forall>k c m. still members (gm_publishOnline gm k c m))
     \<and> (\<forall>n. still members (gm_sleep gm n)) \<and> (\<forall>g. still members (gm_onlineMembers gm g))"

text \<open>A read that succeeds tells the truth.\<close>

definition member_reads :: "'s GroupManager \<Rightarrow> ('s \<Rightarrow> member_table) \<Rightarrow> bool" where
  "member_reads gm members \<longleftrightarrow>
     (\<forall>gid uid r s s'. run_state (gm_users_getMemberRole gm gid uid) s = ((Dao_Success, r), s') \<longrightarrow> members s gid uid = Some r)
     \<and> (\<forall>gid rm ec rm' s s'. run_state (gm_users_getMemberRoles gm gid rm) s = ((ec, rm'), s') \<longrightarrow> ec = Dao_Success \<or> ec = Dao_NoSuchData
        \<longrightarrow> map_of rm' = (\<lambda>u. if map_of rm u = None \<or> members s gid u = None then map_of rm u else members s gid u))
     \<and> (\<forall>gid uids ec us s s'. run_state (gm_users_getMemberBatch gm gid uids) s = ((ec, us), s') \<longrightarrow> ec = Dao_Success \<or> ec = Dao_NoSuchData
        \<longrightarrow> (\<forall>u \<in> set uids. members s gid u \<noteq> None \<longrightarrow> u \<in> gu_uid ` set us))
     \<and> (\<forall>gid uid n c r r' s s'. run_state (gm_users_memberInfo2 gm gid uid n) s = ((Dao_Success, c, r, r'), s')
        \<longrightarrow> members s gid uid = (if r = ROLE_UNDEFINE then None else Some r) \<and> members s gid n = (if r' = ROLE_UNDEFINE then None else Some r')
            \<and> finite (members_of (members s) gid) \<and> unat (gc_memberCnt c) = card (members_of (members s) gid))
     \<and> (\<forall>gid u s s'. run_state (gm_users_getGroupOwner gm gid) s = ((Dao_Success, u), s') \<longrightarrow> members s gid u = Some ROLE_OWNER)
     \<and> (\<forall>g gid s s'. run_state (gm_groups_create gm g) s = ((Dao_Success, gid), s') \<longrightarrow> members s gid = Map.empty)
     \<and> (\<forall>gid g s s'. run_state (gm_groups_get gm gid) s = ((Dao_Success, g), s') \<longrightarrow> g_gid g = gid)"

text \<open>A write that succeeds changes the table as asked, one that fails does not change it. \<open>insert\<close>
  succeeds only for a user who is not in the group.\<close>

definition writes :: "('s \<Rightarrow> member_table) \<Rightarrow> ('s, dao_code) state \<Rightarrow> (member_table \<Rightarrow> member_table) \<Rightarrow> bool" where
  "writes members m f \<longleftrightarrow>
     (\<forall>s ec s'. run_state m s = (ec, s') \<longrightarrow> members s' = (if ec = Dao_Success then f (members s) else members s))"

definition member_writes :: "'s GroupManager \<Rightarrow> ('s \<Rightarrow> member_table) \<Rightarrow> bool" where
  "member_writes gm members \<longleftrightarrow>
     (\<forall>u. writes members (gm_users_insert gm u) (put_user u))
     \<and> (\<forall>u s s'. run_state (gm_users_insert gm u) s = (Dao_Success, s') \<longrightarrow> members s (gu_gid u) (gu_uid u) = None)
     \<and> (\<forall>us. writes members (gm_users_insertBatch gm us) (fold put_user us))
     \<and> (\<forall>gid uid. writes members (gm_users_delMember gm gid uid) (\<lambda>t. t(gid := (t gid)(uid := None))))
     \<and> (\<forall>gid uids. writes members (gm_users_delMemberBatch gm gid uids) (\<lambda>t. t(gid := t gid |` (- set uids))))
     \<and> (\<forall>gid uid r. writes members (gm_users_updateRole gm gid uid r) (\<lambda>t. t(gid := (t gid)(uid \<mapsto> r))))"

definition member_store :: "'s GroupManager \<Rightarrow> ('s \<Rightarrow> member_table) \<Rightarrow> bool" where
  "member_store gm members \<longleftrightarrow> member_frame gm members \<and> member_reads gm members \<and> member_writes gm members
     \<and> (\<forall>r \<in> counted. gm_roleNo gm r \<le> gm_roleNo gm ROLE_MEMBER) \<and> gm_roleNo gm ROLE_MEMBER < gm_roleNo gm ROLE_SUBSCRIBER"

section \<open>Programs that leave the table alone\<close>

named_theorems still_rules "programs that leave the table of members alone"

lemma still_return [still_rules]: "still members (State_Monad.return a)"
  by (simp add: still_def)

lemma still_bind [still_rules]: "still members m \<Longrightarrow> (\<And>a. still members (f a)) \<Longrightarrow> still members (State_Monad.bind m f)"
  by (simp add: still_def split_beta)

lemma still_if [still_rules]: "still members m \<Longrightarrow> still members n \<Longrightarrow> still members (if b then m else n)"
  by simp

lemma still_option [still_rules]: "still members m \<Longrightarrow> (\<And>a. still members (f a)) \<Longrightarrow> still members (case x of None \<Rightarrow> m | Some a \<Rightarrow> f a)"
  by (cases x) auto

lemma still_sum [still_rules]: "(\<And>e. still members (m e)) \<Longrightarrow> (\<And>a. still members (f a)) \<Longrightarrow> still members (case x of Inl e \<Rightarrow> m e | Inr a \<Rightarrow> f a)"
  by (cases x) auto

lemma still_prod [still_rules]: "(\<And>a b. still members (f a b)) \<Longrightarrow> still members (case x of (a, b) \<Rightarrow> f a b)"
  by (cases x) auto

lemma still_bool [still_rules]: "still members m \<Longrightarrow> still members n \<Longrightarrow> still members (case b of True \<Rightarrow> m | False \<Rightarrow> n)"
  by (cases b) auto

lemma still_Let [still_rules]: "still members (f t) \<Longrightarrow> still members (let x = t in f x)"
  by (simp add: Let_def)

lemma still_for_each [still_rules]: "(\<And>x. still members (m x)) \<Longrightarrow> still members (for_each xs m)"
  by (induction xs) (auto intro!: still_rules)

lemma still_for_until [still_rules]: "(\<And>x. still members (m x)) \<Longrightarrow> still members (for_until xs m)"
  by (induction xs) (auto intro!: still_rules)

lemma still_reply [still_rules]: "still members (reply status)" "still members (reply_with status e)"
  by (simp_all add: reply_def reply_with_def still_return)

lemma still_map_state: "still members m \<Longrightarrow> still members (map_state f m)"
  by (simp add: still_def state.map_sel)

lemma wps_still: "still members m \<Longrightarrow> (\<And>a s'. members s' = members s \<Longrightarrow> Q a s') \<Longrightarrow> wps m Q s"
  by (simp add: still_def wps_def split_beta)

lemma frame_rules:
  assumes "member_frame gm members"
  shows "still members (gm_now gm)" "still members (gm_acquireAccess gm l i)" "still members (gm_limited gm l i)"
    "still members (gm_getAccount gm u)" "still members (gm_getKeys gm us)" "still members (gm_getKeysByGid gm gid)"
    "still members (gm_groups_create gm gr)" "still members (gm_groups_get gm gid)" "still members (gm_groups_update gm gid j)"
    "still members (gm_groups_del gm gid)" "still members (gm_users_getMemberRole gm gid u)"
    "still members (gm_users_getMemberRoles gm gid rm)" "still members (gm_users_getMemberBatch gm gid us)"
    "still members (gm_users_getJoinedGroups gm u)" "still members (gm_users_getGroupOwner gm gid)"
    "still members (gm_users_getMember gm gid u)" "still members (gm_users_memberInfo gm gid)"
    "still members (gm_users_memberInfo2 gm gid u n)" "still members (gm_keys_insert gm k)" "still members (gm_keys_get gm gid vs)"
    "still members (gm_keys_getLatestMode gm gid)" "still members (gm_keys_getLatestModeAndVersion gm gid)"
    "still members (gm_keys_getLatestGroupKeys gm gids)" "still members (gm_keys_clear gm gid)" "still members (gm_msgs_insert gm msg)"
    "still members (gm_pending_set gm p)" "still members (gm_pending_del gm gid us)" "still members (gm_pending_clear gm gid)"
    "still members (gm_qr_set gm gid u ttl)" "still members (gm_qr_get gm gid u)" "still members (gm_cache_get gm key)"
    "still members (gm_cache_set gm key v)" "still members (gm_publishUser gm c t)" "still members (gm_publishOnline gm key c t)"
    "still members (gm_sleep gm ms)" "still members (gm_onlineMembers gm gid)"
  using assms by (simp_all add: member_frame_def)

lemma still_pubGroupSystemMessage: "member_frame gm members \<Longrightarrow> still members (pubGroupSystemMessage gm uid gid ty t)"
  unfolding pubGroupSystemMessage_def by (intro still_rules frame_rules)

lemma still_publish:
  assumes "member_frame gm members"
  shows "still members (publishGroupUserEvent gm gid uid ty)" "still members (pubReviewJoinRequestToOwner gm gid uid)"
  unfolding publishGroupUserEvent_def pubReviewJoinRequestToOwner_def by (intro still_rules frame_rules [OF assms])+

lemma still_switch_retry: "member_frame gm members \<Longrightarrow> still members (switch_retry gm uid gid v is)"
  by (induction "is") (auto intro!: still_rules frame_rules still_pubGroupSystemMessage)

lemma still_cache:
  assumes "member_frame gm members"
  shows "still members (KeysCache_get gm gid v)" "still members (KeysCache_set gm gid v keys)"
  unfolding KeysCache_get_def KeysCache_set_def by (intro still_rules frame_rules [OF assms])+

lemma still_update_retry: "member_frame gm members \<Longrightarrow> still members (update_retry gm uid gid mode is)"
proof (induction "is")
  case Nil
  then show ?case by (simp add: still_return)
next
  case (Cons i "is")
  then show ?case unfolding update_retry.simps by (intro still_rules frame_rules still_pubGroupSystemMessage still_cache)
qed

lemma still_update:
  assumes "member_frame gm members"
  shows "still members (sendGroupKeysUpdateRequestWhenMemberChanges gm uid gid n)"
  unfolding sendGroupKeysUpdateRequestWhenMemberChanges_def sendGroupKeysUpdateRequestWithRetry_def latest_mode_def
  by (intro still_rules frame_rules still_update_retry assms)

lemma still_switch: "member_frame gm members \<Longrightarrow> still members (sendSwitchGroupKeysWithRetry gm uid gid v)"
  unfolding sendSwitchGroupKeysWithRetry_def by (rule still_switch_retry)

lemma still_friends:
  assumes "member_frame gm members"
  shows "still members (checkBidirectionalRelationship gm account us)"
    "still members (checkBidirectionalRelationshipBypassSubscribers gm account gid us)"
  unfolding checkBidirectionalRelationship_def checkBidirectionalRelationshipBypassSubscribers_def friend_of_member_def
  by (intro still_rules frame_rules [OF assms])+

lemma still_owner: "member_frame gm members \<Longrightarrow> still members (getGroupOwner gm gid)"
  unfolding getGroupOwner_def by (intro still_rules frame_rules)

lemma still_join_group: "member_frame gm members \<Longrightarrow> still members (join_group gm gid)"
  unfolding join_group_def by (intro still_rules frame_rules)

lemma still_candidates: "member_frame gm members \<Longrightarrow> still members (selectKeyDistributionCandidates gm gid seed n)"
  unfolding selectKeyDistributionCandidates_def getLocalOnlineGroupMembers_def by (intro still_rules frame_rules)

lemma still_pending_loop: "member_frame gm members \<Longrightarrow> still members (pending_loop gm account gid rm ms success)"
  by (induction gm account gid rm ms success rule: pending_loop.induct) (auto intro!: still_rules frame_rules)

lemma still_fire_loop:
  assumes "member_frame gm members"
  shows "still members (fire_loop gm uid gids success fail)"
  using assms
  by (induction gids arbitrary: success fail) (auto intro!: still_rules frame_rules still_update)

lemmas still_calls = still_pubGroupSystemMessage still_publish still_switch still_cache still_update still_friends still_owner
  still_join_group still_candidates still_pending_loop still_fire_loop

text \<open>The requests that do not concern membership.\<close>

lemma still_handlers:
  assumes "member_frame gm members"
  shows "still members (onUploadGroupKeysV3 gm account b1)" "still members (onFetchLatestGroupKeysV3 gm account b2)"
    "still members (onFetchGroupKeysV3 gm account b3)" "still members (fireGroupKeysUpdateV3 gm account b4)"
    "still members (onDhKeysV3 gm account b5)" "still members (onPrepareKeyUpdateV3 gm account b6)"
    "still members (onGroupJoinRequstV3 gm garbage account b7)" "still members (onUpdateGroupInfoV3 gm account b8)"
    "still members (onQueryMembersV3 gm account b9)"
  unfolding onUploadGroupKeysV3_def onFetchLatestGroupKeysV3_def onFetchGroupKeysV3_def fireGroupKeysUpdateV3_def onDhKeysV3_def
    onPrepareKeyUpdateV3_def onGroupJoinRequstV3_def onUpdateGroupInfoV3_def onQueryMembersV3_def
  by (intro still_rules frame_rules [OF assms] still_calls [OF assms])+

section \<open>Handlers refine the steps\<close>

text \<open>Run from \<open>s\<close>, a program ends in a table that the user reaches from \<open>t\<close> by a step.\<close>

definition refines :: "('s \<Rightarrow> member_table) \<Rightarrow> string \<Rightarrow> u64 option \<Rightarrow> member_table \<Rightarrow> ('s, 'a) state \<Rightarrow> 's \<Rightarrow> bool" where
  "refines members uid jn t m s \<longleftrightarrow> wps m (\<lambda>_ s'. member_step uid jn t (members s')) s"

named_theorems ref_rules "how a program refines the steps of the table"

lemma refines_still: "still members m \<Longrightarrow> member_step uid jn t (members s) \<Longrightarrow> refines members uid jn t m s"
  unfolding refines_def by (rule wps_still) auto

lemma refines_bind:
  assumes "still members m" and "\<And>a s'. members s' = members s \<Longrightarrow> refines members uid jn t (f a) s'"
  shows "refines members uid jn t (State_Monad.bind m f) s"
  unfolding refines_def by (rule wps_bind, rule wps_still [OF assms(1)]) (use assms(2) in \<open>simp add: refines_def\<close>)

lemma refines_if [ref_rules]:
  "(b \<Longrightarrow> refines members uid jn t m s) \<Longrightarrow> (\<not> b \<Longrightarrow> refines members uid jn t n s) \<Longrightarrow> refines members uid jn t (if b then m else n) s"
  by simp

lemma refines_pair [ref_rules]: "refines members uid jn t (f a b) s \<Longrightarrow> refines members uid jn t (case (a, b) of (x, y) \<Rightarrow> f x y) s"
  by simp

lemma refines_prod [ref_rules]: "(\<And>a b. refines members uid jn t (f a b) s) \<Longrightarrow> refines members uid jn t (case x of (a, b) \<Rightarrow> f a b) s"
  by (cases x) simp

lemma refines_option [ref_rules]:
  "refines members uid jn t m s \<Longrightarrow> (\<And>a. refines members uid jn t (f a) s) \<Longrightarrow> refines members uid jn t (case x of None \<Rightarrow> m | Some a \<Rightarrow> f a) s"
  by (cases x) auto

lemma refines_sum [ref_rules]:
  "(\<And>e. refines members uid jn t (m e) s) \<Longrightarrow> (\<And>a. refines members uid jn t (f a) s) \<Longrightarrow> refines members uid jn t (case x of Inl e \<Rightarrow> m e | Inr a \<Rightarrow> f a) s"
  by (cases x) auto

lemma refines_Let [ref_rules]: "refines members uid jn t (f x) s \<Longrightarrow> refines members uid jn t (let y = x in f y) s"
  by (simp add: Let_def)

lemma refines_return [ref_rules]:
  "member_step uid jn t (members s) \<Longrightarrow> refines members uid jn t (State_Monad.return a) s"
  "member_step uid jn t (members s) \<Longrightarrow> refines members uid jn t (reply status) s"
  "member_step uid jn t (members s) \<Longrightarrow> refines members uid jn t (reply_with status e) s"
  by (rule refines_still; simp add: still_rules)+

lemma refines_write:
  assumes "writes members m g"
    and "\<And>s'. run_state m s = (Dao_Success, s') \<Longrightarrow> members s' = g (members s) \<Longrightarrow> refines members uid jn t (f Dao_Success) s'"
    and "\<And>ec s'. ec \<noteq> Dao_Success \<Longrightarrow> members s' = members s \<Longrightarrow> refines members uid jn t (f ec) s'"
  shows "refines members uid jn t (State_Monad.bind m f) s"
proof -
  obtain ec s' where r: "run_state m s = (ec, s')" by fastforce
  have "refines members uid jn t (f ec) s'"
  proof (cases "ec = Dao_Success")
    case True
    then show ?thesis using assms(1,2) r by (simp add: writes_def)
  next
    case False
    moreover have "members s' = members s" using False assms(1) r by (auto simp: writes_def)
    ultimately show ?thesis by (rule assms(3))
  qed
  then show ?thesis by (simp add: refines_def wps_def r)
qed

text \<open>A read, with what is known of its answer.\<close>

lemma refines_read:
  assumes "still members m" and "\<And>a s'. run_state m s = (a, s') \<Longrightarrow> P a"
    and "\<And>a s'. P a \<Longrightarrow> members s' = members s \<Longrightarrow> refines members uid jn t (f a) s'"
  shows "refines members uid jn t (State_Monad.bind m f) s"
proof -
  obtain a s' where r: "run_state m s = (a, s')" by fastforce
  have "members s' = members s" using assms(1) r unfolding still_def by (metis snd_conv)
  then have "refines members uid jn t (f a) s'" using assms(2) [OF r] assms(3) by blast
  then show ?thesis by (simp add: refines_def wps_def r)
qed

lemmas ref_frame = frame_rules [THEN refines_bind]
lemmas ref_calls = still_calls [THEN refines_bind]

lemma member_storeD:
  assumes "member_store gm members"
  shows "member_frame gm members" "member_reads gm members" "member_writes gm members"
    "r \<in> counted \<Longrightarrow> gm_roleNo gm r \<le> gm_roleNo gm ROLE_MEMBER" "gm_roleNo gm ROLE_MEMBER < gm_roleNo gm ROLE_SUBSCRIBER"
  using assms by (auto simp: member_store_def)

lemma ref_getMemberRole:
  assumes "member_store gm members"
    and "\<And>ec r s'. ec = Dao_Success \<longrightarrow> members s gid u = Some r \<Longrightarrow> members s' = members s \<Longrightarrow> refines members uid jn t (f (ec, r)) s'"
  shows "refines members uid jn t (State_Monad.bind (gm_users_getMemberRole gm gid u) f) s"
proof (rule refines_read [where P = "\<lambda>a. fst a = Dao_Success \<longrightarrow> members s gid u = Some (snd a)"])
  show "still members (gm_users_getMemberRole gm gid u)" using member_storeD(1) [OF assms(1)] by (rule frame_rules)
  show "fst a = Dao_Success \<longrightarrow> members s gid u = Some (snd a)" if "run_state (gm_users_getMemberRole gm gid u) s = (a, s')" for a s'
    using member_storeD(2) [OF assms(1)] that unfolding member_reads_def by (metis prod.collapse)
qed (use assms(2) in \<open>auto\<close>)

text \<open>The parts of \<open>member_reads\<close> that later proofs take apart.\<close>

lemma member_reads_roles:
  assumes "member_reads gm members" and "run_state (gm_users_getMemberRoles gm gid rm) s = ((ec, rm'), s')" and "ec = Dao_Success \<or> ec = Dao_NoSuchData"
  shows "map_of rm' = (\<lambda>u. if map_of rm u = None \<or> members s gid u = None then map_of rm u else members s gid u)"
proof -
  have "\<forall>gid rm ec rm' s s'. run_state (gm_users_getMemberRoles gm gid rm) s = ((ec, rm'), s') \<longrightarrow> ec = Dao_Success \<or> ec = Dao_NoSuchData
        \<longrightarrow> map_of rm' = (\<lambda>u. if map_of rm u = None \<or> members s gid u = None then map_of rm u else members s gid u)"
    using assms(1) unfolding member_reads_def by (elim conjE)
  from this [rule_format, OF assms(2,3)] show ?thesis .
qed

lemma member_reads_batch:
  assumes "member_reads gm members" and "run_state (gm_users_getMemberBatch gm gid uids) s = ((ec, us), s')" and "ec = Dao_Success \<or> ec = Dao_NoSuchData"
  shows "\<forall>u \<in> set uids. members s gid u \<noteq> None \<longrightarrow> u \<in> gu_uid ` set us"
proof -
  have "\<forall>gid uids ec us s s'. run_state (gm_users_getMemberBatch gm gid uids) s = ((ec, us), s') \<longrightarrow> ec = Dao_Success \<or> ec = Dao_NoSuchData
        \<longrightarrow> (\<forall>u \<in> set uids. members s gid u \<noteq> None \<longrightarrow> u \<in> gu_uid ` set us)"
    using assms(1) unfolding member_reads_def by (elim conjE)
  from this [rule_format, OF assms(2,3)] show ?thesis by blast
qed

lemma ref_getMemberRoles:
  assumes "member_store gm members"
    and "\<And>ec rm' s'. ec = Dao_Success \<or> ec = Dao_NoSuchData
        \<longrightarrow> map_of rm' = (\<lambda>u. if map_of rm u = None \<or> members s gid u = None then map_of rm u else members s gid u)
      \<Longrightarrow> members s' = members s \<Longrightarrow> refines members uid jn t (f (ec, rm')) s'"
  shows "refines members uid jn t (State_Monad.bind (gm_users_getMemberRoles gm gid rm) f) s"
proof (rule refines_read [where P = "\<lambda>(ec, rm'). ec = Dao_Success \<or> ec = Dao_NoSuchData
      \<longrightarrow> map_of rm' = (\<lambda>u. if map_of rm u = None \<or> members s gid u = None then map_of rm u else members s gid u)"])
  show "still members (gm_users_getMemberRoles gm gid rm)" using member_storeD(1) [OF assms(1)] by (rule frame_rules)
  show "case a of (ec, rm') \<Rightarrow> ec = Dao_Success \<or> ec = Dao_NoSuchData
      \<longrightarrow> map_of rm' = (\<lambda>u. if map_of rm u = None \<or> members s gid u = None then map_of rm u else members s gid u)"
    if "run_state (gm_users_getMemberRoles gm gid rm) s = (a, s')" for a s'
    using member_reads_roles [OF member_storeD(2) [OF assms(1)]] that by (cases a) blast
  show "refines members uid jn t (f a) s'" if "case a of (ec, rm') \<Rightarrow> ec = Dao_Success \<or> ec = Dao_NoSuchData
      \<longrightarrow> map_of rm' = (\<lambda>u. if map_of rm u = None \<or> members s gid u = None then map_of rm u else members s gid u)" "members s' = members s" for a s'
    using assms(2) [OF _ that(2)] that(1) by (cases a) blast
qed

lemma ref_getMemberBatch:
  assumes "member_store gm members"
    and "\<And>ec us s'. ec = Dao_Success \<or> ec = Dao_NoSuchData \<longrightarrow> (\<forall>u \<in> set uids. members s gid u \<noteq> None \<longrightarrow> u \<in> gu_uid ` set us)
      \<Longrightarrow> members s' = members s \<Longrightarrow> refines members uid jn t (f (ec, us)) s'"
  shows "refines members uid jn t (State_Monad.bind (gm_users_getMemberBatch gm gid uids) f) s"
proof (rule refines_read [where P = "\<lambda>a. fst a = Dao_Success \<or> fst a = Dao_NoSuchData
      \<longrightarrow> (\<forall>u \<in> set uids. members s gid u \<noteq> None \<longrightarrow> u \<in> gu_uid ` set (snd a))"])
  show "still members (gm_users_getMemberBatch gm gid uids)" using member_storeD(1) [OF assms(1)] by (rule frame_rules)
  show "fst a = Dao_Success \<or> fst a = Dao_NoSuchData \<longrightarrow> (\<forall>u \<in> set uids. members s gid u \<noteq> None \<longrightarrow> u \<in> gu_uid ` set (snd a))"
    if "run_state (gm_users_getMemberBatch gm gid uids) s = (a, s')" for a s'
    using member_reads_batch [OF member_storeD(2) [OF assms(1)]] that by (cases a) auto
qed (use assms(2) in \<open>auto\<close>)

lemma member_reads_info2:
  assumes "member_reads gm members" and "run_state (gm_users_memberInfo2 gm gid uid n) s = ((Dao_Success, c, r, r'), s')"
  shows "members s gid uid = (if r = ROLE_UNDEFINE then None else Some r) \<and> members s gid n = (if r' = ROLE_UNDEFINE then None else Some r')
    \<and> finite (members_of (members s) gid) \<and> unat (gc_memberCnt c) = card (members_of (members s) gid)"
proof -
  have "\<forall>gid uid n c r r' s s'. run_state (gm_users_memberInfo2 gm gid uid n) s = ((Dao_Success, c, r, r'), s')
      \<longrightarrow> members s gid uid = (if r = ROLE_UNDEFINE then None else Some r) \<and> members s gid n = (if r' = ROLE_UNDEFINE then None else Some r')
            \<and> finite (members_of (members s) gid) \<and> unat (gc_memberCnt c) = card (members_of (members s) gid)"
    using assms(1) unfolding member_reads_def by (elim conjE)
  then show ?thesis using assms(2) by blast
qed

lemma ref_memberInfo2:
  assumes "member_store gm members"
    and "\<And>ec c r r' s'. ec = Dao_Success \<longrightarrow> members s gid u = (if r = ROLE_UNDEFINE then None else Some r)
          \<and> members s gid n = (if r' = ROLE_UNDEFINE then None else Some r')
          \<and> finite (members_of (members s) gid) \<and> unat (gc_memberCnt c) = card (members_of (members s) gid)
      \<Longrightarrow> members s' = members s \<Longrightarrow> refines members uid jn t (f (ec, c, r, r')) s'"
  shows "refines members uid jn t (State_Monad.bind (gm_users_memberInfo2 gm gid u n) f) s"
proof (rule refines_read [where P = "\<lambda>(ec, c, r, r'). ec = Dao_Success \<longrightarrow> members s gid u = (if r = ROLE_UNDEFINE then None else Some r)
          \<and> members s gid n = (if r' = ROLE_UNDEFINE then None else Some r')
          \<and> finite (members_of (members s) gid) \<and> unat (gc_memberCnt c) = card (members_of (members s) gid)"])
  show "still members (gm_users_memberInfo2 gm gid u n)" using member_storeD(1) [OF assms(1)] by (rule frame_rules)
  show "case a of (ec, c, r, r') \<Rightarrow> ec = Dao_Success \<longrightarrow> members s gid u = (if r = ROLE_UNDEFINE then None else Some r)
          \<and> members s gid n = (if r' = ROLE_UNDEFINE then None else Some r')
          \<and> finite (members_of (members s) gid) \<and> unat (gc_memberCnt c) = card (members_of (members s) gid)"
    if "run_state (gm_users_memberInfo2 gm gid u n) s = (a, s')" for a s'
    using member_reads_info2 [OF member_storeD(2) [OF assms(1)], of gid u n s] that by (cases a) fast
qed (use assms(2) in \<open>auto split: prod.splits\<close>)

lemma ref_getGroupOwner:
  assumes "member_store gm members"
    and "\<And>ec u s'. ec = Dao_Success \<longrightarrow> members s gid u = Some ROLE_OWNER \<Longrightarrow> members s' = members s \<Longrightarrow> refines members uid jn t (f (ec, u)) s'"
  shows "refines members uid jn t (State_Monad.bind (gm_users_getGroupOwner gm gid) f) s"
proof (rule refines_read [where P = "\<lambda>a. fst a = Dao_Success \<longrightarrow> members s gid (snd a) = Some ROLE_OWNER"])
  show "still members (gm_users_getGroupOwner gm gid)" using member_storeD(1) [OF assms(1)] by (rule frame_rules)
  show "fst a = Dao_Success \<longrightarrow> members s gid (snd a) = Some ROLE_OWNER" if "run_state (gm_users_getGroupOwner gm gid) s = (a, s')" for a s'
    using member_storeD(2) [OF assms(1)] that unfolding member_reads_def by (metis prod.collapse)
qed (use assms(2) in \<open>auto\<close>)

lemma ref_groups_get:
  assumes "member_store gm members"
    and "\<And>ec g s'. ec = Dao_Success \<longrightarrow> g_gid g = gid \<Longrightarrow> members s' = members s \<Longrightarrow> refines members uid jn t (f (ec, g)) s'"
  shows "refines members uid jn t (State_Monad.bind (gm_groups_get gm gid) f) s"
proof (rule refines_read [where P = "\<lambda>a. fst a = Dao_Success \<longrightarrow> g_gid (snd a) = gid"])
  show "still members (gm_groups_get gm gid)" using member_storeD(1) [OF assms(1)] by (rule frame_rules)
  show "fst a = Dao_Success \<longrightarrow> g_gid (snd a) = gid" if "run_state (gm_groups_get gm gid) s = (a, s')" for a s'
    using member_storeD(2) [OF assms(1)] that unfolding member_reads_def by (metis prod.collapse)
qed (use assms(2) in \<open>auto\<close>)

lemma ref_groups_create:
  assumes "member_store gm members"
    and "\<And>ec gid s'. ec = Dao_Success \<longrightarrow> members s gid = Map.empty \<Longrightarrow> members s' = members s \<Longrightarrow> refines members uid jn t (f (ec, gid)) s'"
  shows "refines members uid jn t (State_Monad.bind (gm_groups_create gm g) f) s"
proof (rule refines_read [where P = "\<lambda>a. fst a = Dao_Success \<longrightarrow> members s (snd a) = Map.empty"])
  show "still members (gm_groups_create gm g)" using member_storeD(1) [OF assms(1)] by (rule frame_rules)
  show "fst a = Dao_Success \<longrightarrow> members s (snd a) = Map.empty" if "run_state (gm_groups_create gm g) s = (a, s')" for a s'
    using member_storeD(2) [OF assms(1)] that unfolding member_reads_def by (metis prod.collapse)
qed (use assms(2) in \<open>auto\<close>)

lemma member_writesD:
  assumes "member_store gm members"
  shows "writes members (gm_users_insert gm u) (put_user u)"
    "run_state (gm_users_insert gm u) s = (Dao_Success, s') \<Longrightarrow> members s (gu_gid u) (gu_uid u) = None"
    "writes members (gm_users_insertBatch gm us) (fold put_user us)"
    "writes members (gm_users_delMember gm gid uid) (\<lambda>t. t(gid := (t gid)(uid := None)))"
    "writes members (gm_users_delMemberBatch gm gid uids) (\<lambda>t. t(gid := t gid |` (- set uids)))"
    "writes members (gm_users_updateRole gm gid uid r) (\<lambda>t. t(gid := (t gid)(uid \<mapsto> r)))"
  using member_storeD(3) [OF assms] unfolding member_writes_def by blast+

subsection \<open>Kicking and leaving\<close>

lemma to_kick_members: "gu_uid ` set (to_kick users ms) \<subseteq> set ms"
proof
  fix u assume "u \<in> gu_uid ` set (to_kick users ms)"
  then obtain m w where "m \<in> set ms" "map_of (map (\<lambda>u. (gu_uid u, u)) (rev users)) m = Some w" "u = gu_uid w"
    by (auto simp: to_kick_def List.map_filter_def image_iff split: option.splits)
  then show "u \<in> set ms" by (auto dest!: map_of_SomeD)
qed

lemma kick_step:
  assumes "KickGroupMemberBody_check uid body" and "t gid uid = Some ROLE_OWNER"
  shows "member_step uid jn t (t(gid := t gid |` (- set (map gu_uid (to_kick users (kb_members body))))))"
proof (rule member_step.kick)
  show "uid \<notin> set (map gu_uid (to_kick users (kb_members body)))"
    using to_kick_members [of users "kb_members body"] assms(1) by (auto simp: KickGroupMemberBody_check_def list_all_iff)
qed (fact assms(2))

lemma kick_refines:
  assumes store: "member_store gm members"
  shows "refines members (a_uid account) jn (members s) (onKickGroupMemberV3 gm account body) s"
proof -
  note frame = member_storeD(1) [OF store]
  show ?thesis
    unfolding onKickGroupMemberV3_def
    by (intro ref_rules ref_getMemberRole [OF store] refines_write [OF member_writesD(5) [OF store]] ref_frame [OF frame] ref_calls [OF frame]
        refines_bind [OF still_for_each] still_publish [OF frame])
      (simp_all add: member_step.stay kick_step del: set_map)
qed

lemma refines_bind_if:
  "(b \<Longrightarrow> refines members uid jn t (State_Monad.bind m f) s) \<Longrightarrow> (\<not> b \<Longrightarrow> refines members uid jn t (State_Monad.bind n f) s)
    \<Longrightarrow> refines members uid jn t (State_Monad.bind (if b then m else n) f) s"
  by simp

lemma refines_bind_return: "refines members uid jn t (f a) s \<Longrightarrow> refines members uid jn t (State_Monad.bind (State_Monad.return a) f) s"
  by simp

lemma member_counted: "t gid u = Some r \<Longrightarrow> r \<in> counted \<Longrightarrow> u \<in> members_of t gid"
  by (auto simp: members_of_def)

lemma alone: "finite A \<Longrightarrow> u \<in> A \<Longrightarrow> unat c = card A \<Longrightarrow> c \<noteq> 0 \<Longrightarrow> \<not> 1 < c \<Longrightarrow> A = {u}" for c :: u32
proof -
  assume a: "finite A" "u \<in> A" "unat c = card A" "c \<noteq> 0" "\<not> 1 < c"
  then have "card A = 1" by (auto simp: word_less_nat_alt not_less unat_eq_zero le_eq_less_or_eq)
  then show "A = {u}" using a by (auto simp: card_1_singleton_iff)
qed

lemma leave_step:
  fixes c :: u32
  assumes "t gid uid = (if r = ROLE_UNDEFINE then None else Some r)" and "r = ROLE_OWNER \<or> r = ROLE_MEMBER"
    and "finite (members_of t gid)" and "unat c = card (members_of t gid)" and "c \<noteq> 0" and "\<not> (r = ROLE_OWNER \<and> 1 < c)"
  shows "member_step uid jn t (t(gid := (t gid)(uid := None)))"
proof (rule member_step.leave)
  show "t gid uid = Some r" using assms(1,2) by auto
  show "r = ROLE_OWNER \<longrightarrow> members_of t gid = {uid}"
  proof
    assume "r = ROLE_OWNER"
    then show "members_of t gid = {uid}"
      using assms by (intro alone [OF assms(3) _ assms(4,5)] member_counted [of _ _ _ ROLE_OWNER]) (auto simp: counted_def)
  qed
qed

lemma next_member:
  "t gid n = (if r = ROLE_UNDEFINE then None else Some r) \<Longrightarrow> r = ROLE_OWNER \<or> r = ROLE_MEMBER \<Longrightarrow> t gid n \<in> {Some ROLE_OWNER, Some ROLE_MEMBER}"
  by auto

lemma leave_refines:
  assumes store: "member_store gm members"
  shows "refines members (a_uid account) jn (members s) (onLeaveGroupV3 gm account body) s"
proof -
  note frame = member_storeD(1) [OF store]
  show ?thesis
    unfolding onLeaveGroupV3_def Let_def
    by (intro ref_rules ref_memberInfo2 [OF store] refines_bind_if refines_bind_return refines_write [OF member_writesD(6) [OF store]]
        refines_write [OF member_writesD(4) [OF store]] ref_frame [OF frame] ref_calls [OF frame] refines_bind [OF still_if]
        still_calls [OF frame] still_rules)
      (auto intro!: member_step.stay leave_step member_step.hand_over member_step.hand_over_leave next_member)
qed

subsection \<open>New members\<close>

lemma fold_put_user:
  assumes "\<forall>u \<in> set us. gu_gid u = gid"
  shows "fold put_user us t = t(gid := t gid ++ map_of (rev (map (\<lambda>u. (gu_uid u, gu_role u)) us)))"
  using assms
proof (induction us arbitrary: t)
  case Nil
  then show ?case by simp
next
  case (Cons u us)
  then show ?case by (simp add: put_user_def fun_eq_iff)
qed

lemma map_of_const: "\<forall>u \<in> set us. gu_role u = r \<Longrightarrow> map_of (rev (map (\<lambda>u. (gu_uid u, gu_role u)) us)) u
    = (if u \<in> gu_uid ` set us then Some r else None)"
proof (induction us rule: rev_induct)
  case Nil
  then show ?case by simp
next
  case (snoc x xs)
  then show ?case by auto
qed

text \<open>Users put in a group as members.\<close>

lemma fold_put_members:
  assumes "\<forall>u \<in> set us. gu_gid u = gid \<and> gu_role u = ROLE_MEMBER"
  shows "fold put_user us t = t(gid := (\<lambda>u. if u \<in> gu_uid ` set us then Some ROLE_MEMBER else t gid u))"
proof -
  have "map_of (rev (map (\<lambda>u. (gu_uid u, gu_role u)) us)) = (\<lambda>u. if u \<in> gu_uid ` set us then Some ROLE_MEMBER else None)"
    using assms by (intro ext map_of_const) simp
  moreover have "fold put_user us t = t(gid := t gid ++ map_of (rev (map (\<lambda>u. (gu_uid u, gu_role u)) us)))"
    using assms by (intro fold_put_user) simp
  ultimately show ?thesis by (simp add: fun_eq_iff map_add_def)
qed

lemma new_user_simps [simp]:
  "gu_gid (new_user gm gid uid r mid now secret prf) = gid" "gu_uid (new_user gm gid uid r mid now secret prf) = uid"
  "gu_role (new_user gm gid uid r mid now secret prf) = r"
  by (simp_all add: new_user_def)

lemma create_step:
  assumes "t gid = Map.empty"
  shows "member_step (a_uid account) jn t (fold put_user (create_users gm account body gid now) t)"
proof -
  define us where "us = map (\<lambda>i. new_user gm gid (cg_members body ! i) ROLE_MEMBER 0 now
    (cg_membersGroupInfoSecrets body ! i) (cg_memberProofs body ! i)) [0..<length (cg_members body)]"
  have us: "\<forall>u \<in> set us. gu_gid u = gid \<and> gu_role u = ROLE_MEMBER" by (auto simp: us_def)
  have "fold put_user (create_users gm account body gid now) t
      = t(gid := (\<lambda>u. if u \<in> gu_uid ` set us then Some ROLE_MEMBER else t gid u)(a_uid account \<mapsto> ROLE_OWNER))"
    using fold_put_members [OF us, of t] by (simp add: create_users_def us_def [symmetric] put_user_def fun_eq_iff)
  then show ?thesis using assms by (auto intro!: member_step.create)
qed

lemma create_refines:
  assumes store: "member_store gm members"
  shows "refines members (a_uid account) jn (members s) (onCreateGroupV3 gm account body) s"
proof -
  note frame = member_storeD(1) [OF store]
  have tail: "refines members (a_uid account) jn (members s) (create_store gm account body now) s'" if "members s' = members s" for s' now
    unfolding create_store_def
    by (intro ref_rules ref_groups_create [OF store] refines_write [OF member_writesD(3) [OF store]] ref_frame [OF frame] ref_calls [OF frame]
        refines_bind [OF still_for_each] still_calls [OF frame])
      (use that in \<open>auto intro: member_step.stay create_step\<close>)
  show ?thesis
    unfolding onCreateGroupV3_def
    by (intro ref_rules ref_frame [OF frame] ref_calls [OF frame] tail) (auto intro: member_step.stay)
qed

lemma add_me_refines:
  assumes store: "member_store gm members"
  shows "refines members (a_uid account) (Some (am_gid body)) (members s) (onAddMeRequstV3 gm account body) s"
proof -
  note frame = member_storeD(1) [OF store]
  show ?thesis
    unfolding onAddMeRequstV3_def
    by (intro ref_rules refines_write [OF member_writesD(1) [OF store]] ref_frame [OF frame] ref_calls [OF frame])
      (auto intro!: member_step.stay member_step.join dest!: member_writesD(2) [OF store] simp: put_user_def)
qed

lemma map_of_undefined_roles: "map_of (undefined_roles ms) u = (if u \<in> set ms then Some ROLE_UNDEFINE else None)"
proof -
  have "map_of (fold (\<lambda>m. sm_put m ROLE_UNDEFINE) ms rm) u = (if u \<in> set ms then Some ROLE_UNDEFINE else map_of rm u)" for rm
    by (induction ms arbitrary: rm) auto
  then show ?thesis by (simp add: undefined_roles_def)
qed

lemma invitable_new:
  assumes "invitable gm roleMap u" and "u \<in> set ms"
    and "map_of roleMap = (\<lambda>u. if map_of (undefined_roles ms) u = None \<or> m u = None then map_of (undefined_roles ms) u else m u)"
    and "\<And>r. r \<in> counted \<Longrightarrow> gm_roleNo gm r \<le> gm_roleNo gm ROLE_MEMBER"
  shows "m u \<notin> Some ` counted"
proof
  assume "m u \<in> Some ` counted"
  then obtain r where r: "m u = Some r" "r \<in> counted" by auto
  then have "map_of roleMap u = Some r" using assms(2,3) by (simp add: map_of_undefined_roles)
  moreover have "r \<noteq> ROLE_UNDEFINE" using r(2) by (auto simp: counted_def)
  ultimately show False using assms(1) assms(4) [OF r(2)] by (simp add: invitable_def)
qed

text \<open>Bringing in users: what the two handlers that do it share.\<close>

lemma bring_step:
  assumes "uid = ''bcm_backend_manager'' \<or> (\<exists>r \<in> counted. t gid uid = Some r)"
    and "\<forall>u \<in> set us. gu_gid u = gid \<and> gu_role u = ROLE_MEMBER" and "\<forall>u \<in> set us. t gid (gu_uid u) \<notin> Some ` counted"
    and "t gid owner = Some ROLE_OWNER"
  shows "member_step uid jn t (fold put_user us t)"
  unfolding fold_put_members [OF assms(2)] by (rule member_step.bring) (use assms in auto)

lemma invite_users_ok:
  assumes store: "member_store gm members"
    and roles: "map_of roleMap = (\<lambda>u. if map_of (undefined_roles (iv_members req)) u = None \<or> t (iv_gid req) u = None
      then map_of (undefined_roles (iv_members req)) u else t (iv_gid req) u)"
    and entitled: "uid = ''bcm_backend_manager'' \<or> (\<exists>r \<in> counted. t (iv_gid req) uid = Some r)"
    and owner: "t (iv_gid req) owner = Some ROLE_OWNER"
  shows "member_step uid jn t (fold put_user (invite_users gm req gr roleMap now) t)"
proof (rule bring_step [where t = t and gid = "iv_gid req", OF entitled _ _ owner])
  show "\<forall>u \<in> set (invite_users gm req gr roleMap now). gu_gid u = iv_gid req \<and> gu_role u = ROLE_MEMBER"
    by (auto simp: invite_users_def)
  show "\<forall>u \<in> set (invite_users gm req gr roleMap now). t (iv_gid req) (gu_uid u) \<notin> Some ` counted"
    by (auto simp: invite_users_def dest!: invitable_new [OF _ _ roles member_storeD(4) [OF store]])
qed

lemma invite_checked_refines:
  assumes store: "member_store gm members" and t: "members s = t"
    and entitled: "a_uid account = ''bcm_backend_manager'' \<or> (\<exists>r \<in> counted. t (iv_gid req) (a_uid account) = Some r)"
  shows "refines members (a_uid account) jn t (invite_checked gm account req) s"
proof -
  note frame = member_storeD(1) [OF store]
  have direct: "refines members (a_uid account) jn t (invite_direct gm account req gr roleMap now) s'"
    if "members s' = t" and "map_of roleMap = (\<lambda>u. if map_of (undefined_roles (iv_members req)) u = None \<or> t (iv_gid req) u = None
      then map_of (undefined_roles (iv_members req)) u else t (iv_gid req) u)" and "t (iv_gid req) owner = Some ROLE_OWNER" for s' gr roleMap now owner
  proof -
    have step: "member_step (a_uid account) jn t (fold put_user (invite_users gm req gr roleMap now) t)"
      by (rule invite_users_ok [OF store]) (fact that(2,3) entitled)+
    show ?thesis
      unfolding invite_direct_def
      by (intro ref_rules refines_write [OF member_writesD(3) [OF store]] ref_frame [OF frame] ref_calls [OF frame]
          refines_bind [OF still_for_each] still_calls [OF frame])
        (simp_all add: that(1) member_step.stay step)
  qed
  show ?thesis
    unfolding invite_checked_def
    by (intro ref_rules ref_getGroupOwner [OF store] ref_getMemberRoles [OF store] direct ref_frame [OF frame] ref_calls [OF frame])
      (use t in \<open>auto intro: member_step.stay\<close>)
qed

lemma invite_refines:
  assumes store: "member_store gm members"
  shows "refines members (a_uid account) jn (members s) (onInviteGroupMemberV3 gm account req) s"
proof -
  note frame = member_storeD(1) [OF store]
  show ?thesis
    unfolding onInviteGroupMemberV3_def
    by (intro ref_rules ref_getMemberRole [OF store] invite_checked_refines [OF store] ref_frame [OF frame] ref_calls [OF frame]
        refines_bind [OF still_for_until] still_bind [OF frame_rules(2) [OF frame]] still_return)
      (auto intro: member_step.stay simp: counted_def)
qed

lemma refines_then_still:
  assumes "refines members uid jn t m s" and "\<And>a. still members (f a)"
  shows "refines members uid jn t (State_Monad.bind m f) s"
  using assms by (simp add: refines_def wps_def still_def split_beta)

lemma review_insert_refines:
  assumes store: "member_store gm members" and s: "members s = t" and owner: "t gid (a_uid account) = Some ROLE_OWNER"
    and fresh: "\<forall>it \<in> set items. t gid (rj_uid it) = None"
  shows "refines members (a_uid account) jn t (review_insert gm account gid gr now items) s"
proof -
  note frame = member_storeD(1) [OF store]
  have step: "member_step (a_uid account) jn t (fold put_user (map (\<lambda>it. new_user gm gid (rj_uid it) ROLE_MEMBER (g_lastMid gr) now
      (rj_groupInfoSecret it) (rj_proof it)) items) t)"
    by (rule bring_step [where gid = gid and owner = "a_uid account"]) (use fresh owner in \<open>auto simp: counted_def\<close>)
  show ?thesis
    unfolding review_insert_def
    by (intro ref_rules refines_write [OF member_writesD(3) [OF store]] ref_frame [OF frame] ref_calls [OF frame]
        refines_bind [OF still_for_each] still_bind still_for_each still_calls [OF frame])
      (simp_all add: s member_step.stay step)
qed

lemma review_refines:
  assumes store: "member_store gm members"
  shows "refines members (a_uid account) jn (members s) (onReviewJoinRequestV3 gm account req) s"
proof -
  note frame = member_storeD(1) [OF store]
  show ?thesis
    unfolding onReviewJoinRequestV3_def
    by (intro ref_rules ref_getGroupOwner [OF store] ref_getMemberBatch [OF store] refines_then_still [OF review_insert_refines [OF store]]
        ref_frame [OF frame] ref_calls [OF frame] refines_bind_if refines_bind_return still_rules frame_rules [OF frame])
      (auto intro: member_step.stay)
qed

section \<open>The requests on groups\<close>

text \<open>The group a user may enter on its own with a request, without a check that the group has an owner.\<close>

fun joins :: "group_request \<Rightarrow> u64 option" where
  "joins (AddMe b) = Some (am_gid b)"
| "joins _ = None"

lemma refines_handle:
  assumes store: "member_store gm members"
  shows "refines members (a_uid account) (joins req) (members s) (handle gm account req) s"
proof -
  have map: "refines members uid jn t (map_state f m) s" if "refines members uid jn t m s" for f :: "answer \<Rightarrow> answer option" and m uid jn t
    using that by (simp add: refines_def wps_def state.map_sel split_beta)
  have still: "refines members (a_uid account) jn (members s) (map_state f m) s" if "still members m" for f :: "answer \<Rightarrow> answer option" and m jn
    by (rule refines_still [OF still_map_state [OF that] member_step.stay])
  note handlers = still_handlers [OF member_storeD(1) [OF store]]
  show ?thesis
    by (cases req)
      (simp_all add: map still handlers refines_still [OF handlers(6) member_step.stay] kick_refines [OF store] leave_refines [OF store]
        create_refines [OF store] add_me_refines [OF store] invite_refines [OF store] review_refines [OF store])
qed

lemma handle_step:
  "member_store gm members \<Longrightarrow> run_state (handle gm account req) s = (a, s')
    \<Longrightarrow> member_step (a_uid account) (joins req) (members s) (members s')"
  using refines_handle [of gm members account req s] by (simp add: refines_def wps_def)

text \<open>A group is in order when it has an owner, or no members left.\<close>

definition owned :: "(string \<Rightarrow> Role option) \<Rightarrow> bool" where
  "owned m \<longleftrightarrow> (\<exists>u. m u = Some ROLE_OWNER) \<or> (\<forall>u. m u \<notin> Some ` counted)"

lemma ownedI: "m u = Some ROLE_OWNER \<Longrightarrow> owned m"
  by (auto simp: owned_def)

lemma member_step_owned:
  assumes "member_step uid jn t t'" and "\<forall>gid. owned (t gid)" and "\<And>gid. jn = Some gid \<Longrightarrow> \<exists>u. t gid u = Some ROLE_OWNER"
  shows "owned (t' gid)"
  using assms(1)
proof (cases rule: member_step.cases)
  case (create g m)
  then show ?thesis using assms(2) by (cases "g = gid") (auto intro: ownedI)
next
  case (kick g K)
  then show ?thesis using assms(2) by (cases "g = gid") (auto intro: ownedI [where u = uid])
next
  case (leave g r)
  consider "g \<noteq> gid" | "g = gid" "r = ROLE_OWNER" | u where "g = gid" "r \<noteq> ROLE_OWNER" "t gid u = Some ROLE_OWNER"
    | "g = gid" "\<forall>u. t gid u \<notin> Some ` counted"
    using assms(2) unfolding owned_def by blast
  then show ?thesis
  proof cases
    case 1
    then show ?thesis using leave assms(2) by simp
  next
    case 2
    then show ?thesis using leave by (auto simp: owned_def members_of_def)
  next
    case 3
    then have "t' gid u = Some ROLE_OWNER" using leave by auto
    then show ?thesis by (rule ownedI)
  next
    case 4
    then show ?thesis using leave by (simp add: owned_def)
  qed
next
  case (hand_over g n)
  then show ?thesis using assms(2) by (cases "g = gid") (auto intro: ownedI [where u = n])
next
  case (hand_over_leave g n)
  then show ?thesis using assms(2) by (cases "g = gid") (auto intro: ownedI [where u = n])
next
  case (join g)
  then obtain u where "t g u = Some ROLE_OWNER" using assms(3) by blast
  then have "t' g u = Some ROLE_OWNER" using join by auto
  then show ?thesis using join assms(2) by (cases "g = gid") (auto intro: ownedI)
next
  case (bring g owner U)
  have "owner \<notin> U" using bring by (auto simp: counted_def)
  then show ?thesis using bring assms(2) by (cases "g = gid") (auto intro: ownedI [where u = owner])
qed (use assms(2) in simp)

section \<open>A database for the examples\<close>

text \<open>The state is the table itself; every call succeeds where it can.\<close>

definition demo_read :: "('s \<Rightarrow> 'a) \<Rightarrow> ('s, 'a) state" where
  "demo_read f = State (\<lambda>t. (f t, t))"

definition demo_write :: "('s \<Rightarrow> 's) \<Rightarrow> ('s, dao_code) state" where
  "demo_write f = State (\<lambda>t. (Dao_Success, f t))"

fun demo_no :: "Role \<Rightarrow> int" where
  "demo_no ROLE_UNDEFINE = 0"
| "demo_no ROLE_OWNER = 1"
| "demo_no ROLE_ADMINISTROR = 2"
| "demo_no ROLE_MEMBER = 3"
| "demo_no ROLE_SUBSCRIBER = 4"

definition role_in :: "member_table \<Rightarrow> u64 \<Rightarrow> string \<Rightarrow> Role" where
  "role_in t gid uid = (case t gid uid of None \<Rightarrow> ROLE_UNDEFINE | Some r \<Rightarrow> r)"

definition demo_counts :: "member_table \<Rightarrow> u64 \<Rightarrow> string \<Rightarrow> string \<Rightarrow> bool" where
  "demo_counts t gid uid n \<longleftrightarrow> finite (members_of t gid) \<and> card (members_of t gid) < 2 ^ 32
     \<and> t gid uid \<noteq> Some ROLE_UNDEFINE \<and> t gid n \<noteq> Some ROLE_UNDEFINE"

definition demo_gm :: "member_table GroupManager" where
  "demo_gm = \<lparr>gm_roleNo = demo_no, gm_oneForEach = 0, gm_allTheSame = 1, gm_unknown = 2, gm_broadcastOff = 0, gm_broadcastValid = (\<lambda>_. True),
     gm_encryptOn = 1, gm_statusDefault = 0, gm_typeMemberUpdate = 4, gm_typeSwitchGroupKeys = 6, gm_typeUpdateGroupKeysRequest = 7,
     gm_master = 1, gm_ios = 1, gm_android = 2, gm_multiDevice = 0, gm_needUpgrade = False, gm_powerGroupMin = 10, gm_powerGroupMax = 20,
     gm_normalGroupRefreshKeysMax = 30, gm_keySwitchCandidateCount = 2, gm_b64dec = id, gm_b64size = id, gm_decodePoint = Some,
     gm_verifySignature = (\<lambda>_ _ _. 1), gm_dump = (\<lambda>_. []), gm_parse = (\<lambda>_. None),
     gm_lexical = \<lparr>lx_u32 = (\<lambda>_. None), lx_u64 = (\<lambda>_. None), lx_i32 = (\<lambda>_. None), lx_i64 = (\<lambda>_. None)\<rparr>,
     gm_rand = unat, gm_keysBytes = dk_uid,
     gm_parseKeys = (\<lambda>t. Some \<lparr>dk_uid = t, dk_deviceId = 1, dk_registrationId = 0, dk_signedPreKey = SignedPreKey_new,
       dk_onetimeKey = \<lparr>ok_uid = [], ok_deviceId = 0, ok_keyId = 0, ok_publicKey = []\<rparr>, dk_identityKey = [], dk_accountPublicKey = [], dk_accountSignature = []\<rparr>),
     gm_joinReview = (\<lambda>_. []),
     gm_now = demo_read (\<lambda>_. 0), gm_acquireAccess = (\<lambda>_ _. demo_read (\<lambda>_. False)), gm_limited = (\<lambda>_ _. demo_read (\<lambda>_. False)),
     gm_getAccount = (\<lambda>uid. demo_read (\<lambda>_. (Dao_Success, Account_new\<lparr>a_uid := uid\<rparr>))),
     gm_getKeys = (\<lambda>_. demo_read (\<lambda>_. (Dao_NoSuchData, []))), gm_getKeysByGid = (\<lambda>_. demo_read (\<lambda>_. (Dao_NoSuchData, []))),
     gm_groups_create = (\<lambda>_. demo_read (\<lambda>t. if t 7 = Map.empty then (Dao_Success, 7) else (Dao_Error, 0))),
     gm_groups_get = (\<lambda>gid. demo_read (\<lambda>_. (Dao_Success, Group_new\<lparr>g_gid := gid, g_version := GroupV3\<rparr>))),
     gm_groups_update = (\<lambda>_ _. demo_read (\<lambda>_. Dao_Success)), gm_groups_del = (\<lambda>_. demo_read (\<lambda>_. Dao_Success)),
     gm_users_insert = (\<lambda>u. State (\<lambda>t. if t (gu_gid u) (gu_uid u) = None then (Dao_Success, put_user u t) else (Dao_Error, t))),
     gm_users_insertBatch = (\<lambda>us. demo_write (fold put_user us)),
     gm_users_getMemberRole = (\<lambda>gid uid. demo_read (\<lambda>t. case t gid uid of None \<Rightarrow> (Dao_NoSuchData, ROLE_UNDEFINE) | Some r \<Rightarrow> (Dao_Success, r))),
     gm_users_getMemberRoles = (\<lambda>gid rm. demo_read (\<lambda>t. (Dao_Success, map (\<lambda>e. (fst e, case t gid (fst e) of None \<Rightarrow> snd e | Some r \<Rightarrow> r)) rm))),
     gm_users_delMember = (\<lambda>gid uid. demo_write (\<lambda>t. t(gid := (t gid)(uid := None)))),
     gm_users_delMemberBatch = (\<lambda>gid uids. demo_write (\<lambda>t. t(gid := t gid |` (- set uids)))),
     gm_users_getMemberBatch = (\<lambda>gid uids. demo_read (\<lambda>t. (Dao_Success,
       map (\<lambda>u. GroupUser_new\<lparr>gu_gid := gid, gu_uid := u, gu_role := role_in t gid u\<rparr>) (filter (\<lambda>u. t gid u \<noteq> None) uids)))),
     gm_users_getJoinedGroups = (\<lambda>_. demo_read (\<lambda>_. (Dao_Success, [7]))),
     gm_users_getGroupOwner = (\<lambda>gid. demo_read (\<lambda>t. if t gid ''amy'' = Some ROLE_OWNER then (Dao_Success, ''amy'') else (Dao_NoSuchData, []))),
     gm_users_getMember = (\<lambda>gid uid. demo_read (\<lambda>t. (if t gid uid = None then Dao_NoSuchData else Dao_Success, GroupUser_new\<lparr>gu_role := role_in t gid uid\<rparr>))),
     gm_users_memberInfo = (\<lambda>_. demo_read (\<lambda>_. (Dao_Success, \<lparr>gc_owner = ''amy'', gc_memberCnt = 2, gc_subscriberCnt = 0\<rparr>))),
     gm_users_memberInfo2 = (\<lambda>gid uid n. demo_read (\<lambda>t. (if demo_counts t gid uid n then Dao_Success else Dao_Error,
       \<lparr>gc_owner = ''amy'', gc_memberCnt = word_of_nat (card (members_of t gid)), gc_subscriberCnt = 0\<rparr>, role_in t gid uid, role_in t gid n))),
     gm_users_updateRole = (\<lambda>gid uid r. demo_write (\<lambda>t. t(gid := (t gid)(uid \<mapsto> r)))),
     gm_keys_insert = (\<lambda>_. demo_read (\<lambda>_. Dao_Success)), gm_keys_get = (\<lambda>_ _. demo_read (\<lambda>_. (Dao_NoSuchData, []))),
     gm_keys_getLatestMode = (\<lambda>_. demo_read (\<lambda>_. (Dao_Success, 0))),
     gm_keys_getLatestModeAndVersion = (\<lambda>_. demo_read (\<lambda>_. (Dao_NoSuchData, 0, 0))),
     gm_keys_getLatestGroupKeys = (\<lambda>_. demo_read (\<lambda>_. (Dao_NoSuchData, []))), gm_keys_clear = (\<lambda>_. demo_read (\<lambda>_. Dao_Success)),
     gm_msgs_insert = (\<lambda>_. demo_read (\<lambda>_. (Dao_Success, 1))), gm_pending_set = (\<lambda>_. demo_read (\<lambda>_. Dao_Success)),
     gm_pending_del = (\<lambda>_ _. demo_read (\<lambda>_. Dao_Success)), gm_pending_clear = (\<lambda>_. demo_read (\<lambda>_. Dao_Success)),
     gm_qr_set = (\<lambda>_ _ _. demo_read (\<lambda>_. Dao_Success)), gm_qr_get = (\<lambda>_ _. demo_read (\<lambda>_. Dao_Success)),
     gm_cache_get = (\<lambda>_. demo_read (\<lambda>_. None)), gm_cache_set = (\<lambda>_ _. demo_read (\<lambda>_. True)),
     gm_publishUser = (\<lambda>_ _. demo_read (\<lambda>_. True)), gm_publishOnline = (\<lambda>_ _ _. demo_read (\<lambda>_. ())), gm_sleep = (\<lambda>_. demo_read (\<lambda>_. ())),
     gm_onlineMembers = (\<lambda>_. demo_read (\<lambda>_. []))\<rparr>"

lemma run_demo [simp]:
  "run_state (demo_read f) t = (f t, t)" "run_state (demo_write g) t = (Dao_Success, g t)"
  by (simp_all add: demo_read_def demo_write_def)

lemma still_demo [simp]: "still (\<lambda>t. t) (demo_read f)"
  by (simp add: still_def)

lemma demo_frame: "member_frame demo_gm (\<lambda>t. t)"
  by (simp add: member_frame_def demo_gm_def)

lemma demo_roles: "map_of (map (\<lambda>e. (fst e, case t gid (fst e) of None \<Rightarrow> snd e | Some r \<Rightarrow> r)) rm)
    = (\<lambda>u. if map_of rm u = None \<or> t gid u = None then map_of rm u else t gid u)" for t :: member_table
  by (induction rm) (auto split: option.splits)

lemma demo_reads: "member_reads demo_gm (\<lambda>t. t)"
  unfolding member_reads_def
proof (intro conjI)
  show "\<forall>gid rm ec rm' s s'. run_state (gm_users_getMemberRoles demo_gm gid rm) s = ((ec, rm'), s') \<longrightarrow> ec = Dao_Success \<or> ec = Dao_NoSuchData
      \<longrightarrow> map_of rm' = (\<lambda>u. if map_of rm u = None \<or> s gid u = None then map_of rm u else s gid u)"
    using demo_roles by (simp add: demo_gm_def)
qed (auto simp: demo_gm_def role_in_def demo_counts_def unat_of_nat image_image split: option.splits if_splits)

lemma demo_writes: "member_writes demo_gm (\<lambda>t. t)"
  by (auto simp: member_writes_def writes_def demo_gm_def)

lemma demo_store: "member_store demo_gm (\<lambda>t. t)"
  using demo_frame demo_reads demo_writes by (auto simp: member_store_def counted_def demo_gm_def)

definition demo_owner :: Account where
  "demo_owner = Account_new\<lparr>a_uid := ''amy''\<rparr>"

definition demo_table :: member_table where
  "demo_table = (\<lambda>_. Map.empty)(7 := [''amy'' \<mapsto> ROLE_OWNER, ''bob'' \<mapsto> ROLE_MEMBER])"

definition demo_kick :: group_request where
  "demo_kick = Kick \<lparr>kb_gid = 7, kb_members = [''bob'']\<rparr>"

lemmas demo_run_simps = pubGroupSystemMessage_def publishGroupUserEvent_def sendGroupKeysUpdateRequestWhenMemberChanges_def
  sendGroupKeysUpdateRequestWithRetry_def Let_def GroupV3_def

lemma demo_kick_run:
  "run_state (handle demo_gm demo_owner demo_kick) demo_table = (Some (Inr (204, None)), demo_table(7 := [''amy'' \<mapsto> ROLE_OWNER]))"
proof -
  have gone: "demo_table 7 |` (- {''bob''}) = [''amy'' \<mapsto> ROLE_OWNER]"
    by (auto simp: demo_table_def restrict_map_def fun_eq_iff)
  have [simp]: "demo_table 7 ''amy'' = Some ROLE_OWNER" "demo_table 7 ''bob'' = Some ROLE_MEMBER" by (simp_all add: demo_table_def)
  have "members_after 2 1 = 1" by (simp add: members_after_def)
  then show ?thesis
    by (simp add: demo_kick_def demo_owner_def demo_gm_def state.map_sel onKickGroupMemberV3_def KickGroupMemberBody_check_def member_uid_ok_def
        kMaxGroupCreateMemberCount_def kMaxGroupUidLength_def to_kick_def List.map_filter_def reply_def demo_run_simps gone)
qed

definition demo_joiner :: Account where
  "demo_joiner = Account_new\<lparr>a_uid := ''bob''\<rparr>"

definition demo_add :: group_request where
  "demo_add = AddMe \<lparr>am_gid = 7, am_groupInfoSecret = [], am_proof = []\<rparr>"

lemma demo_add_run:
  "run_state (handle demo_gm demo_joiner demo_add) (demo_table(7 := [''amy'' \<mapsto> ROLE_OWNER])) = (Some (Inr (200, None)), demo_table)"
proof -
  have same: "demo_table(7 := [''amy'' \<mapsto> ROLE_OWNER, ''bob'' \<mapsto> ROLE_MEMBER]) = demo_table"
    by (simp add: demo_table_def)
  show ?thesis
    by (simp add: demo_add_def demo_joiner_def demo_gm_def state.map_sel onAddMeRequstV3_def AddMeRequestV3_check_def kMaxGroupInfoSecretLength_def
        kMaxShareSignatureLength_def checkGroupVersion_def reply_def demo_run_simps put_user_def same)
qed

text \<open>The case the invariant leaves out: the last member of a group leaves it, and a user who was let in
  before adds itself. The group then has a member and no owner.\<close>

lemma add_me_without_owner:
  "snd (run_state (handle demo_gm demo_joiner demo_add) (\<lambda>_. Map.empty)) 7 = [''bob'' \<mapsto> ROLE_MEMBER]"
  by (simp add: demo_add_def demo_joiner_def demo_gm_def state.map_sel onAddMeRequstV3_def AddMeRequestV3_check_def kMaxGroupInfoSecretLength_def
      kMaxShareSignatureLength_def checkGroupVersion_def reply_def demo_run_simps put_user_def)


end
