(* ===== verification/Group_Key_Updates.thy ===== *)
theory Group_Key_Updates
  imports Group_Members
begin

text \<open>
  How the keys of a group are renewed: who may distribute new keys (the loop that selects candidates ends, and
  with how many), and the cache of device keys in Redis (what is written is read back).
\<close>

section \<open>The candidates\<close>

lemma take_masters_all: "take_masters master 0 us users = users @ filter (\<lambda>u. da_deviceid u = master) us"
  by (induction us arbitrary: users) auto

lemma next_candidate:
  assumes "distinct users" and "k < length users"
  shows "users ! ((i + k) mod length users) \<notin> (\<lambda>j. users ! ((i + j) mod length users)) ` {..<k}"
proof
  assume "users ! ((i + k) mod length users) \<in> (\<lambda>j. users ! ((i + j) mod length users)) ` {..<k}"
  then obtain j where "j < k" "users ! ((i + k) mod length users) = users ! ((i + j) mod length users)" by auto
  moreover have "m mod length users < length users" for m
    using assms(2) by (intro mod_less_divisor) auto
  ultimately have "(i + k) mod length users = (i + j) mod length users"
    using assms(1) by (simp add: nth_eq_iff_index_eq)
  then have "length users dvd (i + k) - (i + j)" using \<open>j < k\<close> by (simp add: mod_eq_dvd_iff_nat)
  then show False using \<open>j < k\<close> assms(2) by (auto dest: dvd_imp_le)
qed

text \<open>From the state after \<open>k\<close> main devices the loop goes on to the last candidate.\<close>

lemma candidates_loop_ends:
  assumes "distinct users" and "\<forall>u \<in> set users. da_deviceid u = master" and "count \<le> length users" and "k < count"
    and "set c = (\<lambda>j. users ! ((i + j) mod length users)) ` {..<k}" and "distinct c" and "length c = k"
  shows "\<exists>c'. candidates_loop master count users ((i + k) mod length users) c = Some c' \<and> distinct c' \<and> length c' = count \<and> set c' \<subseteq> set users"
  using assms(4-7)
proof (induction "count - k" arbitrary: k c)
  case 0
  then show ?case by simp
next
  case (Suc d)
  let ?n = "length users" and ?u = "users ! ((i + k) mod length users)"
  have k: "k < ?n" using Suc.prems(1) assms(3) by simp
  then have idx: "m mod ?n < ?n" for m by (intro mod_less_divisor) auto
  have new: "?u \<notin> set c" using next_candidate [OF assms(1) k] Suc.prems(2) by simp
  have master: "da_deviceid ?u = master" using assms(2) idx by simp
  have nxt: "((i + k) mod ?n + 1) mod ?n = (i + Suc k) mod ?n" by (simp add: mod_Suc_eq)
  show ?case
  proof (cases "Suc k < count")
    case True
    have "set (?u # c) = (\<lambda>j. users ! ((i + j) mod ?n)) ` {..<Suc k}" using Suc.prems(2) by (simp add: lessThan_Suc)
    moreover have "d = count - Suc k" using Suc.hyps(2) by simp
    moreover have "distinct (?u # c)" "length (?u # c) = Suc k" using Suc.prems new by simp_all
    ultimately obtain c' where "candidates_loop master count users ((i + Suc k) mod ?n) (?u # c) = Some c'"
      "distinct c'" "length c' = count" "set c' \<subseteq> set users"
      using Suc.hyps(1) [OF _ True] by blast
    then show ?thesis
      using True Suc.prems new master nxt by (simp add: candidates_loop.simps [of _ _ _ "(i + k) mod ?n"] Let_def)
  next
    case False
    have "set c \<subseteq> set users" using Suc.prems(2) idx by auto
    then show ?thesis
      using False Suc.prems new master idx by (simp add: candidates_loop.simps [of _ _ _ "(i + k) mod ?n"] Let_def)
  qed
qed

text \<open>C21. The selection of the members who may distribute new keys always ends: whatever the seed, it gives
  distinct main devices of members that are connected, as many as configured, or all there are. (The loop
  itself does not end when it meets another device; the service gives it main devices only.)\<close>

theorem candidates_selected:
  assumes "run_state (gm_onlineMembers gm gid) s = (online, s')" and "distinct online"
  shows "\<exists>c. run_state (selectKeyDistributionCandidates gm gid seed count) s = (Some c, if count = 0 then s else s')
    \<and> distinct c \<and> set c \<subseteq> {u \<in> set online. da_deviceid u = gm_master gm}
    \<and> length c = min count (length (filter (\<lambda>u. da_deviceid u = gm_master gm) online))"
proof -
  define users where "users = filter (\<lambda>u. da_deviceid u = gm_master gm) online"
  have users: "distinct users" "\<forall>u \<in> set users. da_deviceid u = gm_master gm" "set users = {u \<in> set online. da_deviceid u = gm_master gm}"
    using assms(2) by (auto simp: users_def)
  show ?thesis
  proof (cases "count = 0 \<or> length users \<le> count")
    case True
    then show ?thesis
      using users(1) assms(1)
      by (auto simp: selectKeyDistributionCandidates_def getLocalOnlineGroupMembers_def take_masters_all users_def [symmetric] users(3) [symmetric]
          distinct_remdups_id)
  next
    case False
    then obtain c where "candidates_loop (gm_master gm) count users (gm_rand gm seed mod length users) [] = Some c"
      "distinct c" "length c = count" "set c \<subseteq> set users"
      using candidates_loop_ends [OF users(1,2), of count 0 "[]" "gm_rand gm seed"] by auto
    then show ?thesis
      using False assms(1) users(3)
      by (auto simp: selectKeyDistributionCandidates_def getLocalOnlineGroupMembers_def take_masters_all users_def [symmetric])
  qed
qed

text \<open>A device that is not a main device at the index stops the loop for good.\<close>

lemma candidates_loop_stuck:
  assumes "da_deviceid (users ! index) \<noteq> master" and "length c < count"
  shows "candidates_loop master count users index c = None"
proof (rule ccontr)
  assume "candidates_loop master count users index c \<noteq> None"
  then obtain c' where "candidates_loop master count users index c = Some c'" by auto
  then have "da_deviceid (users ! index) \<noteq> master \<longrightarrow> \<not> length c < count"
    by (rule candidates_loop.raw_induct [rotated]) (auto simp: Let_def split: if_splits)
  then show False using assms by simp
qed

section \<open>The cache of device keys\<close>

lemma length_le32 [simp]: "length (le32 n) = 4" "le32 n \<noteq> []"
  by (simp_all add: le32_def)

lemma read_le32: "n < 2 ^ 32 \<Longrightarrow> read_le32 (le32 n @ t) = n"
proof -
  assume n: "n < 2 ^ 32"
  have "read_le32 (le32 n @ t) = n mod 256 + n div 256 mod 256 * 256 + n div 65536 mod 256 * 65536 + n div 16777216 mod 256 * 16777216"
    by (simp add: read_le32_def le32_def of_char_of nth_Cons')
  also have "\<dots> = n"
  proof -
    have a: "n div 65536 = n div 256 div 256" "n div 16777216 = n div 256 div 256 div 256" by (simp_all add: div_mult2_eq [symmetric])
    have "n div 256 div 256 div 256 < 256" using n by (simp add: div_mult2_eq [symmetric] less_mult_imp_div_less)
    then have c: "n div 256 div 256 div 256 mod 256 = n div 256 div 256 div 256" by simp
    have sum: "r0 + r1 * 256 + r2 * 65536 + c * 16777216 = n" if "a * 256 + r0 = n" "b * 256 + r1 = a" "c * 256 + r2 = b" for a b c r0 r1 r2 :: nat
      using that by auto
    show ?thesis unfolding a c by (rule sum [OF div_mult_mod_eq div_mult_mod_eq div_mult_mod_eq])
  qed
  finally show ?thesis .
qed

lemma KeysCache_deserialize_serialize:
  assumes "\<And>k. k \<in> set keys \<Longrightarrow> gm_parseKeys gm (gm_keysBytes gm k) = Some k \<and> length (gm_keysBytes gm k) < 2 ^ 32"
  shows "KeysCache_deserialize gm (concat (map (\<lambda>k. le32 (length (gm_keysBytes gm k)) @ gm_keysBytes gm k) keys)) acc = Inr (True, acc @ keys)"
  using assms
proof (induction keys arbitrary: acc)
  case Nil
  then show ?case by (simp add: KeysCache_deserialize.simps)
next
  case (Cons k keys)
  have "KeysCache_deserialize gm (concat (map (\<lambda>k. le32 (length (gm_keysBytes gm k)) @ gm_keysBytes gm k) keys)) (acc @ [k])
      = Inr (True, (acc @ [k]) @ keys)"
    using Cons by simp
  then show ?case
    using Cons.prems [of k] by (subst KeysCache_deserialize.simps) (auto simp: read_le32 Let_def)
qed

text \<open>C33. The keys cache reads back what was written: the serialized keys of the devices of a group, read
  again, are the same keys in the same order, and no byte behind the end of the value is touched (given that a
  key survives its protocol buffer encoding).\<close>

theorem keys_cache_roundtrip:
  assumes "\<And>k. k \<in> set keys \<Longrightarrow> gm_parseKeys gm (gm_keysBytes gm k) = Some k \<and> length (gm_keysBytes gm k) < 2 ^ 32"
    and "KeysCache_serialize gm keys = Some t"
  shows "KeysCache_deserialize gm t [] = Inr (True, keys)"
proof -
  have "t = concat (map (\<lambda>k. le32 (length (gm_keysBytes gm k)) @ gm_keysBytes gm k) keys)"
    using assms(2) by (simp add: KeysCache_serialize_def split: if_splits)
  then show ?thesis using KeysCache_deserialize_serialize [of keys gm "[]"] assms(1) by simp
qed

section \<open>Examples\<close>

definition demo_online :: "DispatchAddress list" where
  "demo_online = [\<lparr>da_uid = ''amy'', da_deviceid = 1\<rparr>, \<lparr>da_uid = ''amy'', da_deviceid = 2\<rparr>,
     \<lparr>da_uid = ''bob'', da_deviceid = 1\<rparr>, \<lparr>da_uid = ''eve'', da_deviceid = 1\<rparr>]"

theorem candidates_selected_witness:
  "\<exists>c. run_state (selectKeyDistributionCandidates (demo_gm\<lparr>gm_onlineMembers := (\<lambda>_. demo_read (\<lambda>_. demo_online))\<rparr>) 7 5 2) demo_table = (Some c, demo_table)
    \<and> distinct c \<and> length c = 2 \<and> \<lparr>da_uid = ''amy'', da_deviceid = 2\<rparr> \<notin> set c"
proof -
  let ?gm = "demo_gm\<lparr>gm_onlineMembers := (\<lambda>_. demo_read (\<lambda>_. demo_online))\<rparr>"
  have "run_state (gm_onlineMembers ?gm 7) demo_table = (demo_online, demo_table)" "distinct demo_online" by (simp_all add: demo_online_def)
  from candidates_selected [OF this, of 5 2] obtain c where
    "run_state (selectKeyDistributionCandidates ?gm 7 5 2) demo_table = (Some c, demo_table)" "distinct c"
    "set c \<subseteq> {u \<in> set demo_online. da_deviceid u = gm_master ?gm}"
    "length c = min 2 (length (filter (\<lambda>u. da_deviceid u = gm_master ?gm) demo_online))" by auto
  then show ?thesis by (intro exI [of _ c]) (auto simp: demo_gm_def demo_online_def)
qed

definition demo_keys :: "DeviceKeys list" where
  "demo_keys = List.map_filter (gm_parseKeys demo_gm) [''amy'', ''bob'']"

theorem keys_cache_roundtrip_witness:
  "\<exists>t. KeysCache_serialize demo_gm demo_keys = Some t \<and> length demo_keys = 2 \<and> KeysCache_deserialize demo_gm t [] = Inr (True, demo_keys)"
proof -
  obtain t where t: "KeysCache_serialize demo_gm demo_keys = Some t" "length demo_keys = 2"
    by (simp add: KeysCache_serialize_def demo_keys_def demo_gm_def List.map_filter_def)
  have "gm_parseKeys demo_gm (gm_keysBytes demo_gm k) = Some k \<and> length (gm_keysBytes demo_gm k) < 2 ^ 32" if "k \<in> set demo_keys" for k
    using that by (auto simp: demo_keys_def demo_gm_def List.map_filter_def)
  from keys_cache_roundtrip [OF this t(1)] show ?thesis using t by blast
qed


end
