(* ===== verification/Fifo_Cache.thy ===== *)
theory Fifo_Cache
  imports Bcm_Prelude
begin

text \<open>
  \<open>src/dao/dao_cache/fifo_cache.h\<close>: the cache in front of the database. Values are kept by key
  until the sum of their sizes passes the limit; then the oldest are dropped. The keys stand in a list in the
  order in which they came. \<open>bytes\<close> is \<open>ByteSizeLong\<close> of a value.
\<close>

record ('k, 'v) FIFOCache =
  fc_limit :: u64
  fc_size :: u64
  fc_caches :: "'k \<rightharpoonup> 'v"
  fc_sequence :: "'k list"

definition FIFOCache_new :: "u64 \<Rightarrow> ('k, 'v) FIFOCache" where
  "FIFOCache_new limit = \<lparr>fc_limit = limit, fc_size = 0, fc_caches = Map.empty, fc_sequence = []\<rparr>"

definition fc_clear :: "('k, 'v) FIFOCache \<Rightarrow> ('k, 'v) FIFOCache" where
  "fc_clear c = c\<lparr>fc_caches := Map.empty, fc_sequence := [], fc_size := 0\<rparr>"

text \<open>The loop that makes room for a value of \<open>n\<close> bytes: it drops from the front of the list
  until there is room, and drops everything when it finds that the size or the list is wrong.\<close>

function fc_evict :: "('v \<Rightarrow> u64) \<Rightarrow> u64 \<Rightarrow> ('k, 'v) FIFOCache \<Rightarrow> ('k, 'v) FIFOCache" where
  "fc_evict bytes n c =
     (case fc_sequence c of
        [] \<Rightarrow> c
      | k # ks \<Rightarrow>
          (case fc_caches c k of
             None \<Rightarrow> fc_clear c
           | Some v \<Rightarrow>
               (let s = bytes v;
                    c1 = c\<lparr>fc_sequence := ks, fc_caches := (fc_caches c)(k := None)\<rparr>;
                    c2 = (if fc_size c1 < s then fc_clear c1 else c1\<lparr>fc_size := fc_size c1 - s\<rparr>)
                in if n + fc_size c2 \<le> fc_limit c2 then c2 else fc_evict bytes n c2)))"
  by pat_completeness auto
termination
  by (relation "measure (\<lambda>(bytes, n, c). length (fc_sequence c))") (auto simp: Let_def fc_clear_def split: if_splits)

declare fc_evict.simps [simp del]

definition FIFOCache_set :: "('v \<Rightarrow> u64) \<Rightarrow> 'k \<Rightarrow> 'v \<Rightarrow> ('k, 'v) FIFOCache \<Rightarrow> bool \<times> ('k, 'v) FIFOCache" where
  "FIFOCache_set bytes key v c =
     (let n = bytes v
      in if fc_limit c < n then (False, c)
         else if fc_caches c key \<noteq> None then (True, c)
         else let c1 = (if fc_limit c < n + fc_size c then fc_evict bytes n c else c)
              in (True, c1\<lparr>fc_caches := (fc_caches c1)(key \<mapsto> v), fc_sequence := fc_sequence c1 @ [key], fc_size := fc_size c1 + n\<rparr>))"

definition FIFOCache_get :: "'k \<Rightarrow> ('k, 'v) FIFOCache \<Rightarrow> 'v option" where
  "FIFOCache_get key c = fc_caches c key"

section \<open>The invariant\<close>

text \<open>The list has every cached key once, and the size is the sum of the sizes. The sum of two sizes within
  the limit does not wrap.\<close>

definition total :: "('v \<Rightarrow> u64) \<Rightarrow> ('k \<rightharpoonup> 'v) \<Rightarrow> 'k list \<Rightarrow> nat" where
  "total bytes m ks = (\<Sum>k \<leftarrow> ks. unat (bytes (the (m k))))"

definition fc_inv :: "('v \<Rightarrow> u64) \<Rightarrow> ('k, 'v) FIFOCache \<Rightarrow> bool" where
  "fc_inv bytes c \<longleftrightarrow> distinct (fc_sequence c) \<and> set (fc_sequence c) = dom (fc_caches c)
     \<and> unat (fc_size c) = total bytes (fc_caches c) (fc_sequence c) \<and> fc_size c \<le> fc_limit c \<and> 2 * unat (fc_limit c) < 2 ^ 64"

lemma total_Cons [simp]: "total bytes m (k # ks) = unat (bytes (the (m k))) + total bytes m ks"
  and total_snoc: "total bytes m (ks @ [k]) = total bytes m ks + unat (bytes (the (m k)))"
  and total_Nil [simp]: "total bytes m [] = 0"
  by (simp_all add: total_def)

lemma total_upd [simp]: "k \<notin> set ks \<Longrightarrow> total bytes (m(k := x)) ks = total bytes m ks"
  by (induction ks) (auto simp: total_def)

lemma fc_inv_new: "2 * unat limit < 2 ^ 64 \<Longrightarrow> fc_inv bytes (FIFOCache_new limit)"
  by (simp add: fc_inv_def FIFOCache_new_def)

text \<open>Dropping the oldest value keeps the invariant; the branches for a wrong list or size are not taken.\<close>

lemma fc_drop:
  assumes "fc_inv bytes c" and "fc_sequence c = k # ks"
  obtains v where "fc_caches c k = Some v" "\<not> fc_size c < bytes v"
    "fc_inv bytes (c\<lparr>fc_sequence := ks, fc_caches := (fc_caches c)(k := None), fc_size := fc_size c - bytes v\<rparr>)"
proof -
  have "k \<in> dom (fc_caches c)" using assms by (auto simp: fc_inv_def)
  then obtain v where v: "fc_caches c k = Some v" by auto
  have sum: "unat (fc_size c) = unat (bytes v) + total bytes (fc_caches c) ks" using assms v by (simp add: fc_inv_def)
  then have le: "bytes v \<le> fc_size c" by (simp add: word_le_nat_alt)
  then have "unat (fc_size c - bytes v) = total bytes (fc_caches c) ks" using sum by (simp add: unat_sub)
  moreover have "fc_size c - bytes v \<le> fc_limit c"
    using assms(1) le calculation sum by (simp add: fc_inv_def word_le_nat_alt)
  moreover have "k \<notin> set ks" "set ks = dom (fc_caches c) - {k}" using assms by (auto simp: fc_inv_def)
  ultimately have "fc_inv bytes (c\<lparr>fc_sequence := ks, fc_caches := (fc_caches c)(k := None), fc_size := fc_size c - bytes v\<rparr>)"
    using assms by (auto simp: fc_inv_def)
  with v le that show ?thesis by (simp add: not_less)
qed

text \<open>The loop keeps the invariant, makes room, and what it leaves is the end of the list with its values:
  the oldest go first.\<close>

lemma fc_evict_spec:
  assumes "fc_inv bytes c" and "n \<le> fc_limit c" and "fc_limit c < n + fc_size c"
  shows "fc_inv bytes (fc_evict bytes n c) \<and> fc_limit (fc_evict bytes n c) = fc_limit c
    \<and> n + fc_size (fc_evict bytes n c) \<le> fc_limit c
    \<and> (\<exists>d. d \<noteq> [] \<and> fc_sequence c = d @ fc_sequence (fc_evict bytes n c)
         \<and> fc_caches (fc_evict bytes n c) = fc_caches c |` (- set d))"
  using assms
proof (induction "length (fc_sequence c)" arbitrary: c)
  case 0
  then have "fc_size c = 0" by (simp add: fc_inv_def unat_eq_zero)
  with 0 show ?case by (simp add: not_less)
next
  case (Suc l)
  then obtain k ks where seq: "fc_sequence c = k # ks" by (metis length_Suc_conv)
  from fc_drop [OF Suc.prems(1) seq] obtain v where v: "fc_caches c k = Some v" "\<not> fc_size c < bytes v"
    and inv: "fc_inv bytes (c\<lparr>fc_sequence := ks, fc_caches := (fc_caches c)(k := None), fc_size := fc_size c - bytes v\<rparr>)" (is "fc_inv _ ?c")
    by metis
  have step: "fc_evict bytes n c = (if n + fc_size ?c \<le> fc_limit c then ?c else fc_evict bytes n ?c)"
    using seq v by (subst fc_evict.simps) (simp add: Let_def)
  have one: "fc_caches ?c = fc_caches c |` (- {k})" by (auto simp: restrict_map_def)
  show ?case
  proof (cases "n + fc_size ?c \<le> fc_limit c")
    case True
    then show ?thesis using step inv seq one by (auto intro!: exI [of _ "[k]"])
  next
    case False
    then have "fc_limit ?c < n + fc_size ?c" by (simp add: not_le)
    from Suc.hyps(1) [of ?c, OF _ inv _ this] Suc.hyps(2) Suc.prems seq
    obtain d where IH: "fc_inv bytes (fc_evict bytes n ?c)" "fc_limit (fc_evict bytes n ?c) = fc_limit c"
      "n + fc_size (fc_evict bytes n ?c) \<le> fc_limit c" "ks = d @ fc_sequence (fc_evict bytes n ?c)"
      "fc_caches (fc_evict bytes n ?c) = fc_caches ?c |` (- set d)" by auto
    have "fc_caches ?c |` (- set d) = fc_caches c |` (- set (k # d))" by (auto simp: one restrict_map_def)
    then show ?thesis using IH step False seq by (auto intro!: exI [of _ "k # d"])
  qed
qed

lemma fc_push:
  assumes "fc_inv bytes c" and "fc_caches c key = None" and "bytes v + fc_size c \<le> fc_limit c" and "bytes v \<le> fc_limit c"
  shows "fc_inv bytes (c\<lparr>fc_caches := (fc_caches c)(key \<mapsto> v), fc_sequence := fc_sequence c @ [key], fc_size := fc_size c + bytes v\<rparr>)"
proof -
  have "unat (fc_size c) + unat (bytes v) < 2 ^ LENGTH(64)" using assms by (simp add: fc_inv_def word_le_nat_alt)
  then have "unat (fc_size c + bytes v) = unat (fc_size c) + unat (bytes v)" by (rule unat_add_lem [THEN iffD1])
  moreover have "key \<notin> set (fc_sequence c)" using assms by (auto simp: fc_inv_def)
  moreover have "insert key (set (fc_sequence c)) = dom ((fc_caches c)(key \<mapsto> v))" using assms(1) by (auto simp: fc_inv_def)
  ultimately show ?thesis using assms by (simp add: fc_inv_def total_snoc add.commute)
qed

lemma fc_set_spec:
  assumes inv: "fc_inv bytes c"
  shows "fc_inv bytes (snd (FIFOCache_set bytes key v c)) \<and> fc_limit (snd (FIFOCache_set bytes key v c)) = fc_limit c
    \<and> (bytes v \<le> fc_limit c \<and> fc_caches c key = None \<longrightarrow>
         fst (FIFOCache_set bytes key v c) \<and>
         (\<exists>d rest. fc_sequence c = d @ rest \<and> fc_sequence (snd (FIFOCache_set bytes key v c)) = rest @ [key]
            \<and> (d = [] \<longleftrightarrow> bytes v + fc_size c \<le> fc_limit c)
            \<and> fc_caches (snd (FIFOCache_set bytes key v c)) = (fc_caches c |` (- set d))(key \<mapsto> v)))"
proof (cases "fc_limit c < bytes v \<or> fc_caches c key \<noteq> None")
  case True
  then have "snd (FIFOCache_set bytes key v c) = c" by (elim disjE) (simp_all add: FIFOCache_set_def Let_def)
  moreover have "\<not> (bytes v \<le> fc_limit c \<and> fc_caches c key = None)" using True by (simp only: not_le de_Morgan_conj)
  ultimately show ?thesis using inv by (simp only: if_False simp_thms)
next
  case False
  then have fits: "bytes v \<le> fc_limit c" and big: "\<not> fc_limit c < bytes v" and new: "fc_caches c key = None" by (auto simp: not_less)
  show ?thesis
  proof (cases "fc_limit c < bytes v + fc_size c")
    case True
    let ?e = "fc_evict bytes (bytes v) c"
    from fc_evict_spec [OF inv fits True] obtain d where e: "fc_inv bytes ?e"
      "fc_limit ?e = fc_limit c" "bytes v + fc_size ?e \<le> fc_limit c" "d \<noteq> []" "fc_sequence c = d @ fc_sequence ?e"
      "fc_caches ?e = fc_caches c |` (- set d)" by blast
    have set: "FIFOCache_set bytes key v c = (True, ?e\<lparr>fc_caches := (fc_caches ?e)(key \<mapsto> v), fc_sequence := fc_sequence ?e @ [key], fc_size := fc_size ?e + bytes v\<rparr>)"
      using True big new by (simp add: FIFOCache_set_def Let_def)
    have "fc_caches ?e key = None" using e(6) new by (simp add: restrict_map_def)
    from fc_push [OF e(1) this] e(2,3) fits have "fc_inv bytes (snd (FIFOCache_set bytes key v c))" by (simp add: set)
    then show ?thesis using e True
      by (intro conjI impI exI [of _ d] exI [of _ "fc_sequence ?e"]) (simp_all add: set flip: not_le)
  next
    case False
    then have set: "FIFOCache_set bytes key v c = (True, c\<lparr>fc_caches := (fc_caches c)(key \<mapsto> v), fc_sequence := fc_sequence c @ [key], fc_size := fc_size c + bytes v\<rparr>)"
      using big new by (simp add: FIFOCache_set_def Let_def)
    from fc_push [OF inv new _ fits] False have "fc_inv bytes (snd (FIFOCache_set bytes key v c))" by (simp add: set not_less)
    then show ?thesis using False
      by (intro conjI impI) (simp, simp add: set, simp add: set,
        rule exI [of _ "[]"], rule exI [of _ "fc_sequence c"], simp add: set not_less fun_eq_iff restrict_map_def)
  qed
qed

fun fc_sets :: "('v \<Rightarrow> u64) \<Rightarrow> ('k \<times> 'v) list \<Rightarrow> ('k, 'v) FIFOCache \<Rightarrow> ('k, 'v) FIFOCache" where
  "fc_sets bytes [] c = c"
| "fc_sets bytes ((k, v) # xs) c = fc_sets bytes xs (snd (FIFOCache_set bytes k v c))"

lemma fc_sets_inv: "fc_inv bytes c \<Longrightarrow> fc_inv bytes (fc_sets bytes xs c) \<and> fc_limit (fc_sets bytes xs c) = fc_limit c"
proof (induction xs arbitrary: c)
  case (Cons x xs)
  obtain k v where x: "x = (k, v)" by (cases x)
  note s = fc_set_spec [OF Cons.prems, of k v]
  then show ?case using Cons.IH [of "snd (FIFOCache_set bytes k v c)"] by (simp add: x)
qed simp

text \<open>C34. After any sequence of writes to a new cache whose limit is below half the range of the counter,
  the values kept take no more than the limit, and the counter has exactly their size, so the branches for
  a corrupted cache are never taken. A next write of a new key that fits is read back; it drops only from the front of the
  order of arrival, and drops nothing when there is room.\<close>

theorem fifo_cache_bounded:
  assumes "2 * unat limit < 2 ^ 64" and "c = fc_sets bytes xs (FIFOCache_new limit)"
  shows "(\<Sum>k \<leftarrow> fc_sequence c. unat (bytes (the (FIFOCache_get k c)))) = unat (fc_size c) \<and> unat (fc_size c) \<le> unat limit
    \<and> distinct (fc_sequence c) \<and> set (fc_sequence c) = dom (\<lambda>k. FIFOCache_get k c)
    \<and> (bytes v \<le> limit \<and> FIFOCache_get key c = None \<longrightarrow>
         (\<exists>c' d rest. FIFOCache_set bytes key v c = (True, c') \<and> fc_sequence c = d @ rest \<and> fc_sequence c' = rest @ [key]
            \<and> (d = [] \<longleftrightarrow> bytes v + fc_size c \<le> limit) \<and> FIFOCache_get key c' = Some v
            \<and> (\<forall>k. k \<noteq> key \<longrightarrow> FIFOCache_get k c' = (if k \<in> set d then None else FIFOCache_get k c))))"
proof -
  have lim: "fc_limit c = limit" and inv: "fc_inv bytes c"
    using fc_sets_inv [OF fc_inv_new [OF assms(1), of bytes], of xs] assms(2) by (auto simp: FIFOCache_new_def)
  have "bytes v \<le> limit \<Longrightarrow> FIFOCache_get key c = None \<Longrightarrow>
         (\<exists>c' d rest. FIFOCache_set bytes key v c = (True, c') \<and> fc_sequence c = d @ rest \<and> fc_sequence c' = rest @ [key]
            \<and> (d = [] \<longleftrightarrow> bytes v + fc_size c \<le> limit) \<and> FIFOCache_get key c' = Some v
            \<and> (\<forall>k. k \<noteq> key \<longrightarrow> FIFOCache_get k c' = (if k \<in> set d then None else FIFOCache_get k c)))"
    using fc_set_spec [OF inv, of key v] lim
    by (cases "FIFOCache_set bytes key v c") (fastforce simp: FIFOCache_get_def restrict_map_def)
  then show ?thesis using inv lim by (simp add: fc_inv_def total_def FIFOCache_get_def word_le_nat_alt)
qed

theorem fifo_cache_bounded_witness:
  "\<exists>c' :: (nat, nat) FIFOCache. FIFOCache_set of_nat 3 5 (fc_sets of_nat [(1, 4), (2, 4)] (FIFOCache_new 10)) = (True, c')
     \<and> FIFOCache_get 3 c' = Some 5 \<and> FIFOCache_get 1 c' = None \<and> FIFOCache_get 2 c' = Some 4"
proof -
  let ?c = "fc_sets of_nat [(1 :: nat, 4 :: nat), (2, 4)] (FIFOCache_new 10)"
  have c: "fc_sequence ?c = [1, 2]" "fc_size ?c = 8" "fc_caches ?c = [1 \<mapsto> 4, 2 \<mapsto> 4]"
    by (simp_all add: FIFOCache_new_def FIFOCache_set_def Let_def)
  from fifo_cache_bounded [of 10 ?c of_nat "[(1, 4), (2, 4)]" 5 3] c
  obtain c' d rest where w: "FIFOCache_set of_nat 3 5 ?c = (True, c')" "[1, 2] = d @ rest" "fc_sequence c' = rest @ [3]"
    "d \<noteq> []" "FIFOCache_get 3 c' = Some 5" by (auto simp: FIFOCache_get_def)
  have "c' = snd (FIFOCache_set of_nat 3 5 ?c)" using w(1) by simp
  also have "\<dots> = \<lparr>fc_limit = 10, fc_size = 9, fc_caches = [2 \<mapsto> 4, 3 \<mapsto> 5], fc_sequence = [2, 3]\<rparr>"
    by (simp add: FIFOCache_new_def FIFOCache_set_def Let_def fc_evict.simps fun_upd_def fun_eq_iff)
  finally show ?thesis using w by (simp add: FIFOCache_get_def)
qed

end
