(* ===== verification/Group_Entities_V2.thy ===== *)
theory Group_Entities_V2
  imports Group_Entities
begin

text \<open>
  The requests and answers of versions 1 and 2 of the group controller
  (\<open>src/controllers/group_manager_entities.h\<close> and \<open>.cpp\<close>, \<open>group_common_entities.h\<close>),
  with the same conventions as \<open>Group_Entities\<close>. These versions answer with a \<open>GroupResponse\<close>, an
  error code of their own beside the HTTP status; the checks fill it in when they fail.
\<close>

section \<open>Answers\<close>

datatype group_error =
    ERRORCODE_SUCCESS | ERRORCODE_PARAM_INCORRECT | ERRORCODE_INTERNAL_ERROR | ERRORCODE_NO_PERMISSION
  | ERRORCODE_NOT_FIND_USER | ERRORCODE_NO_SUCH_DATA | ERRORCODE_FORBIDDEN | ERRORCODE_UPGRADE_REQUIRED | ERRORCODE_NO_NEED

fun error_no :: "group_error \<Rightarrow> int" where
  "error_no ERRORCODE_SUCCESS = 0"
| "error_no ERRORCODE_PARAM_INCORRECT = 110001"
| "error_no ERRORCODE_INTERNAL_ERROR = 110002"
| "error_no ERRORCODE_NO_PERMISSION = 110003"
| "error_no ERRORCODE_NOT_FIND_USER = 110004"
| "error_no ERRORCODE_NO_SUCH_DATA = 11005"
| "error_no ERRORCODE_FORBIDDEN = 11006"
| "error_no ERRORCODE_UPGRADE_REQUIRED = 11007"
| "error_no ERRORCODE_NO_NEED = 110085"

record GroupResponse =
  gr_code :: group_error
  gr_msg :: string
  gr_result :: json

definition GroupResponse_new :: "group_error \<Rightarrow> string \<Rightarrow> GroupResponse" where
  "GroupResponse_new code msg = \<lparr>gr_code = code, gr_msg = msg, gr_result = JObject []\<rparr>"

definition GroupResponse_to_json :: "GroupResponse \<Rightarrow> json" where
  "GroupResponse_to_json r =
     jobj [(''error_code'', JInt (error_no (gr_code r))), (''error_msg'', JString (gr_msg r)), (''result'', gr_result r)]"

text \<open>The checks: the first condition that fails gives the message.\<close>

fun first_failed :: "(bool \<times> string) list \<Rightarrow> string option" where
  "first_failed [] = None"
| "first_failed ((bad, msg) # cs) = (if bad then Some msg else first_failed cs)"

definition limit_msg :: "string \<Rightarrow> nat \<Rightarrow> string" where
  "limit_msg t n = t @ to_dec n"

lemma first_failed_None: "first_failed cs = None \<longleftrightarrow> (\<forall>c \<in> set cs. \<not> fst c)"
  by (induction cs rule: first_failed.induct) auto

declare first_failed.simps [simp del]

section \<open>Creating a group and inviting\<close>

record CreateGroupBodyV2 =
  c2_name :: string
  c2_icon :: string
  c2_intro :: string
  c2_broadcast :: int
  c2_ownerKey :: string
  c2_ownerSecretKey :: string
  c2_members :: "string list"
  c2_membersGroupInfoSecrets :: "string list"
  c2_memberKeys :: "string list"
  c2_ownerNickname :: string
  c2_ownerProfileKeys :: string
  c2_qrCodeSetting :: string
  c2_ownerConfirm :: int
  c2_shareSignature :: string
  c2_shareAndOwnerConfirmSignature :: string

definition CreateGroupBodyV2_from_json :: "Lexical \<Rightarrow> json \<Rightarrow> CreateGroupBodyV2 option" where
  "CreateGroupBodyV2_from_json lx j = do {
     name \<leftarrow> toString j ''name'' OPTIONAL [];
     icon \<leftarrow> toString j ''icon'' OPTIONAL [];
     intro \<leftarrow> toString j ''intro'' REQUIRE [];
     broadcast \<leftarrow> to_int32 lx j ''broadcast'' REQUIRE 0;
     ownerKey \<leftarrow> toString j ''owner_key'' OPTIONAL [];
     ownerSecretKey \<leftarrow> toString j ''owner_group_info_secret'' OPTIONAL [];
     members \<leftarrow> toGeneric (get_list get_string) j ''members'' REQUIRE [];
     secrets \<leftarrow> toGeneric (get_list get_string) j ''member_group_info_secrets'' OPTIONAL [];
     memberKeys \<leftarrow> toGeneric (get_list get_string) j ''member_keys'' OPTIONAL [];
     ownerNickname \<leftarrow> toString j ''owner_nickname'' OPTIONAL [];
     ownerProfileKeys \<leftarrow> toString j ''owner_profile_keys'' OPTIONAL [];
     qrCodeSetting \<leftarrow> toString j ''share_qr_code_setting'' REQUIRE [];
     ownerConfirm \<leftarrow> to_int32 lx j ''owner_confirm'' REQUIRE 0;
     shareSignature \<leftarrow> toString j ''share_sig'' REQUIRE [];
     shareAndOwnerConfirmSignature \<leftarrow> toString j ''share_and_owner_confirm_sig'' REQUIRE [];
     Some \<lparr>c2_name = name, c2_icon = icon, c2_intro = intro, c2_broadcast = broadcast, c2_ownerKey = ownerKey,
       c2_ownerSecretKey = ownerSecretKey, c2_members = members, c2_membersGroupInfoSecrets = secrets, c2_memberKeys = memberKeys,
       c2_ownerNickname = ownerNickname, c2_ownerProfileKeys = ownerProfileKeys, c2_qrCodeSetting = qrCodeSetting,
       c2_ownerConfirm = ownerConfirm, c2_shareSignature = shareSignature,
       c2_shareAndOwnerConfirmSignature = shareAndOwnerConfirmSignature\<rparr> }"

definition CreateGroupBodyV2_check :: "int \<Rightarrow> CreateGroupBodyV2 \<Rightarrow> string option" where
  "CreateGroupBodyV2_check broadcast_off b = first_failed
     [(kMaxGroupNameLength < length (c2_name b), limit_msg ''max name length: '' kMaxGroupNameLength),
      (kMaxGroupIconLength < length (c2_icon b), limit_msg ''max icon length: '' kMaxGroupIconLength),
      (kMaxGroupIntroLength < length (c2_intro b), limit_msg ''max intro length: '' kMaxGroupIntroLength),
      (c2_broadcast b \<noteq> broadcast_off, ''broadcast should be off''),
      (kMaxGroupKeyLength < length (c2_ownerKey b), limit_msg ''max owner_key length: '' kMaxGroupKeyLength),
      (kMaxGroupCreateMemberCount < length (c2_members b), limit_msg ''max members count: '' kMaxGroupCreateMemberCount),
      (c2_members b = [], ''members is empty''),
      (\<not> list_all member_uid_ok (c2_members b), ''invalid member''),
      (c2_ownerKey b = [] \<or> c2_ownerSecretKey b = [], ''owner key can not be empty''),
      (length (c2_members b) \<noteq> length (c2_memberKeys b) \<or> length (c2_members b) \<noteq> length (c2_membersGroupInfoSecrets b),
         ''secrets count is not equal to members count''),
      (list_ex (\<lambda>it. kMaxGroupKeyLength < length it) (c2_memberKeys b), limit_msg ''max memberKey length: '' kMaxGroupKeyLength),
      (list_ex (\<lambda>it. kMaxGroupInfoSecretLength < length it) (c2_membersGroupInfoSecrets b),
         limit_msg ''the length of group info secret beyond '' kMaxGroupInfoSecretLength)]"

record InviteGroupMemberBodyV2 =
  i2_gid :: u64
  i2_members :: "string list"
  i2_memberGroupInfoSecrets :: "string list"
  i2_memberKeys :: "string list"
  i2_signatureInfos :: "string list"

definition InviteGroupMemberBodyV2_from_json :: "Lexical \<Rightarrow> json \<Rightarrow> InviteGroupMemberBodyV2 option" where
  "InviteGroupMemberBodyV2_from_json lx j = do {
     gid \<leftarrow> to_u64 lx j ''gid'' REQUIRE 0;
     members \<leftarrow> toGeneric (get_list get_string) j ''members'' REQUIRE [];
     secrets \<leftarrow> toGeneric (get_list get_string) j ''group_info_secrets'' OPTIONAL [];
     keys \<leftarrow> toGeneric (get_list get_string) j ''member_keys'' OPTIONAL [];
     signatures \<leftarrow> toGeneric (get_list get_string) j ''signature'' OPTIONAL [];
     Some \<lparr>i2_gid = gid, i2_members = members, i2_memberGroupInfoSecrets = secrets, i2_memberKeys = keys, i2_signatureInfos = signatures\<rparr> }"

definition InviteGroupMemberBodyV2_check :: "InviteGroupMemberBodyV2 \<Rightarrow> string option" where
  "InviteGroupMemberBodyV2_check b = first_failed
     [(kMaxGroupCreateMemberCount < length (i2_members b), limit_msg ''max members count: '' kMaxGroupCreateMemberCount),
      (i2_members b = [], ''members is empty: ''),
      (\<not> list_all member_uid_ok (i2_members b), ''invalid member''),
      (length (i2_members b) \<noteq> length (i2_memberKeys b) \<or> length (i2_members b) \<noteq> length (i2_memberGroupInfoSecrets b),
         ''secrets count is not equal to members count''),
      (list_ex (\<lambda>it. kMaxGroupKeyLength < length it) (i2_memberKeys b), limit_msg ''max memberKey length: '' kMaxGroupKeyLength),
      (list_ex (\<lambda>it. kMaxGroupInfoSecretLength < length it) (i2_memberGroupInfoSecrets b),
         limit_msg ''the length of group info secret beyond '' kMaxGroupInfoSecretLength),
      (list_ex (\<lambda>it. kMaxPendingGroupUserSignatureLength < length it) (i2_signatureInfos b),
         limit_msg ''the length of signature beyond '' kMaxPendingGroupUserSignatureLength)]"

text \<open>A request that passes has a key and a secret for every member, so that the loops of the handlers
  stay within the vectors.\<close>

lemma InviteGroupMemberBodyV2_lengths:
  assumes "InviteGroupMemberBodyV2_check b = None" and "i < length (i2_members b)"
  shows "i < length (i2_memberKeys b)" "i < length (i2_memberGroupInfoSecrets b)"
  using assms by (auto simp: InviteGroupMemberBodyV2_check_def first_failed_None)

lemma CreateGroupBodyV2_lengths:
  assumes "CreateGroupBodyV2_check off b = None" and "i < length (c2_members b)"
  shows "i < length (c2_memberKeys b)" "i < length (c2_membersGroupInfoSecrets b)" "c2_ownerKey b \<noteq> []"
  using assms by (auto simp: CreateGroupBodyV2_check_def first_failed_None)

section \<open>Changing a group or a member\<close>

record UpdateGroupUserBody =
  uu_gid :: u64
  uu_mute :: int
  uu_nick :: string
  uu_nickname :: string
  uu_profileKeys :: string
  uu_groupNickname :: string

definition UpdateGroupUserBody_from_json :: "Lexical \<Rightarrow> json \<Rightarrow> UpdateGroupUserBody option" where
  "UpdateGroupUserBody_from_json lx j = do {
     gid \<leftarrow> to_u64 lx j ''gid'' REQUIRE 0;
     mute \<leftarrow> to_int32 lx j ''mute'' OPTIONAL 255;
     nick \<leftarrow> toString j ''nick'' OPTIONAL [];
     nickname \<leftarrow> toString j ''nickname'' OPTIONAL [];
     groupNickname \<leftarrow> toString j ''group_nickname'' OPTIONAL [];
     profileKeys \<leftarrow> toString j ''profile_keys'' OPTIONAL [];
     Some \<lparr>uu_gid = gid, uu_mute = mute, uu_nick = nick, uu_nickname = nickname, uu_profileKeys = profileKeys, uu_groupNickname = groupNickname\<rparr> }"

definition UpdateGroupUserBody_to_json :: "UpdateGroupUserBody \<Rightarrow> json" where
  "UpdateGroupUserBody_to_json b =
     jobj [(''gid'', ju64 (uu_gid b)), (''mute'', JInt (uu_mute b)), (''nickname'', JString (uu_nickname b)),
           (''group_nickname'', JString (uu_groupNickname b)), (''profile_keys'', JString (uu_profileKeys b)), (''nick'', JString (uu_nick b))]"

record UpdateGroupBody =
  un_gid :: u64
  un_notice :: string

definition UpdateGroupBody_from_json :: "Lexical \<Rightarrow> json \<Rightarrow> UpdateGroupBody option" where
  "UpdateGroupBody_from_json lx j = do {
     gid \<leftarrow> to_u64 lx j ''gid'' REQUIRE 0;
     notice \<leftarrow> toString j ''notice'' REQUIRE [];
     Some \<lparr>un_gid = gid, un_notice = notice\<rparr> }"

definition UpdateGroupBody_to_json :: "UpdateGroupBody \<Rightarrow> json" where
  "UpdateGroupBody_to_json b = jobj [(''gid'', ju64 (un_gid b)), (''notice'', JString (un_notice b))]"

text \<open>A field that is written only under a condition.\<close>

definition jset_if :: "bool \<Rightarrow> string \<Rightarrow> json \<Rightarrow> json \<Rightarrow> json" where
  "jset_if b k v j = (if b then jset k v j else j)"

record UpdateGroupInfoBody =
  u1_gid :: u64
  u1_name :: string
  u1_icon :: string
  u1_intro :: string
  u1_broadcast :: int
  u1_plainChannelKey :: string
  u1_updateTime :: u64
  u1_nameExisted :: bool
  u1_iconExisted :: bool

definition UpdateGroupInfoBody_from_json :: "Lexical \<Rightarrow> json \<Rightarrow> UpdateGroupInfoBody option" where
  "UpdateGroupInfoBody_from_json lx j = do {
     gid \<leftarrow> to_u64 lx j ''gid'' REQUIRE 0;
     name \<leftarrow> toString j ''name'' OPTIONAL [];
     icon \<leftarrow> toString j ''icon'' OPTIONAL [];
     intro \<leftarrow> toString j ''intro'' OPTIONAL [];
     broadcast \<leftarrow> to_int32 lx j ''broadcast'' OPTIONAL (-1);
     plainChannelKey \<leftarrow> toString j ''plain_channel_key'' OPTIONAL [];
     Some \<lparr>u1_gid = gid, u1_name = name, u1_icon = icon, u1_intro = intro, u1_broadcast = broadcast, u1_plainChannelKey = plainChannelKey,
       u1_updateTime = 0, u1_nameExisted = (jfind j ''name'' \<noteq> None), u1_iconExisted = (jfind j ''icon'' \<noteq> None)\<rparr> }"

definition UpdateGroupInfoBody_to_json :: "UpdateGroupInfoBody \<Rightarrow> json" where
  "UpdateGroupInfoBody_to_json b =
     jset ''update_time'' (ju64 (u1_updateTime b))
       (jset_if (u1_plainChannelKey b \<noteq> []) ''plain_channel_key'' (JString (u1_plainChannelKey b))
       (jset_if (u1_broadcast b = 0) ''broadcast'' (JInt (u1_broadcast b))
       (jset_if (u1_intro b \<noteq> []) ''intro'' (JString (u1_intro b))
       (jset_if (u1_iconExisted b) ''icon'' (JString (u1_icon b))
       (jset_if (u1_nameExisted b) ''name'' (JString (u1_name b)) JNull)))))"

definition UpdateGroupInfoBody_check :: "int \<Rightarrow> (int \<Rightarrow> bool) \<Rightarrow> UpdateGroupInfoBody \<Rightarrow> string option" where
  "UpdateGroupInfoBody_check broadcast_off broadcast_valid b = first_failed
     [(u1_name b = [] \<and> u1_icon b = [] \<and> u1_intro b = [] \<and> u1_broadcast b = -1 \<and> u1_plainChannelKey b = [], ''content empty''),
      (kMaxGroupNameLength < length (u1_name b), limit_msg ''max name length: '' kMaxGroupNameLength),
      (kMaxGroupIconLength < length (u1_icon b), limit_msg ''max icon length: '' kMaxGroupIconLength),
      (kMaxGroupIntroLength < length (u1_intro b), limit_msg ''max intro length: '' kMaxGroupIntroLength),
      (u1_broadcast b \<noteq> -1 \<and> \<not> broadcast_valid (u1_broadcast b), ''invalid broadcast setting''),
      (u1_broadcast b = broadcast_off, ''broadcast cannot be turn off''),
      (kMaxGroupPlainChannelKeyLength < length (u1_plainChannelKey b), limit_msg ''max plain_channel_key length: '' kMaxGroupPlainChannelKeyLength)]"

record UpdateGroupInfoBodyV2 = UpdateGroupInfoBody +
  u2_qrCodeSetting :: string
  u2_ownerConfirm :: int
  u2_shareSignature :: string
  u2_shareAndOwnerConfirmSignature :: string
  u2_encryptedNameExisted :: bool
  u2_encryptedIconExisted :: bool
  u2_encryptedNoticeExisted :: bool
  u2_encryptedName :: string
  u2_encryptedIcon :: string
  u2_encryptedNotice :: string

definition UpdateGroupInfoBodyV2_from_json :: "Lexical \<Rightarrow> json \<Rightarrow> UpdateGroupInfoBodyV2 option" where
  "UpdateGroupInfoBodyV2_from_json lx j = do {
     b \<leftarrow> UpdateGroupInfoBody_from_json lx j;
     qrCodeSetting \<leftarrow> toString j ''share_qr_code_setting'' OPTIONAL [];
     ownerConfirm \<leftarrow> to_int32 lx j ''owner_confirm'' OPTIONAL (-1);
     shareSignature \<leftarrow> toString j ''share_sig'' OPTIONAL [];
     shareAndOwnerConfirmSignature \<leftarrow> toString j ''share_and_owner_confirm_sig'' OPTIONAL [];
     encryptedName \<leftarrow> toString j ''encrypted_name'' OPTIONAL [];
     encryptedIcon \<leftarrow> toString j ''encrypted_icon'' OPTIONAL [];
     encryptedNotice \<leftarrow> toString j ''encrypted_notice'' OPTIONAL [];
     Some (UpdateGroupInfoBody.extend b \<lparr>u2_qrCodeSetting = qrCodeSetting, u2_ownerConfirm = ownerConfirm, u2_shareSignature = shareSignature,
       u2_shareAndOwnerConfirmSignature = shareAndOwnerConfirmSignature,
       u2_encryptedNameExisted = (jfind j ''encrypted_name'' \<noteq> None), u2_encryptedIconExisted = (jfind j ''encrypted_icon'' \<noteq> None),
       u2_encryptedNoticeExisted = (jfind j ''encrypted_notice'' \<noteq> None),
       u2_encryptedName = encryptedName, u2_encryptedIcon = encryptedIcon, u2_encryptedNotice = encryptedNotice\<rparr>) }"

definition UpdateGroupInfoBodyV2_to_json :: "UpdateGroupInfoBodyV2 \<Rightarrow> json" where
  "UpdateGroupInfoBodyV2_to_json b =
     jset ''update_time'' (ju64 (u1_updateTime b))
       (jset_if (u2_encryptedNoticeExisted b) ''encrypted_notice'' (JString (u2_encryptedNotice b))
       (jset_if (u2_encryptedIconExisted b) ''encrypted_icon'' (JString (u2_encryptedIcon b))
       (jset_if (u2_encryptedNameExisted b) ''encrypted_name'' (JString (u2_encryptedName b))
       (jset_if (u2_shareAndOwnerConfirmSignature b \<noteq> []) ''share_and_owner_confirm_sig'' (JString (u2_shareAndOwnerConfirmSignature b))
       (jset_if (u2_shareSignature b \<noteq> []) ''share_sig'' (JString (u2_shareSignature b))
       (jset_if (u2_ownerConfirm b \<noteq> -1) ''owner_confirm'' (JInt (u2_ownerConfirm b))
       (jset_if (u2_qrCodeSetting b \<noteq> []) ''share_qr_code_setting'' (JString (u2_qrCodeSetting b))
       (jset_if (u1_plainChannelKey b \<noteq> []) ''plain_channel_key'' (JString (u1_plainChannelKey b))
       (jset_if (u1_broadcast b = 0) ''broadcast'' (JInt (u1_broadcast b))
       (jset_if (u1_intro b \<noteq> []) ''intro'' (JString (u1_intro b))
       (jset_if (u1_iconExisted b) ''icon'' (JString (u1_icon b))
       (jset_if (u1_nameExisted b) ''name'' (JString (u1_name b)) JNull))))))))))))"

definition UpdateGroupInfoBodyV2_check :: "int \<Rightarrow> (int \<Rightarrow> bool) \<Rightarrow> UpdateGroupInfoBodyV2 \<Rightarrow> string option" where
  "UpdateGroupInfoBodyV2_check broadcast_off broadcast_valid b = first_failed
     [(kMaxGroupNameLength < length (u1_name b), limit_msg ''max name length: '' kMaxGroupNameLength),
      (kMaxGroupIconLength < length (u1_icon b), limit_msg ''max icon length: '' kMaxGroupIconLength),
      (kMaxGroupIntroLength < length (u1_intro b), limit_msg ''max intro length: '' kMaxGroupIntroLength),
      (u1_broadcast b \<noteq> -1 \<and> \<not> broadcast_valid (u1_broadcast b), ''invalid broadcast setting''),
      (u1_broadcast b = broadcast_off, ''broadcast can not be turn off''),
      (kMaxGroupPlainChannelKeyLength < length (u1_plainChannelKey b), limit_msg ''max plain_channel_key length: '' kMaxGroupPlainChannelKeyLength),
      (kMaxShareSignatureLength < length (u2_shareSignature b), limit_msg ''the length of shareSignature beyond'' kMaxShareSignatureLength),
      (kMaxShareAndOwnerConfirmSignatureLength < length (u2_shareAndOwnerConfirmSignature b),
         limit_msg ''the length of shareAndConfirmSignature beyond'' kMaxShareAndOwnerConfirmSignatureLength),
      (kMaxQrCodeSettingLength < length (u2_qrCodeSetting b), limit_msg ''the length of qrCodeSetting beyond'' kMaxQrCodeSettingLength),
      (kMaxGroupNameLength < length (u2_encryptedName b), limit_msg ''invalid encrypted_name length: '' (length (u2_encryptedName b))),
      (kMaxGroupIconLength < length (u2_encryptedIcon b), limit_msg ''invalid encrypted_icon length: '' (length (u2_encryptedIcon b))),
      (kMaxGroupNoticeLength < length (u2_encryptedNotice b), limit_msg ''invalid encrypted_notice length: '' (length (u2_encryptedNotice b))),
      ((u2_encryptedNameExisted b \<or> u2_encryptedIconExisted b \<or> u2_encryptedNoticeExisted b) \<and> (u1_nameExisted b \<or> u1_iconExisted b),
         ''please set encrypted only'')]"

text \<open>When \<open>BROADCAST_OFF\<close> is 0 the only value of \<open>broadcast\<close> that would be written is the
  one the check refuses: the setting never reaches the database.\<close>

lemma jfind_jset_if: "k \<noteq> k' \<Longrightarrow> jfind j k' = None \<Longrightarrow> jfind (jset_if b k v j) k' = None"
  by (cases j) (auto simp: jset_if_def)

lemma broadcast_never_written:
  assumes "UpdateGroupInfoBodyV2_check 0 valid b = None"
  shows "jfind (UpdateGroupInfoBodyV2_to_json b) ''broadcast'' = None"
proof -
  have off: "jset_if (u1_broadcast b = 0) ''broadcast'' v j = j" for v j
    using assms by (simp add: jset_if_def UpdateGroupInfoBodyV2_check_def first_failed_None)
  have last: "jset k v j = jset_if True k v j" for k v j by (simp add: jset_if_def)
  show ?thesis unfolding UpdateGroupInfoBodyV2_to_json_def off last by (intro jfind_jset_if) simp_all
qed

section \<open>Queries, joining and reviewing\<close>

text \<open>\<open>count\<close> has no initial value in some of these structures: when it is optional and missing, it is
  the argument \<open>garbage\<close>.\<close>

record QueryGroupMemberInfo =
  qi_gid :: u64
  qi_uid :: string

definition QueryGroupMemberInfo_from_json :: "Lexical \<Rightarrow> json \<Rightarrow> QueryGroupMemberInfo option" where
  "QueryGroupMemberInfo_from_json lx j = do {
     gid \<leftarrow> to_u64 lx j ''gid'' REQUIRE 0;
     uid \<leftarrow> toString j ''uid'' REQUIRE [];
     Some \<lparr>qi_gid = gid, qi_uid = uid\<rparr> }"

definition QueryGroupMemberInfo_to_json :: "QueryGroupMemberInfo \<Rightarrow> json" where
  "QueryGroupMemberInfo_to_json q = jobj [(''gid'', ju64 (qi_gid q)), (''uid'', JString (qi_uid q))]"

record QueryGroupMemberList =
  ql_gid :: u64
  ql_role :: "int list"

definition get_i32 :: "json \<Rightarrow> int option" where
  "get_i32 j = map_option to_i32 (get_int j)"

definition QueryGroupMemberList_from_json :: "Lexical \<Rightarrow> json \<Rightarrow> QueryGroupMemberList option" where
  "QueryGroupMemberList_from_json lx j = do {
     gid \<leftarrow> to_u64 lx j ''gid'' REQUIRE 0;
     role \<leftarrow> toGeneric (get_list get_i32) j ''role'' REQUIRE [];
     Some \<lparr>ql_gid = gid, ql_role = role\<rparr> }"

definition QueryGroupMemberList_to_json :: "QueryGroupMemberList \<Rightarrow> json" where
  "QueryGroupMemberList_to_json q = jobj [(''gid'', ju64 (ql_gid q)), (''role'', JArray (map JInt (ql_role q)))]"

record QueryGroupMemberListSeg = QueryGroupMemberList +
  qs_startUid :: string
  qs_count :: int

definition QueryGroupMemberListSeg_from_json :: "Lexical \<Rightarrow> int \<Rightarrow> json \<Rightarrow> QueryGroupMemberListSeg option" where
  "QueryGroupMemberListSeg_from_json lx garbage j = do {
     q \<leftarrow> QueryGroupMemberList_from_json lx j;
     startUid \<leftarrow> toString j ''start_uid'' OPTIONAL [];
     count \<leftarrow> to_int32 lx j ''count'' OPTIONAL garbage;
     Some (QueryGroupMemberList.extend q \<lparr>qs_startUid = startUid, qs_count = count\<rparr>) }"

record QueryGroupInfoBody =
  qg_gid :: u64

definition QueryGroupInfoBody_from_json :: "Lexical \<Rightarrow> json \<Rightarrow> QueryGroupInfoBody option" where
  "QueryGroupInfoBody_from_json lx j = do { gid \<leftarrow> to_u64 lx j ''gid'' OPTIONAL 0; Some \<lparr>qg_gid = gid\<rparr> }"

definition QueryGroupInfoBody_check :: "QueryGroupInfoBody \<Rightarrow> string option" where
  "QueryGroupInfoBody_check b = first_failed [(qg_gid b = 0, ''gid incorrect'')]"

record QueryGroupInfoByGidBatch =
  qb_gids :: "u64 list"

definition QueryGroupInfoByGidBatch_from_json :: "json \<Rightarrow> QueryGroupInfoByGidBatch option" where
  "QueryGroupInfoByGidBatch_from_json j = do { gids \<leftarrow> toGeneric (get_list get_u64) j ''gids'' REQUIRE []; Some \<lparr>qb_gids = gids\<rparr> }"

record GetOwnerConfirmInfo =
  oc_gid :: u64

definition GetOwnerConfirmInfo_from_json :: "Lexical \<Rightarrow> json \<Rightarrow> GetOwnerConfirmInfo option" where
  "GetOwnerConfirmInfo_from_json lx j = do { gid \<leftarrow> to_u64 lx j ''gid'' REQUIRE 0; Some \<lparr>oc_gid = gid\<rparr> }"

record QrCodeInfo =
  qr_gid :: u64
  qr_qrCodeToken :: string

definition QrCodeInfo_from_json :: "Lexical \<Rightarrow> json \<Rightarrow> QrCodeInfo option" where
  "QrCodeInfo_from_json lx j = do {
     gid \<leftarrow> to_u64 lx j ''gid'' REQUIRE 0;
     token \<leftarrow> toString j ''signature'' REQUIRE [];
     Some \<lparr>qr_gid = gid, qr_qrCodeToken = token\<rparr> }"

definition QrCodeInfo_check :: "QrCodeInfo \<Rightarrow> bool" where
  "QrCodeInfo_check q \<longleftrightarrow> qr_qrCodeToken q \<noteq> [] \<and> length (qr_qrCodeToken q) \<le> kMaxShareSignatureLength"

text \<open>\<open>GroupJoinRequest\<close> has the fields and the check of \<open>GroupJoinRequestV3\<close>.\<close>

definition GroupJoinRequest_from_json :: "Lexical \<Rightarrow> json \<Rightarrow> GroupJoinRequestV3 option" where
  "GroupJoinRequest_from_json lx j = do {
     gid \<leftarrow> to_u64 lx j ''gid'' REQUIRE 0;
     qrCode \<leftarrow> toString j ''qr_code'' REQUIRE [];
     qrCodeToken \<leftarrow> toString j ''qr_token'' REQUIRE [];
     signature \<leftarrow> toString j ''signature'' REQUIRE [];
     comment \<leftarrow> toString j ''comment'' REQUIRE [];
     Some \<lparr>gj_gid = gid, gj_qrCode = qrCode, gj_qrCodeToken = qrCodeToken, gj_signature = signature, gj_comment = comment\<rparr> }"

definition GroupJoinRequest_check :: "GroupJoinRequestV3 \<Rightarrow> bool" where
  "GroupJoinRequest_check b \<longleftrightarrow>
     length (gj_qrCode b) \<le> kMaxShareSignatureLength \<and> length (gj_qrCodeToken b) \<le> kMaxShareSignatureLength
     \<and> length (gj_signature b) \<le> kMaxPendingGroupUserSignatureLength
     \<and> length (gj_comment b) \<le> kMaxPendingGroupUserCommentLength"

record QueryGroupPendingListRequest =
  qp_gid :: u64
  qp_startUid :: string
  qp_count :: int

definition QueryGroupPendingListRequest_from_json :: "Lexical \<Rightarrow> json \<Rightarrow> QueryGroupPendingListRequest option" where
  "QueryGroupPendingListRequest_from_json lx j = do {
     gid \<leftarrow> to_u64 lx j ''gid'' REQUIRE 0;
     startUid \<leftarrow> toString j ''start'' REQUIRE [];
     count \<leftarrow> to_int32 lx j ''count'' REQUIRE 0;
     Some \<lparr>qp_gid = gid, qp_startUid = startUid, qp_count = count\<rparr> }"

definition QueryGroupPendingListRequest_check :: "QueryGroupPendingListRequest \<Rightarrow> bool" where
  "QueryGroupPendingListRequest_check q \<longleftrightarrow> length (qp_startUid q) \<le> kMaxAccountUidLength"

record ReviewJoinResult =
  r2_uid :: string
  r2_accepted :: bool
  r2_groupSecret :: string
  r2_groupInfoSecret :: string
  r2_inviter :: string

definition ReviewJoinResult_from_json :: "json \<Rightarrow> ReviewJoinResult option" where
  "ReviewJoinResult_from_json j = do {
     uid \<leftarrow> toString j ''uid'' REQUIRE [];
     accepted \<leftarrow> toBoolean j ''accepted'' REQUIRE False;
     groupSecret \<leftarrow> toString j ''pwd'' REQUIRE [];
     groupInfoSecret \<leftarrow> toString j ''group_info_secret'' REQUIRE [];
     inviter \<leftarrow> toString j ''inviter'' OPTIONAL [];
     Some \<lparr>r2_uid = uid, r2_accepted = accepted, r2_groupSecret = groupSecret, r2_groupInfoSecret = groupInfoSecret, r2_inviter = inviter\<rparr> }"

record ReviewJoinResultList =
  rl_gid :: u64
  rl_list :: "ReviewJoinResult list"

definition ReviewJoinResultList_from_json :: "Lexical \<Rightarrow> json \<Rightarrow> ReviewJoinResultList option" where
  "ReviewJoinResultList_from_json lx j = do {
     gid \<leftarrow> to_u64 lx j ''gid'' REQUIRE 0;
     list \<leftarrow> toGeneric (get_list ReviewJoinResult_from_json) j ''list'' REQUIRE [];
     Some \<lparr>rl_gid = gid, rl_list = list\<rparr> }"

definition ReviewJoinResultList_check :: "ReviewJoinResultList \<Rightarrow> bool" where
  "ReviewJoinResultList_check b \<longleftrightarrow>
     list_all (\<lambda>item. length (r2_uid item) \<le> kMaxAccountUidLength \<and> length (r2_groupSecret item) \<le> kMaxGroupKeyLength
       \<and> length (r2_groupInfoSecret item) \<le> kMaxGroupInfoSecretLength \<and> length (r2_inviter item) \<le> kMaxAccountUidLength) (rl_list b)"

definition PendingGroupUser_to_json :: "PendingGroupUser \<Rightarrow> json" where
  "PendingGroupUser_to_json u =
     jobj [(''gid'', ju64 (pu_gid u)), (''uid'', JString (pu_uid u)), (''inviter'', JString (pu_inviter u)),
           (''signature'', JString (pu_signature u)), (''comment'', JString (pu_comment u))]"

record QueryMemberListOrderedBody =
  qo_gid :: u64
  qo_roles :: "int list"
  qo_startUid :: string
  qo_createTime :: int
  qo_count :: int

definition QueryMemberListOrderedBody_from_json :: "Lexical \<Rightarrow> json \<Rightarrow> QueryMemberListOrderedBody option" where
  "QueryMemberListOrderedBody_from_json lx j = do {
     gid \<leftarrow> to_u64 lx j ''gid'' REQUIRE 0;
     roles \<leftarrow> toGeneric (get_list get_i32) j ''role'' REQUIRE [];
     startUid \<leftarrow> toString j ''startUid'' OPTIONAL [];
     createTime \<leftarrow> to_int64 lx j ''createTime'' OPTIONAL 0;
     count \<leftarrow> to_int32 lx j ''count'' OPTIONAL 0;
     Some \<lparr>qo_gid = gid, qo_roles = roles, qo_startUid = startUid, qo_createTime = createTime, qo_count = count\<rparr> }"

text \<open>\<open>count\<close> and \<open>kMaxMemberQueryCount\<close> are both \<open>int\<close>: a negative count passes, although
  the message of the check asks for a count in \<open>(0,500]\<close>. \<open>role_min\<close>, \<open>role_max\<close> and \<open>role_size\<close> are the bounds of the
  generated enumeration.\<close>

definition QueryMemberListOrderedBody_check :: "nat \<Rightarrow> int \<Rightarrow> int \<Rightarrow> QueryMemberListOrderedBody \<Rightarrow> bool" where
  "QueryMemberListOrderedBody_check role_size role_min role_max q \<longleftrightarrow>
     qo_count q \<noteq> 0 \<and> qo_count q \<le> int kMaxMemberQueryCount
     \<and> length (qo_startUid q) \<le> kMaxAccountUidLength
     \<and> length (qo_roles q) \<le> role_size \<and> list_all (\<lambda>r. role_min \<le> r \<and> r \<le> role_max) (qo_roles q)"

section \<open>Details of groups\<close>

record UserGroupDetail =
  ud_group :: Group
  ud_user :: GroupUser
  ud_counter :: GroupCounter

record UserGroupEntry =
  ue_group :: Group
  ue_user :: GroupUser
  ue_owner :: string

text \<open>The end of both conversions: what depends on the user.\<close>

definition user_fields :: "(Role \<Rightarrow> int) \<Rightarrow> Group \<Rightarrow> GroupUser \<Rightarrow> json \<Rightarrow> json" where
  "user_fields role_no gr u j =
     (if gu_role u \<noteq> ROLE_UNDEFINE then
        jset ''encrypted_ephemeral_key'' (JString (g_encryptedEphemeralKey gr)) (jset ''role'' (JInt (role_no (gu_role u)))
          (jset ''last_ack_mid'' (ju64 (gu_lastAckMid u)) (jset ''group_info_secret'' (JString (gu_groupInfoSecret u))
            (jset ''encrypted_key'' (JString (gu_encryptedKey u)) j))))
      else
        jset ''role'' (JInt (role_no (gu_role u))) (jset ''last_ack_mid'' (JInt 0) (jset ''encrypted_key'' (JString []) j)))"

definition UserGroupDetail_to_json :: "(string \<Rightarrow> json option) \<Rightarrow> (Role \<Rightarrow> int) \<Rightarrow> UserGroupDetail \<Rightarrow> json" where
  "UserGroupDetail_to_json parse role_no d =
     user_fields role_no (ud_group d) (ud_user d)
       (jset ''version'' (JInt (g_version (ud_group d))) (jset ''subscriber_cn'' (ju32 (gc_subscriberCnt (ud_counter d)))
         (jset ''member_cn'' (ju32 (gc_memberCnt (ud_counter d))) (jset ''owner'' (JString (gc_owner (ud_counter d)))
           (Group_to_json parse (ud_group d))))))"

definition UserGroupEntry_to_json :: "(string \<Rightarrow> json option) \<Rightarrow> (Role \<Rightarrow> int) \<Rightarrow> UserGroupEntry \<Rightarrow> json" where
  "UserGroupEntry_to_json parse role_no e =
     user_fields role_no (ue_group e) (ue_user e)
       (jset ''version'' (JInt (g_version (ue_group e))) (jset ''owner'' (JString (ue_owner e)) (Group_to_json parse (ue_group e))))"

section \<open>Extensions\<close>

record GroupExtensionInfo =
  ex_gid :: u64
  ex_extensions :: "(string \<times> string) list"

definition GroupExtensionInfo_from_json :: "Lexical \<Rightarrow> json \<Rightarrow> GroupExtensionInfo option" where
  "GroupExtensionInfo_from_json lx j = do {
     gid \<leftarrow> to_u64 lx j ''gid'' REQUIRE 0;
     extensions \<leftarrow> toGeneric get_string_map j ''extensions'' REQUIRE [];
     Some \<lparr>ex_gid = gid, ex_extensions = extensions\<rparr> }"

definition GroupExtensionInfo_to_json :: "GroupExtensionInfo \<Rightarrow> json" where
  "GroupExtensionInfo_to_json e =
     jobj [(''gid'', ju64 (ex_gid e)), (''extensions'', JObject (map (\<lambda>p. (fst p, JString (snd p))) (ex_extensions e)))]"

record QueryGroupExtensionInfo =
  qe_gid :: u64
  qe_extensionKeys :: "string list"

definition QueryGroupExtensionInfo_from_json :: "Lexical \<Rightarrow> json \<Rightarrow> QueryGroupExtensionInfo option" where
  "QueryGroupExtensionInfo_from_json lx j = do {
     gid \<leftarrow> to_u64 lx j ''gid'' REQUIRE 0;
     keys \<leftarrow> toGeneric (get_list get_string) j ''extensionKeys'' REQUIRE [];
     Some \<lparr>qe_gid = gid, qe_extensionKeys = set_of keys\<rparr> }"

definition QueryGroupExtensionInfo_to_json :: "QueryGroupExtensionInfo \<Rightarrow> json" where
  "QueryGroupExtensionInfo_to_json e = jobj [(''gid'', ju64 (qe_gid e)), (''extensionKeys'', JArray (map JString (qe_extensionKeys e)))]"

lemma extensions_roundtrip: "GroupExtensionInfo_from_json lx (GroupExtensionInfo_to_json e) = Some e"
proof -
  have "get_string_map (JObject (map (\<lambda>p. (fst p, JString (snd p))) xs)) = Some xs" for xs
    using those_map_Some [of xs "\<lambda>e. map_option (Pair (fst e)) (get_string (snd e))" "\<lambda>p. (fst p, JString (snd p))"]
    by (simp add: comp_def)
  then show ?thesis
    by (simp add: GroupExtensionInfo_from_json_def GroupExtensionInfo_to_json_def to_u64_def toNumber_present [where i = "uint (ex_gid e)"]
        toGeneric_present ju64_def)
qed


section \<open>Messages of the checks shared with version 3\<close>

text \<open>\<open>KickGroupMemberBody::check\<close> and \<open>LeaveGroupBody::check\<close> with the message that version 1
  sends back; they fail exactly when the checks of \<open>Group_Entities\<close> do.\<close>

fun kick_member_message :: "string \<Rightarrow> string list \<Rightarrow> string option" where
  "kick_member_message uid [] = None"
| "kick_member_message uid (m # ms) =
     (if \<not> member_uid_ok m then Some ''invalid member'' else if m = uid then Some ''kick self'' else kick_member_message uid ms)"

definition KickGroupMemberBody_message :: "string \<Rightarrow> KickGroupMemberBody \<Rightarrow> string option" where
  "KickGroupMemberBody_message uid b =
     (if kMaxGroupCreateMemberCount < length (kb_members b) then Some (limit_msg ''max members count: '' kMaxGroupCreateMemberCount)
      else if kb_members b = [] then Some ''members is empty''
      else kick_member_message uid (kb_members b))"

definition LeaveGroupBody_message :: "LeaveGroupBody \<Rightarrow> string option" where
  "LeaveGroupBody_message b = first_failed
     [(lb_gid b = 0, ''gid is not set''),
      (kMaxGroupUidLength < length (lb_nextOwner b), limit_msg ''max next_owner length: '' kMaxGroupUidLength)]"

lemma kick_message_check: "KickGroupMemberBody_message uid b = None \<longleftrightarrow> KickGroupMemberBody_check uid b"
proof -
  have "kick_member_message uid ms = None \<longleftrightarrow> list_all (\<lambda>m. member_uid_ok m \<and> m \<noteq> uid) ms" for ms by (induction ms) auto
  then show ?thesis by (auto simp: KickGroupMemberBody_message_def KickGroupMemberBody_check_def)
qed

lemma leave_message_check: "LeaveGroupBody_message b = None \<longleftrightarrow> LeaveGroupBody_check b"
  by (auto simp: LeaveGroupBody_message_def LeaveGroupBody_check_def first_failed_None)

end
