(* ===== verification/Group_Manager_V2.thy ===== *)
theory Group_Manager_V2
  imports Group_Manager Group_Entities_V2
begin

text \<open>
  \<open>src/controllers/group_manager_controller.cpp\<close>: the requests of versions 1 and 2 on groups, in the
  style of \<open>Group_Manager\<close>, whose record and helpers they share. \<open>OldGroupManager\<close> has the calls
  that only these versions make. The build is the release build (\<open>NDEBUG\<close>).
\<close>

section \<open>The controller\<close>

datatype OldEntity =
    Response GroupResponse
  | Extensions GroupExtensionInfo

type_synonym old_answer = "cpp_error + nat \<times> OldEntity option"

record 's OldGroupManager =
  og_gm :: "'s GroupManager"
  og_encryptOff :: int
  og_roleSize :: nat
  og_roleMin :: int
  og_roleMax :: int
  og_keyRefresh :: "u64 \<Rightarrow> string \<Rightarrow> string \<Rightarrow> string \<Rightarrow> string"
  og_hours :: "('s, u32) state"
  og_groupDetail :: "u64 \<Rightarrow> string \<Rightarrow> ('s, dao_code \<times> UserGroupDetail) state"
  og_groupDetailBatch :: "u64 list \<Rightarrow> string \<Rightarrow> ('s, dao_code \<times> UserGroupEntry list) state"
  og_joinedGroupsList :: "string \<Rightarrow> ('s, dao_code \<times> UserGroupDetail list) state"
  og_membersByRoles :: "u64 \<Rightarrow> int list \<Rightarrow> ('s, dao_code \<times> GroupUser list) state"
  og_membersByRolesFrom :: "u64 \<Rightarrow> int list \<Rightarrow> string \<Rightarrow> int \<Rightarrow> ('s, dao_code \<times> GroupUser list) state"
  og_membersOrdered :: "u64 \<Rightarrow> int list \<Rightarrow> string \<Rightarrow> int \<Rightarrow> int \<Rightarrow> ('s, dao_code \<times> GroupUser list) state"
  og_users_update :: "u64 \<Rightarrow> string \<Rightarrow> json \<Rightarrow> ('s, dao_code) state"
  og_users_updateIfEmpty :: "u64 \<Rightarrow> string \<Rightarrow> json \<Rightarrow> ('s, dao_code) state"
  og_pending_query :: "u64 \<Rightarrow> string \<Rightarrow> int \<Rightarrow> ('s, dao_code \<times> PendingGroupUser list) state"
  og_setExtensions :: "u64 \<Rightarrow> (string \<times> string) list \<Rightarrow> ('s, dao_code) state"
  og_getExtensions :: "u64 \<Rightarrow> string list \<Rightarrow> ('s, dao_code \<times> (string \<times> string) list) state"

definition GroupV0 :: int where "GroupV0 = 0"
definition INTERNAL_USER_MUTE_GROUP :: int where "INTERNAL_USER_MUTE_GROUP = 4"
definition INTERNAL_USER_UNMUTE_GROUP :: int where "INTERNAL_USER_UNMUTE_GROUP = 5"

definition status_only :: "nat \<Rightarrow> ('s, old_answer) state" where
  "status_only status = State_Monad.return (Inr (status, None))"

text \<open>An answer with a \<open>GroupResponse\<close>; the HTTP status stays 200 also for errors.\<close>

definition respond :: "group_error \<Rightarrow> string \<Rightarrow> ('s, old_answer) state" where
  "respond code msg = State_Monad.return (Inr (200, Some (Response (GroupResponse_new code msg))))"

definition respond_with :: "string \<Rightarrow> json \<Rightarrow> ('s, old_answer) state" where
  "respond_with msg result = State_Monad.return (Inr (200, Some (Response \<lparr>gr_code = ERRORCODE_SUCCESS, gr_msg = msg, gr_result = result\<rparr>)))"

abbreviation internal_error :: "('s, old_answer) state" where
  "internal_error \<equiv> respond ERRORCODE_INTERNAL_ERROR ''internal error''"

abbreviation server_error :: "('s, old_answer) state" where
  "server_error \<equiv> respond ERRORCODE_INTERNAL_ERROR ''internal server error''"

abbreviation old_raise :: "cpp_error \<Rightarrow> ('s, old_answer) state" where
  "old_raise e \<equiv> State_Monad.return (Inl e)"

section \<open>Version 1\<close>

definition onCreateGroup :: "('s, old_answer) state" where
  "onCreateGroup = status_only 461"

definition onInviteGroupMember :: "('s, old_answer) state" where
  "onInviteGroupMember = status_only 461"

definition onUpdateGroupInfo :: "'s OldGroupManager \<Rightarrow> Account \<Rightarrow> UpdateGroupInfoBody \<Rightarrow> ('s, old_answer) state" where
  "onUpdateGroupInfo og account body =
     (let gm = og_gm og; gid = u1_gid body
      in case UpdateGroupInfoBody_check (gm_broadcastOff gm) (gm_broadcastValid gm) body of
           Some msg \<Rightarrow> respond ERRORCODE_PARAM_INCORRECT msg
         | None \<Rightarrow> do {
             (roleRet, role) \<leftarrow> gm_users_getMemberRole gm gid (a_uid account);
             if roleRet = Dao_NoSuchData then respond ERRORCODE_NO_SUCH_DATA ''not a group member''
             else if roleRet \<noteq> Dao_Success then internal_error
             else if role \<noteq> ROLE_OWNER then respond ERRORCODE_FORBIDDEN ''not group owner''
             else do {
               now \<leftarrow> gm_now gm;
               upRet \<leftarrow> gm_groups_update gm gid (UpdateGroupInfoBody_to_json (body\<lparr>u1_updateTime := now\<rparr>));
               if upRet \<noteq> Dao_Success then internal_error
               else do {
                 (queryRet, gr) \<leftarrow> gm_groups_get gm gid;
                 if queryRet \<noteq> Dao_Success then internal_error
                 else do {
                   pubGroupSystemMessage gm (a_uid account) gid GROUP_INFO_UPDATE (group_info_text gm gr (a_uid account));
                   respond ERRORCODE_SUCCESS ''success'' } } } })"

definition onKickGroupMember :: "'s OldGroupManager \<Rightarrow> Account \<Rightarrow> KickGroupMemberBody \<Rightarrow> ('s, old_answer) state" where
  "onKickGroupMember og account body =
     (let gm = og_gm og; gid = kb_gid body
      in case KickGroupMemberBody_message (a_uid account) body of
           Some msg \<Rightarrow> respond ERRORCODE_PARAM_INCORRECT msg
         | None \<Rightarrow> do {
           (roleRet, role) \<leftarrow> gm_users_getMemberRole gm gid (a_uid account);
           if roleRet = Dao_NoSuchData then respond ERRORCODE_NO_SUCH_DATA ''not a group member''
           else if roleRet \<noteq> Dao_Success then internal_error
           else if role \<noteq> ROLE_OWNER then respond ERRORCODE_FORBIDDEN ''not group owner''
           else do {
             (queryRet, users) \<leftarrow> gm_users_getMemberBatch gm gid (kb_members body);
             if queryRet \<noteq> Dao_Success then internal_error
             else do {
               let kicked = to_kick users (kb_members body);
               kickRet \<leftarrow> gm_users_delMemberBatch gm gid (map gu_uid kicked);
               if kickRet \<noteq> Dao_Success then internal_error
               else do {
                 pubGroupSystemMessage gm (a_uid account) gid GROUP_MEMBER_UPDATE
                   (sys_text gm QUIT_GROUP (map (\<lambda>u. member_info (gu_uid u) (gu_uid u) (gu_role u)) kicked));
                 for_each (map gu_uid kicked) (\<lambda>m. publishGroupUserEvent gm gid m INTERNAL_USER_QUIT_GROUP);
                 respond ERRORCODE_SUCCESS ''success'' } } } })"

definition onLeaveGroup :: "'s OldGroupManager \<Rightarrow> Account \<Rightarrow> LeaveGroupBody \<Rightarrow> ('s, old_answer) state" where
  "onLeaveGroup og account body =
     (let gm = og_gm og; gid = lb_gid body; nextOwner = lb_nextOwner body
      in case LeaveGroupBody_message body of
           Some msg \<Rightarrow> respond ERRORCODE_PARAM_INCORRECT msg
         | None \<Rightarrow> do {
             (roleRet, counter, role, nextOwnerRole) \<leftarrow> gm_users_memberInfo2 gm gid (a_uid account) nextOwner;
             if roleRet \<noteq> Dao_Success then internal_error
             else if role \<noteq> ROLE_OWNER \<and> role \<noteq> ROLE_MEMBER then respond ERRORCODE_FORBIDDEN ''not a group member''
             else if gc_memberCnt counter = 0 then respond ERRORCODE_FORBIDDEN ''empty group''
             else
               let needNextOwner = (role = ROLE_OWNER \<and> 1 < gc_memberCnt counter)
               in if needNextOwner
                     \<and> (nextOwner = [] \<or> nextOwner = a_uid account \<or> (nextOwnerRole \<noteq> ROLE_OWNER \<and> nextOwnerRole \<noteq> ROLE_MEMBER))
                  then respond ERRORCODE_PARAM_INCORRECT ''invalid next owner''
                  else do {
                    upRet \<leftarrow> (if needNextOwner then gm_users_updateRole gm gid nextOwner ROLE_OWNER else State_Monad.return Dao_Success);
                    if upRet \<noteq> Dao_Success then internal_error
                    else do {
                      delRet \<leftarrow> gm_users_delMember gm gid (a_uid account);
                      if delRet \<noteq> Dao_Success then internal_error
                      else do {
                        (if needNextOwner then do {
                           pubGroupSystemMessage gm (a_uid account) gid GROUP_MEMBER_UPDATE
                             (sys_text gm UPDATE_INFO [member_info nextOwner nextOwner ROLE_OWNER]);
                           publishGroupUserEvent gm gid nextOwner INTERNAL_USER_CHANGE_ROLE }
                         else State_Monad.return False);
                        pubGroupSystemMessage gm (a_uid account) gid GROUP_MEMBER_UPDATE
                          (sys_text gm QUIT_GROUP [member_info (a_uid account) [] ROLE_UNDEFINE]);
                        publishGroupUserEvent gm gid (a_uid account) INTERNAL_USER_QUIT_GROUP;
                        respond ERRORCODE_SUCCESS ''success'' } } } })"

text \<open>Who is not in a group sees it only when it is broadcast.\<close>

definition hidden_from :: "'s GroupManager \<Rightarrow> GroupUser \<Rightarrow> Group \<Rightarrow> bool" where
  "hidden_from gm u gr \<longleftrightarrow> gu_role u = ROLE_UNDEFINE \<and> g_broadcast gr = gm_broadcastOff gm"

definition onQueryGroupInfo :: "'s OldGroupManager \<Rightarrow> Account \<Rightarrow> QueryGroupInfoBody \<Rightarrow> ('s, old_answer) state" where
  "onQueryGroupInfo og account body =
     (let gm = og_gm og
      in case QueryGroupInfoBody_check body of
           Some msg \<Rightarrow> respond ERRORCODE_PARAM_INCORRECT msg
         | None \<Rightarrow> do {
             (ret, detail) \<leftarrow> og_groupDetail og (qg_gid body) (a_uid account);
             if ret \<noteq> Dao_Success then internal_error
             else if hidden_from gm (ud_user detail) (ud_group detail) then respond ERRORCODE_FORBIDDEN ''forbidden''
             else respond_with ''success'' (UserGroupDetail_to_json (gm_parse gm) (gm_roleNo gm) detail) })"

definition onQueryGroupInfoBatch :: "'s OldGroupManager \<Rightarrow> Account \<Rightarrow> QueryGroupInfoByGidBatch \<Rightarrow> ('s, old_answer) state" where
  "onQueryGroupInfoBatch og account arg =
     (let gm = og_gm og
      in do {
        (ec, entries) \<leftarrow> og_groupDetailBatch og (qb_gids arg) (a_uid account);
        if ec \<noteq> Dao_Success then respond ERRORCODE_INTERNAL_ERROR ''database error''
        else respond_with [] (jobj [(''groups'', JArray (map (UserGroupEntry_to_json (gm_parse gm) (gm_roleNo gm))
               (filter (\<lambda>e. \<not> hidden_from gm (ue_user e) (ue_group e)) entries)))]) })"

text \<open>A JSON value to which elements are pushed: without any it stays null.\<close>

definition pushed :: "json list \<Rightarrow> json" where
  "pushed js = (if js = [] then JNull else JArray js)"

definition joined_group_json :: "'s GroupManager \<Rightarrow> UserGroupDetail \<Rightarrow> json" where
  "joined_group_json gm d =
     (let gr = ud_group d; u = ud_user d; c = ud_counter d
      in jobj [(''gid'', ju64 (g_gid gr)), (''name'', JString (g_name gr)), (''icon'', JString (g_icon gr)), (''intro'', JString (g_intro gr)),
           (''encrypted'', JInt (g_encryptStatus gr)), (''encrypted_key'', JString (gu_encryptedKey u)), (''broadcast'', JInt (g_broadcast gr)),
           (''channel'', JString (g_channel gr)), (''last_mid'', ju64 (g_lastMid gr)), (''last_ack_mid'', ju64 (gu_lastAckMid u)),
           (''role'', JInt (gm_roleNo gm (gu_role u))), (''notice'', safe_parse (gm_parse gm) (g_notice gr)),
           (''create_time'', ju64 (g_createTime gr)), (''owner'', JString (gc_owner c)), (''member_cn'', ju32 (gc_memberCnt c)),
           (''subscriber_cn'', ju32 (gc_subscriberCnt c)), (''share_qr_code_setting'', JString (g_shareQrCodeSetting gr)),
           (''owner_confirm'', JInt (g_ownerConfirm gr)), (''share_sig'', JString (g_shareSignature gr)),
           (''share_and_owner_confirm_sig'', JString (g_shareAndOwnerConfirmSignature gr)),
           (''group_info_secret'', JString (gu_groupInfoSecret u)), (''proof'', JString (gu_proof u))])"

definition onQueryJoinGroupList :: "'s OldGroupManager \<Rightarrow> Account \<Rightarrow> ('s, old_answer) state" where
  "onQueryJoinGroupList og account = do {
     (ec, groups) \<leftarrow> og_joinedGroupsList og (a_uid account);
     if ec \<noteq> Dao_Success then server_error
     else respond_with ''success'' (jobj [(''groups'', pushed (map (joined_group_json (og_gm og)) groups))]) }"

definition member_json :: "'s GroupManager \<Rightarrow> GroupUser \<Rightarrow> json" where
  "member_json gm u =
     jobj [(''uid'', JString (gu_uid u)), (''nick'', JString (gu_nick u)), (''nickname'', JString (gu_nickname u)),
           (''group_nickname'', JString (gu_groupNickname u)), (''profile_keys'', JString (gu_profileKeys u)),
           (''role'', JInt (gm_roleNo gm (gu_role u))), (''encrypted_key'', JString (gu_encryptedKey u)),
           (''create_time'', ju64 (gu_createTime u)), (''proof'', JString (gu_proof u))]"

definition onQueryGroupMemberList :: "'s OldGroupManager \<Rightarrow> Account \<Rightarrow> QueryGroupMemberList \<Rightarrow> ('s, old_answer) state" where
  "onQueryGroupMemberList og account req =
     (let gm = og_gm og
      in do {
        (ec, op_user) \<leftarrow> gm_users_getMember gm (ql_gid req) (a_uid account);
        if ec \<noteq> Dao_Success then server_error
        else if gu_uid op_user = [] then respond ERRORCODE_NO_PERMISSION ''no permission''
        else do {
          (ec, users) \<leftarrow> og_membersByRoles og (ql_gid req) (ql_role req);
          if ec \<noteq> Dao_Success then server_error
          else respond_with ''success'' (jobj [(''members'', pushed (map (member_json gm) users))]) } })"

definition onQueryGroupMemberListSegment :: "'s OldGroupManager \<Rightarrow> Account \<Rightarrow> QueryGroupMemberListSeg \<Rightarrow> ('s, old_answer) state" where
  "onQueryGroupMemberListSegment og account req =
     (let gm = og_gm og
      in do {
        (ec, op_user) \<leftarrow> gm_users_getMember gm (ql_gid req) (a_uid account);
        if ec \<noteq> Dao_Success then server_error
        else if gu_uid op_user = [] then respond ERRORCODE_NO_PERMISSION ''no permission''
        else do {
          (ec, users) \<leftarrow> og_membersByRolesFrom og (ql_gid req) (ql_role req) (qs_startUid req) (qs_count req);
          if ec \<noteq> Dao_NoSuchData \<and> ec \<noteq> Dao_Success then server_error
          else respond_with ''success'' (jobj [(''members'', JArray (map (member_json gm) users))]) } })"

text \<open>The second test looks at the user who asks again, not at the user who was read: the branch is never
  taken.\<close>

definition onQueryGroupMemberInfo :: "'s OldGroupManager \<Rightarrow> Account \<Rightarrow> QueryGroupMemberInfo \<Rightarrow> ('s, old_answer) state" where
  "onQueryGroupMemberInfo og account req =
     (let gm = og_gm og
      in do {
        (ec, op_user) \<leftarrow> gm_users_getMember gm (qi_gid req) (a_uid account);
        if ec \<noteq> Dao_Success then server_error
        else if gu_uid op_user = [] then respond ERRORCODE_NO_PERMISSION ''no permission''
        else do {
          (ec, user) \<leftarrow> gm_users_getMember gm (qi_gid req) (qi_uid req);
          if ec \<noteq> Dao_Success then server_error
          else if gu_uid op_user = [] then respond ERRORCODE_NOT_FIND_USER ''not find user''
          else respond_with ''success'' (jobj [(''uid'', JString (qi_uid req)), (''nick'', JString (gu_nick user)),
                 (''role'', JInt (gm_roleNo gm (gu_role user))), (''status'', JInt (gu_status user)), (''nickname'', JString (gu_nickname user)),
                 (''group_nickname'', JString (gu_groupNickname user)), (''profile_keys'', JString (gu_profileKeys user)),
                 (''encrypted_key'', JString (gu_encryptedKey user)), (''group_info_secret'', JString (gu_groupInfoSecret user)),
                 (''create_time'', ju64 (gu_createTime user)), (''proof'', JString (gu_proof user))]) } })"

text \<open>What a member changes of its own entry.\<close>

definition user_update :: "UpdateGroupUserBody \<Rightarrow> GroupUser \<Rightarrow> json" where
  "user_update req user =
     jset_if (uu_profileKeys req \<noteq> []) ''profile_keys'' (JString (uu_profileKeys req))
       (jset_if (uu_groupNickname req \<noteq> []) ''group_nick_name'' (JString (uu_groupNickname req))
       (jset_if (uu_nickname req \<noteq> []) ''nick_name'' (JString (uu_nickname req))
       (jset_if (uu_nick req \<noteq> []) ''nick'' (JString (uu_nick req))
       (jset_if (uu_mute req \<noteq> 255) ''status''
          (JInt (if uu_mute req = 1 then gu_status user OR 1 else gu_status user AND NOT 1)) JNull))))"

definition onUpdateGroupUserInfo :: "'s OldGroupManager \<Rightarrow> Account \<Rightarrow> UpdateGroupUserBody \<Rightarrow> ('s, old_answer) state" where
  "onUpdateGroupUserInfo og account req =
     (let gm = og_gm og
      in if uu_mute req = 255 \<and> uu_nick req = [] \<and> uu_nickname req = [] \<and> uu_groupNickname req = [] \<and> uu_profileKeys req = []
         then respond ERRORCODE_SUCCESS ''success''
         else do {
           (ec, user) \<leftarrow> gm_users_getMember gm (uu_gid req) (a_uid account);
           if ec \<noteq> Dao_Success then server_error
           else if gu_uid user = [] then respond ERRORCODE_NO_PERMISSION ''no permission''
           else do {
             ec \<leftarrow> og_users_update og (uu_gid req) (a_uid account) (user_update req user);
             if ec \<noteq> Dao_Success then server_error
             else do {
               (if uu_mute req \<noteq> 255 then publishGroupUserEvent gm (uu_gid req) (a_uid account)
                    (if uu_mute req = 1 then INTERNAL_USER_MUTE_GROUP else INTERNAL_USER_UNMUTE_GROUP)
                else State_Monad.return False);
               respond ERRORCODE_SUCCESS ''success'' } } })"

definition notice_message :: "'s GroupManager \<Rightarrow> string \<Rightarrow> Group \<Rightarrow> string" where
  "notice_message gm uid gr =
     gm_dump gm (jobj [(''owner'', JString uid), (''name'', JString (g_name gr)), (''icon'', JString (g_icon gr)),
       (''update_time'', ju64 (g_updateTime gr)), (''create_time'', ju64 (g_createTime gr)), (''last_mid'', ju64 (g_lastMid gr)),
       (''broadcast'', JInt (g_broadcast gr)), (''channel'', JString (g_channel gr)), (''intro'', JString (g_intro gr)),
       (''key'', JString (g_key gr)), (''encrypted'', JInt (g_encryptStatus gr)), (''plain_channel_key'', JString (g_plainChannelKey gr)),
       (''notice'', JString (g_notice gr))])"

definition onUpdateGroupNotice :: "'s OldGroupManager \<Rightarrow> Account \<Rightarrow> UpdateGroupBody \<Rightarrow> ('s, old_answer) state" where
  "onUpdateGroupNotice og account req =
     (let gm = og_gm og; gid = un_gid req
      in do {
        (ec, role) \<leftarrow> gm_users_getMemberRole gm gid (a_uid account);
        if ec \<noteq> Dao_Success \<or> role = ROLE_UNDEFINE then server_error
        else if role \<noteq> ROLE_OWNER then server_error
        else do {
          now1 \<leftarrow> gm_now gm;
          now2 \<leftarrow> gm_now gm;
          ec \<leftarrow> gm_groups_update gm gid (jobj [(''update_time'', ju64 now2),
            (''notice'', jobj [(''content'', JString (un_notice req)), (''updateTime'', ju64 now1)])]);
          if ec \<noteq> Dao_Success then server_error
          else do {
            (ec, gr) \<leftarrow> gm_groups_get gm gid;
            if ec \<noteq> Dao_Success then server_error
            else do {
              r \<leftarrow> pubGroupSystemMessage gm (a_uid account) gid GROUP_INFO_UPDATE (notice_message gm (a_uid account) gr);
              case r of None \<Rightarrow> server_error | Some _ \<Rightarrow> respond ERRORCODE_SUCCESS ''success'' } } } })"

section \<open>Version 2: joining\<close>

text \<open>When no confirmation is needed the user is put in the group; it is also put on the pending list, from
  which a connected member takes it to hand over the keys.\<close>

definition onGroupJoinRequst :: "'s OldGroupManager \<Rightarrow> Account \<Rightarrow> GroupJoinRequestV3 \<Rightarrow> ('s, old_answer) state" where
  "onGroupJoinRequst og account req =
     (let gm = og_gm og; gid = gj_gid req
      in if \<not> GroupJoinRequest_check req then status_only 400
         else do {
           (ec, gr) \<leftarrow> gm_groups_get gm gid;
           if ec = Dao_NoSuchData then status_only 400
           else if ec \<noteq> Dao_Success then status_only 500
           else if g_version gr = GroupV3 then status_only 461
           else do {
             (ec, ownerUid) \<leftarrow> gm_users_getGroupOwner gm (g_gid gr);
             if ec \<noteq> Dao_Success then status_only 500
             else do {
               (ec, owner) \<leftarrow> gm_getAccount gm ownerUid;
               if ec \<noteq> Dao_Success then status_only 500
               else if \<not> setting_present gr then status_only 400
               else if \<not> setting_verified gm gr (a_publicKey owner) then status_only 400
               else if gj_qrCodeToken req \<noteq> g_shareSignature gr then status_only 400
               else if \<not> verifySignature gm (a_publicKey account) (gm_decode gm (gj_qrCode req) @ gm_decode gm (gj_qrCodeToken req)) (gj_signature req)
               then status_only 400
               else do {
                 (ec, user) \<leftarrow> gm_users_getMember gm gid (a_uid account);
                 if ec = Dao_Success then respond ERRORCODE_SUCCESS ''success''
                 else do {
                   inserted \<leftarrow> (if g_ownerConfirm gr = 0 then do {
                       now \<leftarrow> gm_now gm;
                       gm_users_insert gm (new_user gm gid (a_uid account) ROLE_MEMBER (g_lastMid gr) now [] []) }
                     else State_Monad.return Dao_Success);
                   if inserted \<noteq> Dao_Success then status_only 500
                   else do {
                     (if g_ownerConfirm gr = 0 then publishGroupUserEvent gm gid (a_uid account) INTERNAL_USER_ENTER_GROUP
                      else State_Monad.return False);
                     ec \<leftarrow> gm_pending_set gm \<lparr>pu_gid = gid, pu_uid = a_uid account, pu_inviter = [],
                       pu_signature = gj_signature req, pu_comment = gj_comment req\<rparr>;
                     if ec \<noteq> Dao_Success then
                       State_Monad.return (Inr (500, if g_ownerConfirm gr = 0 then Some (Response (GroupResponse_new ERRORCODE_SUCCESS ''success'')) else None))
                     else do {
                       (if g_ownerConfirm gr \<noteq> 0 then pubReviewJoinRequestToOwner gm gid (a_uid owner)
                        else do {
                          pubGroupSystemMessage gm [] gid GROUP_MEMBER_UPDATE
                            (sys_text gm ENTER_GROUP [member_info (a_uid account) (a_uid account) ROLE_MEMBER]);
                          State_Monad.return () });
                       respond ERRORCODE_SUCCESS ''success'' } } } } } } })"

definition pending_answer :: "PendingGroupUser list \<Rightarrow> ('s, old_answer) state" where
  "pending_answer users = respond_with ''success'' (jobj [(''list'', JArray (map PendingGroupUser_to_json users))])"

text \<open>The public key of the owner if the user may see the pending list: the owner itself when it confirms,
  otherwise a candidate for distributing keys. \<open>Inl\<close> is the answer otherwise, and the outer \<open>None\<close>
  that the selection of the candidates does not end.\<close>

definition pending_reader :: "'s OldGroupManager \<Rightarrow> Account \<Rightarrow> u64 \<Rightarrow> Group \<Rightarrow> Role \<Rightarrow> ('s, (old_answer + string) option) state" where
  "pending_reader og account gid gr role =
     (let gm = og_gm og; answer = (\<lambda>m. do { a \<leftarrow> m; State_Monad.return (Some (Inl a)) })
      in if g_ownerConfirm gr \<noteq> 0 then
           if role \<noteq> ROLE_OWNER then answer (status_only 400) else State_Monad.return (Some (Inr (a_publicKey account)))
         else do {
           seed \<leftarrow> og_hours og;
           c \<leftarrow> selectKeyDistributionCandidates gm gid seed (unat (gm_keySwitchCandidateCount gm));
           case c of
             None \<Rightarrow> State_Monad.return None
           | Some candidates \<Rightarrow>
               if \<lparr>da_uid = a_uid account, da_deviceid = a_authDeviceId account\<rparr> \<notin> set candidates then answer (pending_answer [])
               else do {
                 o' \<leftarrow> getGroupOwner gm (g_gid gr);
                 case o' of
                   None \<Rightarrow> answer (status_only 500)
                 | Some owner \<Rightarrow> State_Monad.return (Some (Inr (a_publicKey owner))) } })"

definition onQueryGroupPendingList :: "'s OldGroupManager \<Rightarrow> Account \<Rightarrow> QueryGroupPendingListRequest \<Rightarrow> ('s, old_answer option) state" where
  "onQueryGroupPendingList og account req =
     (let gm = og_gm og; done = (\<lambda>m. do { a \<leftarrow> m; State_Monad.return (Some a) })
      in case group_must_upgrade gm account of
           Inl e \<Rightarrow> done (old_raise e)
         | Inr upgrade \<Rightarrow>
             if upgrade then done (pending_answer [])
             else if \<not> QueryGroupPendingListRequest_check req then done (status_only 400)
             else do {
               (ec, gr) \<leftarrow> gm_groups_get gm (qp_gid req);
               if ec \<noteq> Dao_Success then done (status_only 500)
               else do {
                 (ec, role) \<leftarrow> gm_users_getMemberRole gm (qp_gid req) (a_uid account);
                 if ec \<noteq> Dao_Success then done (status_only 500)
                 else do {
                   r \<leftarrow> pending_reader og account (qp_gid req) gr role;
                   case r of
                     None \<Rightarrow> State_Monad.return None
                   | Some (Inl a) \<Rightarrow> State_Monad.return (Some a)
                   | Some (Inr ownerPublicKey) \<Rightarrow>
                       if \<not> setting_verified gm gr ownerPublicKey then done (status_only 500)
                       else do {
                         (ec, users) \<leftarrow> og_pending_query og (qp_gid req) (qp_startUid req) (qp_count req);
                         if ec \<noteq> Dao_Success \<and> ec \<noteq> Dao_NoSuchData then done (status_only 500)
                         else done (pending_answer users) } } } })"

section \<open>Version 2: handing over keys\<close>

definition pubSecretRefreshToUser :: "'s OldGroupManager \<Rightarrow> u64 \<Rightarrow> string \<Rightarrow> string \<Rightarrow> string \<Rightarrow> ('s, unit) state" where
  "pubSecretRefreshToUser og gid uid msgKey groupInfoKey =
     gm_publishOnline (og_gm og) uid (getSerialized \<lparr>da_uid = uid, da_deviceid = gm_master (og_gm og)\<rparr>) (og_keyRefresh og gid uid groupInfoKey msgKey)"

text \<open>The missing keys of a user who is in the group.\<close>

definition missing_keys :: "bool \<Rightarrow> ReviewJoinResult \<Rightarrow> GroupUser \<Rightarrow> u64 \<Rightarrow> json" where
  "missing_keys encrypted item user now =
     jset ''update_time'' (ju64 now)
       (jset_if (encrypted \<and> gu_groupInfoSecret user = []) ''group_info_secret'' (JString (r2_groupInfoSecret item))
       (jset_if (gu_encryptedKey user = []) ''encrypted_key'' (JString (r2_groupSecret item)) JNull))"

text \<open>The loop over the accepted requests: the users who are new, and those who already are in the group;
  \<open>None\<close> when a write fails.\<close>

fun distribute_loop ::
    "'s OldGroupManager \<Rightarrow> u64 \<Rightarrow> bool \<Rightarrow> (string \<times> GroupUser) list \<Rightarrow> ReviewJoinResult list \<Rightarrow> ReviewJoinResult list \<Rightarrow> string list
      \<Rightarrow> ('s, (ReviewJoinResult list \<times> string list) option) state" where
  "distribute_loop og gid encrypted existed [] fresh present = State_Monad.return (Some (fresh, present))"
| "distribute_loop og gid encrypted existed (item # items) fresh present =
     (case map_of existed (r2_uid item) of
        None \<Rightarrow> distribute_loop og gid encrypted existed items (fresh @ [item]) present
      | Some user \<Rightarrow>
          if gu_encryptedKey user = [] \<or> encrypted \<and> gu_groupInfoSecret user = [] then do {
            now \<leftarrow> gm_now (og_gm og);
            ec \<leftarrow> og_users_updateIfEmpty og gid (r2_uid item) (missing_keys encrypted item user now);
            if ec \<noteq> Dao_Success \<and> ec \<noteq> Dao_AlreadyExisted then State_Monad.return None
            else do {
              (if ec = Dao_Success then pubSecretRefreshToUser og gid (r2_uid item) (r2_groupSecret item) (r2_groupInfoSecret item)
               else State_Monad.return ());
              distribute_loop og gid encrypted existed items fresh (present @ [r2_uid item]) } }
          else distribute_loop og gid encrypted existed items fresh (present @ [r2_uid item]))"

definition distribute_user :: "'s GroupManager \<Rightarrow> u64 \<Rightarrow> Group \<Rightarrow> bool \<Rightarrow> u64 \<Rightarrow> ReviewJoinResult \<Rightarrow> GroupUser" where
  "distribute_user gm gid gr encrypted nowMs item =
     (new_user gm gid (r2_uid item) ROLE_MEMBER (g_lastMid gr) nowMs (r2_groupInfoSecret item) [])
       \<lparr>gu_encryptedKey := (if encrypted then r2_groupSecret item else [])\<rparr>"

definition invitees_V2 :: "ReviewJoinResult list \<Rightarrow> (string \<times> string list) list" where
  "invitees_V2 items =
     fold (\<lambda>it m. sm_put (r2_inviter it) (set_of (r2_uid it # (case map_of m (r2_inviter it) of None \<Rightarrow> [] | Some us \<Rightarrow> us))) m) items []"

definition distribute_insert ::
    "'s GroupManager \<Rightarrow> u64 \<Rightarrow> Group \<Rightarrow> bool \<Rightarrow> u64 \<Rightarrow> ReviewJoinResult list \<Rightarrow> ('s, bool) state" where
  "distribute_insert gm gid gr encrypted nowMs fresh =
     (if fresh = [] then State_Monad.return True
      else do {
        ec \<leftarrow> gm_users_insertBatch gm (map (distribute_user gm gid gr encrypted nowMs) fresh);
        if ec \<noteq> Dao_Success then State_Monad.return False
        else do {
          for_each (invitees_V2 fresh) (\<lambda>it. do {
            for_each (snd it) (\<lambda>uid. publishGroupUserEvent gm gid uid INTERNAL_USER_ENTER_GROUP);
            pubGroupSystemMessage gm (fst it) gid GROUP_MEMBER_UPDATE
              (sys_text gm ENTER_GROUP (map (\<lambda>uid. member_info uid uid ROLE_MEMBER) (snd it))) });
          State_Monad.return True } })"

text \<open>The status of the answer.\<close>

definition distributeKeys :: "'s OldGroupManager \<Rightarrow> ReviewJoinResultList \<Rightarrow> Group \<Rightarrow> ('s, nat) state" where
  "distributeKeys og req gr =
     (let gm = og_gm og; gid = rl_gid req;
          rejected = map r2_uid (filter (\<lambda>it. \<not> r2_accepted it) (rl_list req));
          acceptedList = filter r2_accepted (rl_list req);
          uids = map r2_uid acceptedList;
          encrypted = (g_encryptStatus gr = gm_encryptOn gm)
      in do {
        (ec, users) \<leftarrow> (if uids \<noteq> [] then gm_users_getMemberBatch gm gid uids else State_Monad.return (Dao_Success, []));
        if ec \<noteq> Dao_Success \<and> ec \<noteq> Dao_NoSuchData then State_Monad.return 500
        else do {
          nowMs \<leftarrow> gm_now gm;
          r \<leftarrow> distribute_loop og gid encrypted (map (\<lambda>u. (gu_uid u, u)) users) acceptedList [] [];
          case r of
            None \<Rightarrow> State_Monad.return 500
          | Some (fresh, present) \<Rightarrow> do {
              ok \<leftarrow> distribute_insert gm gid gr encrypted nowMs fresh;
              if \<not> ok then State_Monad.return 500
              else do {
                let delList = set_of (rejected @ present @ map r2_uid fresh);
                ec \<leftarrow> (if delList \<noteq> [] then gm_pending_del gm gid delList else State_Monad.return Dao_Success);
                State_Monad.return (if ec \<noteq> Dao_Success then 500 else 200) } } } })"

definition distribute_answer :: "nat \<Rightarrow> ('s, old_answer) state" where
  "distribute_answer status = (if status \<noteq> 200 then status_only status else respond ERRORCODE_SUCCESS ''success'')"

definition onReviewJoinRequest :: "'s OldGroupManager \<Rightarrow> Account \<Rightarrow> ReviewJoinResultList \<Rightarrow> ('s, old_answer) state" where
  "onReviewJoinRequest og account req =
     (let gm = og_gm og
      in if \<not> ReviewJoinResultList_check req then status_only 400
         else do {
           (ec, ownerUid) \<leftarrow> gm_users_getGroupOwner gm (rl_gid req);
           if ec \<noteq> Dao_Success then status_only 500
           else if ownerUid \<noteq> a_uid account then status_only 400
           else do {
             (ec, gr) \<leftarrow> gm_groups_get gm (rl_gid req);
             if ec \<noteq> Dao_Success then status_only 500
             else if \<not> setting_verified gm gr (a_publicKey account) then status_only 500
             else do {
               status \<leftarrow> distributeKeys og req gr;
               distribute_answer status } } })"

text \<open>Any member may upload the keys of users who join; neither the pending list nor the setting that the
  owner confirms is looked at.\<close>

definition onUploadPassword :: "'s OldGroupManager \<Rightarrow> Account \<Rightarrow> ReviewJoinResultList \<Rightarrow> ('s, old_answer) state" where
  "onUploadPassword og account req =
     (let gm = og_gm og
      in if \<not> ReviewJoinResultList_check req then status_only 400
         else do {
           (ec, role) \<leftarrow> gm_users_getMemberRole gm (rl_gid req) (a_uid account);
           if ec \<noteq> Dao_Success then status_only 500
           else if role \<noteq> ROLE_OWNER \<and> role \<noteq> ROLE_ADMINISTROR \<and> role \<noteq> ROLE_MEMBER then status_only 400
           else do {
             (ec, gr) \<leftarrow> gm_groups_get gm (rl_gid req);
             if ec \<noteq> Dao_Success then status_only 500
             else do {
               (ec, ownerUid) \<leftarrow> gm_users_getGroupOwner gm (rl_gid req);
               if ec \<noteq> Dao_Success then status_only 500
               else do {
                 (ec, owner) \<leftarrow> gm_getAccount gm ownerUid;
                 if ec \<noteq> Dao_Success then status_only 500
                 else if \<not> setting_present gr then status_only 400
                 else if \<not> setting_verified gm gr (a_publicKey owner) then status_only 500
                 else do {
                   status \<leftarrow> distributeKeys og req gr;
                   distribute_answer status } } } } })"

section \<open>Version 2: creating, changing, inviting\<close>

definition create_group_data_V2 :: "'s OldGroupManager \<Rightarrow> CreateGroupBodyV2 \<Rightarrow> u64 \<Rightarrow> Group" where
  "create_group_data_V2 og body createTime =
     Group_new\<lparr>g_name := c2_name body, g_icon := c2_icon body, g_permission := 0, g_updateTime := createTime,
       g_broadcast := c2_broadcast body, g_status := 1, g_channel := [], g_intro := c2_intro body,
       g_encryptStatus := (if c2_ownerKey body \<noteq> [] then gm_encryptOn (og_gm og) else og_encryptOff og),
       g_createTime := createTime, g_shareQrCodeSetting := c2_qrCodeSetting body, g_shareSignature := c2_shareSignature body,
       g_ownerConfirm := c2_ownerConfirm body, g_shareAndOwnerConfirmSignature := c2_shareAndOwnerConfirmSignature body,
       g_version := GroupV0\<rparr>"

definition create_users_V2 :: "'s GroupManager \<Rightarrow> Account \<Rightarrow> CreateGroupBodyV2 \<Rightarrow> u64 \<Rightarrow> u64 \<Rightarrow> GroupUser list" where
  "create_users_V2 gm account body gid createTime =
     map (\<lambda>i. (new_user gm gid (c2_members body ! i) ROLE_MEMBER 0 createTime (c2_membersGroupInfoSecrets body ! i) [])
                \<lparr>gu_encryptedKey := (if c2_ownerKey body \<noteq> [] then c2_memberKeys body ! i else [])\<rparr>) [0..<length (c2_members body)]
     @ [(new_user gm gid (a_uid account) ROLE_OWNER 0 createTime (c2_ownerSecretKey body) [])
          \<lparr>gu_nickname := c2_ownerNickname body, gu_profileKeys := c2_ownerProfileKeys body, gu_encryptedKey := c2_ownerKey body\<rparr>]"

definition create_store_V2 :: "'s OldGroupManager \<Rightarrow> Account \<Rightarrow> CreateGroupBodyV2 \<Rightarrow> u64 \<Rightarrow> ('s, old_answer) state" where
  "create_store_V2 og account body createTime =
     (let gm = og_gm og
      in do {
        (createGroupRet, gid) \<leftarrow> gm_groups_create gm (create_group_data_V2 og body createTime);
        if createGroupRet \<noteq> Dao_Success then status_only 500
        else do {
          let users = create_users_V2 gm account body gid createTime;
          insertMembersRet \<leftarrow> gm_users_insertBatch gm users;
          if insertMembersRet \<noteq> Dao_Success then do { gm_groups_del gm gid; status_only 500 }
          else do {
            for_each users (\<lambda>m. publishGroupUserEvent gm gid (gu_uid m) INTERNAL_USER_ENTER_GROUP);
            pubGroupSystemMessage gm (a_uid account) gid GROUP_MEMBER_UPDATE
              (sys_text gm ENTER_GROUP (map (\<lambda>m. member_info (gu_uid m) (gu_nick m) (gu_role m)) (filter (\<lambda>m. gu_uid m \<noteq> a_uid account) users)));
            respond_with ''success'' (jobj [(''gid'', ju64 gid), (''failed_members'', JArray [])]) } } })"

definition onCreateGroupV2 :: "'s OldGroupManager \<Rightarrow> Account \<Rightarrow> CreateGroupBodyV2 \<Rightarrow> ('s, old_answer) state" where
  "onCreateGroupV2 og account body =
     (let gm = og_gm og
      in case group_must_upgrade gm account of
           Inl e \<Rightarrow> old_raise e
         | Inr upgrade \<Rightarrow>
             if upgrade then status_only 461
             else do {
               limited \<leftarrow> gm_acquireAccess gm CreationLimiter (a_uid account);
               if limited then status_only 460
               else if CreateGroupBodyV2_check (gm_broadcastOff gm) body \<noteq> None then status_only 400
               else do {
                 r \<leftarrow> checkBidirectionalRelationship gm account (c2_members body);
                 case r of
                   Some (Inl e) \<Rightarrow> old_raise e
                 | Some (Inr status) \<Rightarrow> status_only status
                 | None \<Rightarrow> do {
                     createTime \<leftarrow> gm_now gm;
                     let gr = create_group_data_V2 og body createTime;
                     if \<not> setting_present gr then status_only 400
                     else if \<not> setting_verified gm gr (a_publicKey account) then status_only 400
                     else create_store_V2 og account body createTime } } })"

definition updated_setting_ok_V2 :: "'s GroupManager \<Rightarrow> Account \<Rightarrow> UpdateGroupInfoBodyV2 \<Rightarrow> Group \<Rightarrow> bool" where
  "updated_setting_ok_V2 gm account body g =
     verifyGroupSetting gm
       (if u2_qrCodeSetting body \<noteq> [] then u2_qrCodeSetting body else g_shareQrCodeSetting g)
       (if u2_shareSignature body \<noteq> [] then u2_shareSignature body else g_shareSignature g)
       (if u2_ownerConfirm body \<noteq> -1 then u2_ownerConfirm body else g_ownerConfirm g)
       (if u2_shareAndOwnerConfirmSignature body \<noteq> [] then u2_shareAndOwnerConfirmSignature body else g_shareAndOwnerConfirmSignature g)
       (a_publicKey account)"

definition onUpdateGroupInfoV2 :: "'s OldGroupManager \<Rightarrow> Account \<Rightarrow> UpdateGroupInfoBodyV2 \<Rightarrow> ('s, old_answer) state" where
  "onUpdateGroupInfoV2 og account body =
     (let gm = og_gm og; gid = u1_gid body
      in if UpdateGroupInfoBodyV2_check (gm_broadcastOff gm) (gm_broadcastValid gm) body \<noteq> None then status_only 400
         else do {
           (roleRet, role) \<leftarrow> gm_users_getMemberRole gm gid (a_uid account);
           if roleRet \<noteq> Dao_Success then status_only (if roleRet = Dao_NoSuchData then 404 else 500)
           else if role \<noteq> ROLE_OWNER then status_only 403
           else do {
             refused \<leftarrow> (if u2_qrCodeSetting body \<noteq> [] \<or> u2_ownerConfirm body \<noteq> -1 then do {
                            (rc, g) \<leftarrow> gm_groups_get gm gid;
                            if rc \<noteq> Dao_Success then State_Monad.return (Some 500)
                            else State_Monad.return (if \<not> updated_setting_ok_V2 gm account body g then Some 400 else None) }
                          else State_Monad.return None);
             case refused of
               Some status \<Rightarrow> status_only status
             | None \<Rightarrow> do {
                 now \<leftarrow> gm_now gm;
                 upRet \<leftarrow> gm_groups_update gm gid (UpdateGroupInfoBodyV2_to_json (body\<lparr>u1_updateTime := now\<rparr>));
                 if upRet \<noteq> Dao_Success then status_only 403
                 else do {
                   (if u2_qrCodeSetting body \<noteq> [] then gm_pending_clear gm gid else State_Monad.return Dao_Success);
                   (queryRet, gr) \<leftarrow> gm_groups_get gm gid;
                   if queryRet \<noteq> Dao_Success then respond ERRORCODE_SUCCESS ''success''
                   else do {
                     pubGroupSystemMessage gm (a_uid account) gid GROUP_INFO_UPDATE (group_info_text gm gr (a_uid account));
                     respond ERRORCODE_SUCCESS ''success'' } } } } })"

definition invite_users_V2 ::
    "'s GroupManager \<Rightarrow> InviteGroupMemberBodyV2 \<Rightarrow> Group \<Rightarrow> bool \<Rightarrow> (string \<times> Role) list \<Rightarrow> u64 \<Rightarrow> GroupUser list" where
  "invite_users_V2 gm body gr encrypt roleMap createTime =
     map (\<lambda>i. (new_user gm (i2_gid body) (i2_members body ! i) ROLE_MEMBER (g_lastMid gr) createTime (i2_memberGroupInfoSecrets body ! i) [])
                \<lparr>gu_encryptedKey := (if encrypt then i2_memberKeys body ! i else [])\<rparr>)
       (filter (\<lambda>i. invitable gm roleMap (i2_members body ! i)) [0..<length (i2_members body)])"

definition invite_answer :: "'s GroupManager \<Rightarrow> SimpleGroupMemberInfo list \<Rightarrow> string list \<Rightarrow> ('s, old_answer) state" where
  "invite_answer gm success failed =
     respond_with ''success'' (InviteGroupMemberResponse2_to_json (gm_roleNo gm) \<lparr>ir_successMembers = success, ir_failedMembers = failed\<rparr>)"

definition invite_direct_V2 ::
    "'s GroupManager \<Rightarrow> Account \<Rightarrow> InviteGroupMemberBodyV2 \<Rightarrow> Group \<Rightarrow> bool \<Rightarrow> (string \<times> Role) list \<Rightarrow> u64 \<Rightarrow> ('s, old_answer) state" where
  "invite_direct_V2 gm account body gr encrypt roleMap createTime =
     (let users = invite_users_V2 gm body gr encrypt roleMap createTime;
          failedMembers = filter (\<lambda>m. \<not> invitable gm roleMap m) (i2_members body);
          success = map (\<lambda>m. member_info (gu_uid m) (gu_uid m) (gu_role m)) users
      in if users = [] then invite_answer gm [] failedMembers
         else do {
           insertRet \<leftarrow> gm_users_insertBatch gm users;
           if insertRet \<noteq> Dao_Success then status_only 500
           else do {
             for_each users (\<lambda>m. publishGroupUserEvent gm (i2_gid body) (gu_uid m)
               (if map_of roleMap (gu_uid m) = Some ROLE_UNDEFINE then INTERNAL_USER_ENTER_GROUP else INTERNAL_USER_CHANGE_ROLE));
             pubGroupSystemMessage gm (a_uid account) (i2_gid body) GROUP_MEMBER_UPDATE (sys_text gm ENTER_GROUP success);
             invite_answer gm success failedMembers } })"

text \<open>The owner takes subscribers out of the group before it makes them members.\<close>

definition subscribers :: "(string \<times> Role) list \<Rightarrow> string list" where
  "subscribers roleMap = filter (\<lambda>uid. map_of roleMap uid = Some ROLE_SUBSCRIBER) (map fst roleMap)"

definition invite_roles_V2 ::
    "'s GroupManager \<Rightarrow> Account \<Rightarrow> InviteGroupMemberBodyV2 \<Rightarrow> Group \<Rightarrow> string \<Rightarrow> bool \<Rightarrow> bool \<Rightarrow> (string \<times> Role) list \<Rightarrow> u64
      \<Rightarrow> ('s, old_answer) state" where
  "invite_roles_V2 gm account body gr ownerUid confirm encrypt roleMap createTime = do {
     rc \<leftarrow> (if ownerUid = a_uid account \<and> subscribers roleMap \<noteq> [] then gm_users_delMemberBatch gm (i2_gid body) (subscribers roleMap)
            else State_Monad.return Dao_Success);
     if rc \<noteq> Dao_Success \<and> rc \<noteq> Dao_NoSuchData then status_only 500
     else if confirm then do {
       r \<leftarrow> pending_loop gm account (i2_gid body) roleMap (zip (i2_members body) (i2_signatureInfos body)) [];
       case r of
         None \<Rightarrow> status_only 500
       | Some success \<Rightarrow> do {
           pubReviewJoinRequestToOwner gm (g_gid gr) ownerUid;
           invite_answer gm success [] } }
     else invite_direct_V2 gm account body gr encrypt roleMap createTime }"

definition invite_checked_V2 :: "'s OldGroupManager \<Rightarrow> Account \<Rightarrow> InviteGroupMemberBodyV2 \<Rightarrow> ('s, old_answer) state" where
  "invite_checked_V2 og account body =
     (let gm = og_gm og; gid = i2_gid body
      in do {
        (queryRet, gr) \<leftarrow> gm_groups_get gm gid;
        if queryRet \<noteq> Dao_Success then status_only (if queryRet = Dao_NoSuchData then 404 else 500)
        else do {
          (ec, ownerUid) \<leftarrow> gm_users_getGroupOwner gm gid;
          if ec \<noteq> Dao_Success then status_only 500
          else
            let confirm = (g_ownerConfirm gr \<noteq> 0 \<and> ownerUid \<noteq> a_uid account);
                encrypt = (\<not> confirm \<and> g_encryptStatus gr = gm_encryptOn gm);
                good = (if confirm then
                          if length (i2_members body) \<noteq> length (i2_signatureInfos body) then Inr False
                          else signatures_ok gm (a_publicKey account) (i2_signatureInfos body)
                        else Inr (encrypt \<longrightarrow> length (i2_members body) = length (i2_memberKeys body)
                                  \<and> length (i2_members body) = length (i2_memberGroupInfoSecrets body)))
            in case good of
                 Inl e \<Rightarrow> old_raise e
               | Inr ok \<Rightarrow>
                   if \<not> ok then status_only 400
                   else do {
                     createTime \<leftarrow> gm_now gm;
                     (ec, roleMap) \<leftarrow> gm_users_getMemberRoles gm gid (undefined_roles (i2_members body));
                     if ec \<noteq> Dao_Success \<and> ec \<noteq> Dao_NoSuchData then status_only 500
                     else invite_roles_V2 gm account body gr ownerUid confirm encrypt roleMap createTime } } })"

definition onInviteGroupMemberV2 :: "'s OldGroupManager \<Rightarrow> Account \<Rightarrow> InviteGroupMemberBodyV2 \<Rightarrow> ('s, old_answer) state" where
  "onInviteGroupMemberV2 og account body =
     (let gm = og_gm og
      in case group_must_upgrade gm account of
           Inl e \<Rightarrow> old_raise e
         | Inr upgrade \<Rightarrow>
             if upgrade then status_only 461
             else if InviteGroupMemberBodyV2_check body \<noteq> None then status_only 400
             else if a_uid account \<noteq> ''bcm_backend_manager'' then do {
               (roleRet, role) \<leftarrow> gm_users_getMemberRole gm (i2_gid body) (a_uid account);
               if roleRet \<noteq> Dao_Success then status_only (if roleRet = Dao_NoSuchData then 404 else 500)
               else if role \<noteq> ROLE_OWNER \<and> role \<noteq> ROLE_MEMBER \<and> role \<noteq> ROLE_ADMINISTROR then status_only 403
               else do {
                 r \<leftarrow> checkBidirectionalRelationshipBypassSubscribers gm account (i2_gid body) (i2_members body);
                 case r of
                   Some (Inl e) \<Rightarrow> old_raise e
                 | Some (Inr status) \<Rightarrow> status_only status
                 | None \<Rightarrow> invite_checked_V2 og account body } }
             else invite_checked_V2 og account body)"

section \<open>Version 2: questions about a group\<close>

definition onIsQrCodeValid :: "'s OldGroupManager \<Rightarrow> QrCodeInfo \<Rightarrow> ('s, old_answer) state" where
  "onIsQrCodeValid og req =
     (let gm = og_gm og
      in if \<not> QrCodeInfo_check req then status_only 400
         else do {
           (ec, gr) \<leftarrow> gm_groups_get gm (qr_gid req);
           if ec \<noteq> Dao_Success then status_only 500
           else do {
             o' \<leftarrow> getGroupOwner gm (g_gid gr);
             case o' of
               None \<Rightarrow> status_only 500
             | Some owner \<Rightarrow>
                 if \<not> setting_verified gm gr (a_publicKey owner) then status_only 500
                 else respond_with ''success'' (jobj [(''valid'',
                   JBool (verifySignature gm (a_publicKey owner) (gm_decode gm (g_shareQrCodeSetting gr)) (qr_qrCodeToken req)))]) } })"

definition onGetOwnerConfirm :: "'s OldGroupManager \<Rightarrow> GetOwnerConfirmInfo \<Rightarrow> ('s, old_answer) state" where
  "onGetOwnerConfirm og req = do {
     (ec, gr) \<leftarrow> gm_groups_get (og_gm og) (oc_gid req);
     if ec \<noteq> Dao_Success then status_only 500
     else respond_with ''success'' (jobj [(''owner_confirm'', JInt (g_ownerConfirm gr))]) }"

definition onQueryMemberListOrdered :: "'s OldGroupManager \<Rightarrow> Account \<Rightarrow> QueryMemberListOrderedBody \<Rightarrow> ('s, old_answer) state" where
  "onQueryMemberListOrdered og account req =
     (let gm = og_gm og
      in if \<not> QueryMemberListOrderedBody_check (og_roleSize og) (og_roleMin og) (og_roleMax og) req then status_only 400
         else do {
           (ec, user) \<leftarrow> gm_users_getMember gm (qo_gid req) (a_uid account);
           if ec = Dao_NoSuchData then status_only 400
           else if ec \<noteq> Dao_Success then status_only 500
           else do {
             (ec, members) \<leftarrow> og_membersOrdered og (qo_gid req) (qo_roles req) (qo_startUid req) (qo_createTime req) (qo_count req);
             if ec \<noteq> Dao_NoSuchData \<and> ec \<noteq> Dao_Success then status_only 500
             else respond_with [] (jobj [(''members'', JArray (map (\<lambda>u. GroupMember_to_json (member_answer gm u)) members))]) } })"

text \<open>A key or a value that is too long sets the status 500 but does not end the handler: the extensions
  are stored all the same, and the answer is 200.\<close>

definition onSetGroupExtensionInfo :: "'s OldGroupManager \<Rightarrow> Account \<Rightarrow> GroupExtensionInfo \<Rightarrow> ('s, old_answer) state" where
  "onSetGroupExtensionInfo og account req =
     (let gm = og_gm og
      in do {
        (ec, role) \<leftarrow> gm_users_getMemberRole gm (ex_gid req) (a_uid account);
        if ec = Dao_NoSuchData then status_only 480
        else if ec \<noteq> Dao_Success then status_only 500
        else if role \<noteq> ROLE_OWNER then status_only 480
        else if 256 < length (ex_extensions req) then status_only 500
        else do {
          ec \<leftarrow> og_setExtensions og (ex_gid req) (ex_extensions req);
          if ec \<noteq> Dao_Success then status_only 500 else status_only 200 } })"

definition onGetGroupExtensionInfo :: "'s OldGroupManager \<Rightarrow> Account \<Rightarrow> QueryGroupExtensionInfo \<Rightarrow> ('s, old_answer) state" where
  "onGetGroupExtensionInfo og account req =
     (let gm = og_gm og
      in do {
        (ec, role) \<leftarrow> gm_users_getMemberRole gm (qe_gid req) (a_uid account);
        if ec = Dao_NoSuchData then status_only 481
        else if ec \<noteq> Dao_Success then status_only 500
        else do {
          (ec, extensions) \<leftarrow> og_getExtensions og (qe_gid req) (qe_extensionKeys req);
          State_Monad.return (Inr (200, Some (Extensions \<lparr>ex_gid = qe_gid req, ex_extensions = extensions\<rparr>))) } })"

section \<open>All requests of the older versions\<close>

datatype old_request =
    OldCreate
  | OldInvite
  | OldUpdateGroupInfo UpdateGroupInfoBody
  | OldKick KickGroupMemberBody
  | OldLeave LeaveGroupBody
  | OldQueryGroupInfo QueryGroupInfoBody
  | OldQueryGroupInfoBatch QueryGroupInfoByGidBatch
  | OldQueryJoinGroupList
  | OldQueryMemberList QueryGroupMemberList
  | OldQueryMemberListSegment QueryGroupMemberListSeg
  | OldQueryMemberInfo QueryGroupMemberInfo
  | OldUpdateUserInfo UpdateGroupUserBody
  | OldUpdateNotice UpdateGroupBody
  | OldJoin GroupJoinRequestV3
  | OldPendingList QueryGroupPendingListRequest
  | OldReviewJoin ReviewJoinResultList
  | OldUploadPassword ReviewJoinResultList
  | CreateV2 CreateGroupBodyV2
  | UpdateGroupInfoV2 UpdateGroupInfoBodyV2
  | InviteV2 InviteGroupMemberBodyV2
  | QrCodeValid QrCodeInfo
  | OwnerConfirm GetOwnerConfirmInfo
  | MemberListOrdered QueryMemberListOrderedBody
  | SetExtension GroupExtensionInfo
  | GetExtension QueryGroupExtensionInfo

fun handle_old :: "'s OldGroupManager \<Rightarrow> Account \<Rightarrow> old_request \<Rightarrow> ('s, old_answer option) state" where
  "handle_old og account OldCreate = map_state Some onCreateGroup"
| "handle_old og account OldInvite = map_state Some onInviteGroupMember"
| "handle_old og account (OldUpdateGroupInfo b) = map_state Some (onUpdateGroupInfo og account b)"
| "handle_old og account (OldKick b) = map_state Some (onKickGroupMember og account b)"
| "handle_old og account (OldLeave b) = map_state Some (onLeaveGroup og account b)"
| "handle_old og account (OldQueryGroupInfo b) = map_state Some (onQueryGroupInfo og account b)"
| "handle_old og account (OldQueryGroupInfoBatch b) = map_state Some (onQueryGroupInfoBatch og account b)"
| "handle_old og account OldQueryJoinGroupList = map_state Some (onQueryJoinGroupList og account)"
| "handle_old og account (OldQueryMemberList b) = map_state Some (onQueryGroupMemberList og account b)"
| "handle_old og account (OldQueryMemberListSegment b) = map_state Some (onQueryGroupMemberListSegment og account b)"
| "handle_old og account (OldQueryMemberInfo b) = map_state Some (onQueryGroupMemberInfo og account b)"
| "handle_old og account (OldUpdateUserInfo b) = map_state Some (onUpdateGroupUserInfo og account b)"
| "handle_old og account (OldUpdateNotice b) = map_state Some (onUpdateGroupNotice og account b)"
| "handle_old og account (OldJoin b) = map_state Some (onGroupJoinRequst og account b)"
| "handle_old og account (OldPendingList b) = onQueryGroupPendingList og account b"
| "handle_old og account (OldReviewJoin b) = map_state Some (onReviewJoinRequest og account b)"
| "handle_old og account (OldUploadPassword b) = map_state Some (onUploadPassword og account b)"
| "handle_old og account (CreateV2 b) = map_state Some (onCreateGroupV2 og account b)"
| "handle_old og account (UpdateGroupInfoV2 b) = map_state Some (onUpdateGroupInfoV2 og account b)"
| "handle_old og account (InviteV2 b) = map_state Some (onInviteGroupMemberV2 og account b)"
| "handle_old og account (QrCodeValid b) = map_state Some (onIsQrCodeValid og b)"
| "handle_old og account (OwnerConfirm b) = map_state Some (onGetOwnerConfirm og b)"
| "handle_old og account (MemberListOrdered b) = map_state Some (onQueryMemberListOrdered og account b)"
| "handle_old og account (SetExtension b) = map_state Some (onSetGroupExtensionInfo og account b)"
| "handle_old og account (GetExtension b) = map_state Some (onGetGroupExtensionInfo og account b)"

end
