(* ===== verification/Group_Members_V2.thy ===== *)
theory Group_Members_V2
  imports Group_Members Group_Manager_V2
begin

text \<open>
  The older versions of the requests on groups refine the same steps of the table of members as version 3,
  and what follows for the requests of all versions together: every group keeps an owner, only an owner
  changes other members, and who enters a group does so itself or through a member.
\<close>

section \<open>The database\<close>

text \<open>The calls that only the older versions make leave the table of members alone; an update of a user
  does so when it does not write the role.\<close>

definition old_frame :: "'s OldGroupManager \<Rightarrow> ('s \<Rightarrow> member_table) \<Rightarrow> bool" where
  "old_frame og members \<longleftrightarrow>
     still members (og_hours og) \<and> (\<forall>g u. still members (og_groupDetail og g u)) \<and> (\<forall>gs u. still members (og_groupDetailBatch og gs u))
     \<and> (\<forall>u. still members (og_joinedGroupsList og u)) \<and> (\<forall>g rs. still members (og_membersByRoles og g rs))
     \<and> (\<forall>g rs u n. still members (og_membersByRolesFrom og g rs u n)) \<and> (\<forall>g rs u t n. still members (og_membersOrdered og g rs u t n))
     \<and> (\<forall>g u j. jfind j ''role'' = None \<longrightarrow> still members (og_users_update og g u j))
     \<and> (\<forall>g u j. jfind j ''role'' = None \<longrightarrow> still members (og_users_updateIfEmpty og g u j))
     \<and> (\<forall>g u n. still members (og_pending_query og g u n))
     \<and> (\<forall>g xs. still members (og_setExtensions og g xs)) \<and> (\<forall>g ks. still members (og_getExtensions og g ks))"

definition old_store :: "'s OldGroupManager \<Rightarrow> ('s \<Rightarrow> member_table) \<Rightarrow> bool" where
  "old_store og members \<longleftrightarrow> old_frame og members \<and> member_store (og_gm og) members"

lemma old_storeD:
  assumes "old_store og members"
  shows "old_frame og members" "member_store (og_gm og) members" "member_frame (og_gm og) members"
  using assms by (auto simp: old_store_def member_store_def)

lemma old_frame_rules:
  assumes "old_frame og members"
  shows "still members (og_hours og)" "still members (og_groupDetail og gid u)" "still members (og_groupDetailBatch og gids u)"
    "still members (og_joinedGroupsList og u)" "still members (og_membersByRoles og gid rs)" "still members (og_membersByRolesFrom og gid rs u n)"
    "still members (og_membersOrdered og gid rs u ct n)" "jfind j ''role'' = None \<Longrightarrow> still members (og_users_update og gid u j)"
    "jfind j ''role'' = None \<Longrightarrow> still members (og_users_updateIfEmpty og gid u j)" "still members (og_pending_query og gid u n)"
    "still members (og_setExtensions og gid xs)" "still members (og_getExtensions og gid ks)"
  using assms by (simp_all add: old_frame_def)

lemma still_answers [still_rules]:
  "still members (status_only status)" "still members (respond code msg)" "still members (respond_with msg j)"
  "still members (pending_answer users)" "still members (invite_answer gm ms fs)" "still members (distribute_answer status)"
  by (simp_all add: status_only_def respond_def respond_with_def pending_answer_def invite_answer_def distribute_answer_def still_return)

lemma refines_answers [ref_rules]:
  assumes "member_step uid jn t (members s)"
  shows "refines members uid jn t (status_only status) s" "refines members uid jn t (respond code msg) s"
    "refines members uid jn t (respond_with msg j) s" "refines members uid jn t (invite_answer gm ms fs) s"
    "refines members uid jn t (distribute_answer n) s"
  by (rule refines_still, simp add: still_answers, fact assms)+

section \<open>Handlers that leave the table alone\<close>

lemma jset_last: "jset k v j = jset_if True k v j"
  by (simp add: jset_if_def)

lemma user_update_no_role: "jfind (user_update req u) ''role'' = None"
  unfolding user_update_def by (intro jfind_jset_if) simp_all

lemma missing_keys_no_role: "jfind (missing_keys e item u now) ''role'' = None"
  unfolding missing_keys_def jset_last by (intro jfind_jset_if) simp_all

lemma still_pending_reader:
  assumes "old_store og members"
  shows "still members (pending_reader og account gid gr role)"
  unfolding pending_reader_def Let_def
  by (intro still_rules frame_rules [OF old_storeD(3) [OF assms]] still_calls [OF old_storeD(3) [OF assms]] old_frame_rules [OF old_storeD(1) [OF assms]])

lemma still_old_handlers:
  assumes store: "old_store og members"
  shows "still members onCreateGroup" "still members onInviteGroupMember" "still members (onUpdateGroupInfo og account b1)"
    "still members (onQueryGroupInfo og account b2)" "still members (onQueryGroupInfoBatch og account b3)"
    "still members (onQueryJoinGroupList og account)" "still members (onQueryGroupMemberList og account b4)"
    "still members (onQueryGroupMemberListSegment og account b5)" "still members (onQueryGroupMemberInfo og account b6)"
    "still members (onUpdateGroupUserInfo og account b7)" "still members (onUpdateGroupNotice og account b8)"
    "still members (onQueryGroupPendingList og account b9)" "still members (onUpdateGroupInfoV2 og account b10)"
    "still members (onIsQrCodeValid og b11)" "still members (onGetOwnerConfirm og b12)" "still members (onQueryMemberListOrdered og account b13)"
    "still members (onSetGroupExtensionInfo og account b14)" "still members (onGetGroupExtensionInfo og account b15)"
  unfolding onCreateGroup_def onInviteGroupMember_def onUpdateGroupInfo_def onQueryGroupInfo_def onQueryGroupInfoBatch_def
    onQueryJoinGroupList_def onQueryGroupMemberList_def onQueryGroupMemberListSegment_def onQueryGroupMemberInfo_def
    onUpdateGroupUserInfo_def onUpdateGroupNotice_def onQueryGroupPendingList_def onUpdateGroupInfoV2_def onIsQrCodeValid_def
    onGetOwnerConfirm_def onQueryMemberListOrdered_def onSetGroupExtensionInfo_def onGetGroupExtensionInfo_def
  by (intro still_rules frame_rules [OF old_storeD(3) [OF store]] still_calls [OF old_storeD(3) [OF store]]
      old_frame_rules [OF old_storeD(1) [OF store]] still_pending_reader [OF store] user_update_no_role)+

section \<open>Handlers that change the table\<close>

lemma refines_option_eq:
  "(x = None \<Longrightarrow> refines members uid jn t m s) \<Longrightarrow> (\<And>a. x = Some a \<Longrightarrow> refines members uid jn t (f a) s)
    \<Longrightarrow> refines members uid jn t (case x of None \<Rightarrow> m | Some a \<Rightarrow> f a) s"
  by (cases x) auto

lemma refines_prod_eq: "(\<And>a b. x = (a, b) \<Longrightarrow> refines members uid jn t (f a b) s) \<Longrightarrow> refines members uid jn t (case x of (a, b) \<Rightarrow> f a b) s"
  by (cases x) simp

lemma refines_bind_bind:
  "refines members uid jn t (State_Monad.bind m (\<lambda>a. State_Monad.bind (f a) g)) s \<Longrightarrow> refines members uid jn t (State_Monad.bind (State_Monad.bind m f) g) s"
  by (simp add: refines_def wps_def split_beta)

lemma old_kick_refines:
  assumes store: "old_store og members"
  shows "refines members (a_uid account) jn (members s) (onKickGroupMember og account body) s"
proof -
  note frame = old_storeD(3) [OF store] and st = old_storeD(2) [OF store]
  show ?thesis
    unfolding onKickGroupMember_def Let_def
    by (intro refines_option_eq ref_rules ref_getMemberRole [OF st] refines_write [OF member_writesD(5) [OF st]] ref_frame [OF frame]
        ref_calls [OF frame] refines_bind [OF still_for_each] still_publish [OF frame])
      (simp_all add: member_step.stay kick_step kick_message_check del: set_map)
qed

lemma old_leave_refines:
  assumes store: "old_store og members"
  shows "refines members (a_uid account) jn (members s) (onLeaveGroup og account body) s"
proof -
  note frame = old_storeD(3) [OF store] and st = old_storeD(2) [OF store]
  show ?thesis
    unfolding onLeaveGroup_def Let_def
    by (intro ref_rules ref_memberInfo2 [OF st] refines_bind_if refines_bind_return refines_write [OF member_writesD(6) [OF st]]
        refines_write [OF member_writesD(4) [OF st]] ref_frame [OF frame] ref_calls [OF frame] refines_bind [OF still_if]
        still_calls [OF frame] still_rules)
      (auto intro!: member_step.stay leave_step member_step.hand_over member_step.hand_over_leave next_member)
qed

lemma create_step_V2:
  assumes "t gid = Map.empty"
  shows "member_step (a_uid account) jn t (fold put_user (create_users_V2 gm account body gid now) t)"
proof -
  define us where "us = map (\<lambda>i. (new_user gm gid (c2_members body ! i) ROLE_MEMBER 0 now (c2_membersGroupInfoSecrets body ! i) [])
    \<lparr>gu_encryptedKey := (if c2_ownerKey body \<noteq> [] then c2_memberKeys body ! i else [])\<rparr>) [0..<length (c2_members body)]"
  have us: "\<forall>u \<in> set us. gu_gid u = gid \<and> gu_role u = ROLE_MEMBER" by (auto simp: us_def)
  have "fold put_user (create_users_V2 gm account body gid now) t
      = t(gid := (\<lambda>u. if u \<in> gu_uid ` set us then Some ROLE_MEMBER else t gid u)(a_uid account \<mapsto> ROLE_OWNER))"
    using fold_put_members [OF us, of t] by (simp add: create_users_V2_def us_def [symmetric] put_user_def fun_eq_iff)
  then show ?thesis using assms by (auto intro!: member_step.create)
qed

lemma create_V2_refines:
  assumes store: "old_store og members"
  shows "refines members (a_uid account) jn (members s) (onCreateGroupV2 og account body) s"
proof -
  note frame = old_storeD(3) [OF store] and st = old_storeD(2) [OF store]
  have tail: "refines members (a_uid account) jn (members s) (create_store_V2 og account body now) s'" if "members s' = members s" for s' now
    unfolding create_store_V2_def Let_def
    by (intro ref_rules ref_groups_create [OF st] refines_write [OF member_writesD(3) [OF st]] ref_frame [OF frame] ref_calls [OF frame]
        refines_bind [OF still_for_each] still_calls [OF frame])
      (use that in \<open>auto intro: member_step.stay create_step_V2\<close>)
  show ?thesis
    unfolding onCreateGroupV2_def Let_def
    by (intro ref_rules ref_frame [OF frame] ref_calls [OF frame] tail) (auto intro: member_step.stay)
qed

text \<open>A user who joins through a QR code is let in only when the group has an owner.\<close>

lemma old_join_refines:
  assumes store: "old_store og members"
  shows "refines members (a_uid account) jn (members s) (onGroupJoinRequst og account req) s"
proof -
  note frame = old_storeD(3) [OF store] and st = old_storeD(2) [OF store]
  show ?thesis
    unfolding onGroupJoinRequst_def Let_def
    by (intro ref_rules ref_groups_get [OF st] ref_getGroupOwner [OF st] refines_bind_if refines_bind_return refines_bind_bind
        refines_write [OF member_writesD(1) [OF st]] ref_frame [OF frame] ref_calls [OF frame] refines_bind [OF still_if] still_rules
        still_calls [OF frame])
      (auto intro!: member_step.stay member_step.join dest!: member_writesD(2) [OF st] simp: put_user_def)
qed

lemma wps_any: "(\<And>a s'. Q a s') \<Longrightarrow> wps m Q s"
  by (simp add: wps_def split_beta)

subsection \<open>Handing over keys\<close>

lemma still_distribute_loop:
  assumes store: "old_store og members"
  shows "still members (distribute_loop og gid e existed items fresh present)"
proof (induction items arbitrary: fresh present)
  case (Cons item items)
  then show ?case
    unfolding distribute_loop.simps pubSecretRefreshToUser_def
    by (intro still_rules frame_rules [OF old_storeD(3) [OF store]] old_frame_rules [OF old_storeD(1) [OF store]] missing_keys_no_role)
qed (simp add: still_return)

text \<open>Only users whom the database did not find in the group are new.\<close>

lemma distribute_loop_fresh:
  "wps (distribute_loop og gid e existed items fresh present)
     (\<lambda>r _. \<forall>f p. r = Some (f, p) \<longrightarrow> set f \<subseteq> set fresh \<union> {it \<in> set items. map_of existed (r2_uid it) = None}) s"
proof (induction items arbitrary: fresh present s)
  case Nil
  then show ?case by (simp add: wp)
next
  case (Cons item items)
  let ?Q = "\<lambda>r _. \<forall>f p. r = Some (f, p) \<longrightarrow> set f \<subseteq> set fresh \<union> {it \<in> set (item # items). map_of existed (r2_uid it) = None}"
  have old: "wps (distribute_loop og gid e existed items fresh p) ?Q s'" for p s'
    by (rule wps_mono [OF Cons.IH]) auto
  have new: "wps (distribute_loop og gid e existed items (fresh @ [item]) present) ?Q s'" if "map_of existed (r2_uid item) = None" for s'
    by (rule wps_mono [OF Cons.IH]) (use that in auto)
  show ?case unfolding distribute_loop.simps by (intro wp new old wps_any [where m = "gm_now _"] wps_any [where m = "og_users_updateIfEmpty _ _ _ _"]
      wps_any [where m = "pubSecretRefreshToUser _ _ _ _ _"]) simp_all
qed

lemma distribute_insert_refines:
  assumes store: "old_store og members" and s: "members s = t" and owner: "t gid owner = Some ROLE_OWNER"
    and entitled: "\<exists>r \<in> counted. t gid uid = Some r" and fresh: "\<forall>it \<in> set fresh. t gid (r2_uid it) = None"
  shows "refines members uid jn t (distribute_insert (og_gm og) gid gr e now fresh) s"
proof -
  note frame = old_storeD(3) [OF store] and st = old_storeD(2) [OF store]
  have step: "member_step uid jn t (fold put_user (map (distribute_user (og_gm og) gid gr e now) fresh) t)"
    by (rule bring_step [where gid = gid and owner = owner]) (use fresh owner entitled in \<open>auto simp: distribute_user_def\<close>)
  show ?thesis
    unfolding distribute_insert_def
    by (intro ref_rules refines_write [OF member_writesD(3) [OF st]] ref_frame [OF frame] ref_calls [OF frame]
        refines_bind [OF still_for_each] still_bind still_for_each still_calls [OF frame])
      (simp_all add: s member_step.stay step)
qed

text \<open>A call that leaves the table alone, with what is known of its result.\<close>

lemma refines_result:
  assumes "still members m" and "wps m (\<lambda>a _. P a) s" and "\<And>a s'. P a \<Longrightarrow> members s' = members s \<Longrightarrow> refines members uid jn t (f a) s'"
  shows "refines members uid jn t (State_Monad.bind m f) s"
  by (rule refines_read [OF assms(1), where P = P]) (use assms(2,3) in \<open>auto simp: wps_def split_beta\<close>)

lemma distributeKeys_refines:
  assumes store: "old_store og members" and s: "members s = t" and owner: "t (rl_gid req) owner = Some ROLE_OWNER"
    and entitled: "\<exists>r \<in> counted. t (rl_gid req) uid = Some r"
  shows "refines members uid jn t (distributeKeys og req gr) s"
proof -
  note frame = old_storeD(3) [OF store] and st = old_storeD(2) [OF store]
  let ?gm = "og_gm og" and ?gid = "rl_gid req" and ?items = "filter r2_accepted (rl_list req)"
  have tail: "refines members uid jn t (do {
      ok \<leftarrow> distribute_insert ?gm ?gid gr e now fresh;
      if \<not> ok then State_Monad.return 500
      else do {
        let delList = set_of (rejected @ present @ map r2_uid fresh);
        ec \<leftarrow> (if delList \<noteq> [] then gm_pending_del ?gm ?gid delList else State_Monad.return Dao_Success);
        State_Monad.return (if ec \<noteq> Dao_Success then 500 else 200) } }) s'"
    if "members s' = t" and "\<forall>it \<in> set fresh. t ?gid (r2_uid it) = None" for s' e now rejected present fresh
    by (intro refines_then_still [OF distribute_insert_refines [OF store that(1) owner entitled that(2)]] still_rules frame_rules [OF frame])
  have loop: "refines members uid jn t (do {
      nowMs \<leftarrow> gm_now ?gm;
      r \<leftarrow> distribute_loop og ?gid e (map (\<lambda>u. (gu_uid u, u)) users) ?items [] [];
      case r of
        None \<Rightarrow> State_Monad.return 500
      | Some (fresh, present) \<Rightarrow> do {
          ok \<leftarrow> distribute_insert ?gm ?gid gr e nowMs fresh;
          if \<not> ok then State_Monad.return 500
          else do {
            let delList = set_of (rejected @ present @ map r2_uid fresh);
            ec \<leftarrow> (if delList \<noteq> [] then gm_pending_del ?gm ?gid delList else State_Monad.return Dao_Success);
            State_Monad.return (if ec \<noteq> Dao_Success then 500 else 200) } } }) s'"
    if "members s' = t" and found: "\<forall>u \<in> set (map r2_uid ?items). t ?gid u \<noteq> None \<longrightarrow> u \<in> gu_uid ` set users" for s' e users rejected
  proof -
    have new: "t ?gid (r2_uid it) = None" if "it \<in> set ?items" "map_of (map (\<lambda>u. (gu_uid u, u)) users) (r2_uid it) = None" for it
    proof (rule ccontr)
      assume "t ?gid (r2_uid it) \<noteq> None"
      then have "r2_uid it \<in> gu_uid ` set users" using found that(1) by auto
      with that(2) show False by (auto simp: map_of_eq_None_iff image_image)
    qed
    show ?thesis
      by (intro ref_frame [OF frame] refines_result [OF still_distribute_loop [OF store] distribute_loop_fresh] refines_option_eq refines_prod_eq ref_rules tail)
        (use that(1) new in \<open>auto simp: member_step.stay\<close>)
  qed
  show ?thesis
    unfolding distributeKeys_def Let_def
    by (intro refines_bind_if ref_getMemberBatch [OF st] refines_bind_return ref_rules loop [unfolded Let_def]) (use s in \<open>auto simp: member_step.stay\<close>)
qed

lemma refines_answer_status:
  "refines members uid jn t m s \<Longrightarrow> refines members uid jn t (State_Monad.bind m distribute_answer) s"
  by (erule refines_then_still) (rule still_answers)

lemma old_review_refines:
  assumes store: "old_store og members"
  shows "refines members (a_uid account) jn (members s) (onReviewJoinRequest og account req) s"
proof -
  note frame = old_storeD(3) [OF store] and st = old_storeD(2) [OF store]
  show ?thesis
    unfolding onReviewJoinRequest_def Let_def
    by (intro ref_rules ref_getGroupOwner [OF st] refines_answer_status distributeKeys_refines [OF store, where owner = "a_uid account"] ref_frame [OF frame])
      (auto intro: member_step.stay simp: counted_def)
qed

lemma upload_password_refines:
  assumes store: "old_store og members"
  shows "refines members (a_uid account) jn (members s) (onUploadPassword og account req) s"
proof -
  note frame = old_storeD(3) [OF store] and st = old_storeD(2) [OF store]
  have tail: "refines members (a_uid account) jn (members s) (State_Monad.bind (distributeKeys og req gr) distribute_answer) s'"
    if "members s' = members s" "members s (rl_gid req) owner = Some ROLE_OWNER" "members s (rl_gid req) (a_uid account) = Some r" "r \<in> counted" for gr owner r s'
    using that by (intro refines_answer_status distributeKeys_refines [OF store, where owner = owner]) auto
  show ?thesis
    unfolding onUploadPassword_def Let_def
    by (intro ref_rules ref_getMemberRole [OF st] ref_getGroupOwner [OF st] tail ref_frame [OF frame])
      (auto intro: member_step.stay simp: counted_def)
qed

subsection \<open>Inviting\<close>

text \<open>What the role map says once the database has filled it in.\<close>

definition roles_read :: "string list \<Rightarrow> (string \<Rightarrow> Role option) \<Rightarrow> (string \<times> Role) list \<Rightarrow> bool" where
  "roles_read ms m roleMap \<longleftrightarrow>
     map_of roleMap = (\<lambda>u. if map_of (undefined_roles ms) u = None \<or> m u = None then map_of (undefined_roles ms) u else m u)"

lemma subscribers_read:
  assumes "roles_read ms m roleMap" and "u \<in> set (subscribers roleMap)"
  shows "u \<in> set ms" "m u = Some ROLE_SUBSCRIBER" "map_of roleMap u = Some ROLE_SUBSCRIBER"
  using assms by (auto simp: roles_read_def subscribers_def map_of_undefined_roles split: if_splits)

lemma subscribers_step:
  assumes "roles_read ms (t gid) roleMap" and "t gid uid = Some ROLE_OWNER"
  shows "member_step uid jn t (t(gid := t gid |` (- set (subscribers roleMap))))"
  using subscribers_read(2) [OF assms(1)] assms(2) by (intro member_step.kick) auto

text \<open>The users who are brought in are those of the request who are not members yet; all subscribers are
  among them.\<close>

lemma invite_users_V2_uids: "gu_uid ` set (invite_users_V2 gm body gr e roleMap now) = {u \<in> set (i2_members body). invitable gm roleMap u}"
  by (force simp: invite_users_V2_def in_set_conv_nth)

lemma invite_V2_step:
  assumes store: "member_store gm members" and roles: "roles_read (i2_members body) (t (i2_gid body)) roleMap"
    and entitled: "uid = ''bcm_backend_manager'' \<or> (\<exists>r \<in> counted. t (i2_gid body) uid = Some r)"
    and owner: "t (i2_gid body) owner = Some ROLE_OWNER"
    and t': "t' = t \<or> t' = t(i2_gid body := t (i2_gid body) |` (- set (subscribers roleMap)))"
  shows "member_step uid jn t (fold put_user (invite_users_V2 gm body gr e roleMap now) t')"
proof -
  let ?gid = "i2_gid body" and ?us = "invite_users_V2 gm body gr e roleMap now"
  have us: "\<forall>u \<in> set ?us. gu_gid u = ?gid \<and> gu_role u = ROLE_MEMBER" by (auto simp: invite_users_V2_def)
  have new: "\<forall>u \<in> set ?us. t ?gid (gu_uid u) \<notin> Some ` counted"
    using invitable_new [OF _ _ roles [unfolded roles_read_def] member_storeD(4) [OF store]] invite_users_V2_uids [of gm body gr e roleMap now] by blast
  have "set (subscribers roleMap) \<subseteq> gu_uid ` set ?us"
    using subscribers_read [OF roles] member_storeD(5) [OF store] by (auto simp: invite_users_V2_uids invitable_def)
  then have "fold put_user ?us t' = fold put_user ?us t"
    using t' by (auto simp: fold_put_members [OF us] fun_eq_iff restrict_map_def)
  moreover have "member_step uid jn t (fold put_user ?us t)"
    by (rule bring_step [where t = t and gid = ?gid, OF entitled us new owner])
  ultimately show ?thesis by simp
qed

lemma invite_direct_V2_refines:
  assumes store: "member_store gm members" and stay: "member_step uid jn t (members s)"
    and step: "member_step uid jn t (fold put_user (invite_users_V2 gm body gr e roleMap now) (members s))"
  shows "refines members uid jn t (invite_direct_V2 gm account body gr e roleMap now) s"
  unfolding invite_direct_V2_def Let_def
  by (intro ref_rules refines_write [OF member_writesD(3) [OF store]] ref_calls [OF member_storeD(1) [OF store]]
      refines_bind [OF still_for_each] still_calls [OF member_storeD(1) [OF store]])
    (simp_all add: stay step)

lemma invite_roles_V2_refines:
  assumes store: "member_store gm members" and t: "members s = t"
    and entitled: "a_uid account = ''bcm_backend_manager'' \<or> (\<exists>r \<in> counted. t (i2_gid body) (a_uid account) = Some r)"
    and roles: "roles_read (i2_members body) (t (i2_gid body)) roleMap" and owner: "t (i2_gid body) owner = Some ROLE_OWNER"
  shows "refines members (a_uid account) jn t (invite_roles_V2 gm account body gr owner confirm e roleMap now) s"
proof -
  note frame = member_storeD(1) [OF store]
  let ?gid = "i2_gid body" and ?uid = "a_uid account"
  have gone: "member_step ?uid jn t (t(?gid := t ?gid |` (- set (subscribers roleMap))))" if "owner = ?uid"
    using subscribers_step [where t = t and gid = ?gid and uid = ?uid, OF roles] owner that by simp
  have step: "member_step ?uid jn t (fold put_user (invite_users_V2 gm body gr e roleMap now) (members s'))"
    if "members s' = t \<or> members s' = t(?gid := t ?gid |` (- set (subscribers roleMap)))" for s'
    by (rule invite_V2_step [where t = t and body = body, OF store roles entitled owner that])
  have direct: "refines members ?uid jn t (invite_direct_V2 gm account body gr e roleMap now) s'"
    if "member_step ?uid jn t (members s')" "members s' = t \<or> members s' = t(?gid := t ?gid |` (- set (subscribers roleMap)))" for s'
    by (rule invite_direct_V2_refines [OF store that(1) step [OF that(2)]])
  show ?thesis
    unfolding invite_roles_V2_def
    by (intro refines_bind_if refines_bind_return refines_write [OF member_writesD(5) [OF store]] ref_rules direct ref_calls [OF frame])
      (simp_all add: t gone member_step.stay)
qed

lemma invite_checked_V2_refines:
  assumes store: "old_store og members" and t: "members s = t"
    and entitled: "a_uid account = ''bcm_backend_manager'' \<or> (\<exists>r \<in> counted. t (i2_gid body) (a_uid account) = Some r)"
  shows "refines members (a_uid account) jn t (invite_checked_V2 og account body) s"
proof -
  note frame = old_storeD(3) [OF store] and st = old_storeD(2) [OF store]
  show ?thesis
    unfolding invite_checked_V2_def Let_def
    by (intro ref_rules ref_getGroupOwner [OF st] ref_getMemberRoles [OF st, folded roles_read_def] invite_roles_V2_refines [OF st]
        ref_frame [OF frame])
      (use t entitled in \<open>auto simp: member_step.stay roles_read_def\<close>)
qed

lemma invite_V2_refines:
  assumes store: "old_store og members"
  shows "refines members (a_uid account) jn (members s) (onInviteGroupMemberV2 og account body) s"
proof -
  note frame = old_storeD(3) [OF store] and st = old_storeD(2) [OF store]
  show ?thesis
    unfolding onInviteGroupMemberV2_def Let_def
    by (intro ref_rules ref_getMemberRole [OF st] invite_checked_V2_refines [OF store] ref_frame [OF frame] ref_calls [OF frame])
      (auto intro: member_step.stay simp: counted_def)
qed

section \<open>All requests on groups\<close>

datatype any_request = NewRequest group_request | OldRequest old_request

fun handle_any :: "'s OldGroupManager \<Rightarrow> Account \<Rightarrow> any_request \<Rightarrow> ('s, (answer + old_answer) option) state" where
  "handle_any og account (NewRequest req) = map_state (map_option Inl) (handle (og_gm og) account req)"
| "handle_any og account (OldRequest req) = map_state (map_option Inr) (handle_old og account req)"

fun joins_any :: "any_request \<Rightarrow> u64 option" where
  "joins_any (NewRequest req) = joins req"
| "joins_any (OldRequest req) = None"

lemma refines_map_state: "refines members uid jn t m s \<Longrightarrow> refines members uid jn t (map_state f m) s"
  by (simp add: refines_def wps_def state.map_sel split_beta)

lemma refines_handle_old:
  assumes store: "old_store og members"
  shows "refines members (a_uid account) jn (members s) (handle_old og account req) s"
proof -
  note handlers = still_old_handlers [OF store]
  note quiet = handlers [THEN refines_still, OF member_step.stay]
  show ?thesis
    by (cases req)
      (simp_all add: refines_map_state quiet old_kick_refines [OF store] old_leave_refines [OF store] create_V2_refines [OF store]
        old_join_refines [OF store] old_review_refines [OF store] upload_password_refines [OF store] invite_V2_refines [OF store])
qed

lemma handle_any_step:
  assumes "old_store og members" and "run_state (handle_any og account req) s = (a, s')"
  shows "member_step (a_uid account) (joins_any req) (members s) (members s')"
proof -
  have "refines members (a_uid account) (joins_any req) (members s) (handle_any og account req) s"
    by (cases req) (simp_all add: refines_map_state refines_handle [OF old_storeD(2) [OF assms(1)]] refines_handle_old [OF assms(1)])
  then show ?thesis using assms(2) by (simp add: refines_def wps_def)
qed

text \<open>Requests one after the other, in the order in which the server takes them.\<close>

fun serve :: "'s OldGroupManager \<Rightarrow> (Account \<times> any_request) list \<Rightarrow> 's \<Rightarrow> 's" where
  "serve og [] s = s"
| "serve og ((account, req) # reqs) s = serve og reqs (snd (run_state (handle_any og account req) s))"

text \<open>No user adds itself to a group that has lost its owner.\<close>

fun orderly :: "'s OldGroupManager \<Rightarrow> ('s \<Rightarrow> member_table) \<Rightarrow> (Account \<times> any_request) list \<Rightarrow> 's \<Rightarrow> bool" where
  "orderly og members [] s = True"
| "orderly og members ((account, req) # reqs) s =
     ((case joins_any req of None \<Rightarrow> True | Some gid \<Rightarrow> (\<exists>u. members s gid u = Some ROLE_OWNER))
      \<and> orderly og members reqs (snd (run_state (handle_any og account req) s)))"

section \<open>Properties\<close>

text \<open>C18. The handlers of all versions refine the specification of the table of members: whatever a request is,
  and whichever calls of the database fail on the way, the table changes by one step of \<open>member_step\<close> for
  the user who sent it (create, kick, leave, hand over, join, bring in, or nothing).\<close>

theorem group_requests_refine:
  assumes "old_store og members" and "run_state (handle_any og account req) s = (a, s')"
  shows "member_step (a_uid account) (joins_any req) (members s) (members s')"
  by (rule handle_any_step [OF assms])

text \<open>C17. Groups keep an owner: over any sequence of requests of any users and any version, and whichever calls of
  the database fail, every group that has members has an owner, as long as no user adds itself with a QR ticket
  to a group whose owner has left.\<close>

theorem groups_keep_owner:
  assumes "old_store og members" and "\<forall>gid. owned (members s gid)" and "orderly og members reqs s"
  shows "owned (members (serve og reqs s) gid)"
  using assms(2,3)
proof (induction reqs arbitrary: s)
  case Nil
  then show ?case by simp
next
  case (Cons ar reqs)
  obtain account req where ar: "ar = (account, req)" by fastforce
  let ?s' = "snd (run_state (handle_any og account req) s)"
  have step: "member_step (a_uid account) (joins_any req) (members s) (members ?s')"
    by (rule handle_any_step [OF assms(1)]) (rule prod.collapse [symmetric])
  have "owned (members ?s' g)" for g
    using Cons.prems by (intro member_step_owned [OF step]) (auto simp: ar)
  then show ?case using Cons by (simp add: ar)
qed

text \<open>C19. Nobody but an owner of a group changes what another member is: when a request takes another user
  out of a group, or changes its role, the user who sent the request owned the group.\<close>

theorem only_owner_changes_members:
  assumes "old_store og members" and "run_state (handle_any og account req) s = (a, s')"
    and "members s gid u = Some r" and "r \<in> counted" and "u \<noteq> a_uid account" and "members s' gid u \<noteq> Some r"
  shows "members s gid (a_uid account) = Some ROLE_OWNER"
  using handle_any_step [OF assms(1,2)] assms(3-6) by (cases rule: member_step.cases) (auto split: if_splits)

text \<open>C20. Nobody enters a group unasked: a user who becomes a member in a request is the one who sent it,
  or is brought in by the creator of the group, by one of its members or by the backend; and one who becomes an
  owner has created the group or was given it by its owner.\<close>

theorem members_enter_by_members:
  assumes "old_store og members" and "run_state (handle_any og account req) s = (a, s')" and "members s' gid u \<noteq> members s gid u"
  shows "(members s' gid u = Some ROLE_MEMBER \<longrightarrow>
        u = a_uid account \<or> members s gid = Map.empty \<and> members s' gid (a_uid account) = Some ROLE_OWNER
        \<or> a_uid account = ''bcm_backend_manager'' \<or> (\<exists>r \<in> counted. members s gid (a_uid account) = Some r))
    \<and> (members s' gid u = Some ROLE_OWNER \<longrightarrow>
        members s gid (a_uid account) = Some ROLE_OWNER \<or> members s gid = Map.empty \<and> u = a_uid account)"
  using handle_any_step [OF assms(1,2)] assms(3)
  by (cases rule: member_step.cases) (auto simp: restrict_map_def counted_def split: if_splits)

section \<open>The database of the examples\<close>

definition demo_og :: "member_table OldGroupManager" where
  "demo_og = \<lparr>og_gm = demo_gm, og_encryptOff = 0, og_roleSize = 5, og_roleMin = 0, og_roleMax = 4, og_keyRefresh = (\<lambda>_ _ _ _. []),
     og_hours = demo_read (\<lambda>_. 0),
     og_groupDetail = (\<lambda>_ _. demo_read (\<lambda>_. (Dao_NoSuchData, \<lparr>ud_group = Group_new, ud_user = GroupUser_new,
       ud_counter = \<lparr>gc_owner = [], gc_memberCnt = 0, gc_subscriberCnt = 0\<rparr>\<rparr>))),
     og_groupDetailBatch = (\<lambda>_ _. demo_read (\<lambda>_. (Dao_NoSuchData, []))), og_joinedGroupsList = (\<lambda>_. demo_read (\<lambda>_. (Dao_NoSuchData, []))),
     og_membersByRoles = (\<lambda>_ _. demo_read (\<lambda>_. (Dao_NoSuchData, []))), og_membersByRolesFrom = (\<lambda>_ _ _ _. demo_read (\<lambda>_. (Dao_NoSuchData, []))),
     og_membersOrdered = (\<lambda>_ _ _ _ _. demo_read (\<lambda>_. (Dao_NoSuchData, []))), og_users_update = (\<lambda>_ _ _. demo_read (\<lambda>_. Dao_Success)),
     og_users_updateIfEmpty = (\<lambda>_ _ _. demo_read (\<lambda>_. Dao_Success)), og_pending_query = (\<lambda>_ _ _. demo_read (\<lambda>_. (Dao_NoSuchData, []))),
     og_setExtensions = (\<lambda>_ _. demo_read (\<lambda>_. Dao_Success)), og_getExtensions = (\<lambda>_ _. demo_read (\<lambda>_. (Dao_NoSuchData, [])))\<rparr>"

lemma demo_old_store: "old_store demo_og (\<lambda>t. t)"
  using demo_store by (simp add: old_store_def old_frame_def demo_og_def)

text \<open>The owner kicks \<open>bob\<close> with the request of version 1; \<open>bob\<close> adds itself again with version 3.\<close>

definition demo_old_kick :: any_request where
  "demo_old_kick = OldRequest (OldKick \<lparr>kb_gid = 7, kb_members = [''bob'']\<rparr>)"

lemma demo_old_kick_run:
  "run_state (handle_any demo_og demo_owner demo_old_kick) demo_table
    = (Some (Inr (Inr (200, Some (Response (GroupResponse_new ERRORCODE_SUCCESS ''success''))))), demo_table(7 := [''amy'' \<mapsto> ROLE_OWNER]))"
proof -
  have gone: "demo_table 7 |` (- {''bob''}) = [''amy'' \<mapsto> ROLE_OWNER]"
    by (auto simp: demo_table_def restrict_map_def fun_eq_iff)
  have [simp]: "demo_table 7 ''amy'' = Some ROLE_OWNER" "demo_table 7 ''bob'' = Some ROLE_MEMBER" by (simp_all add: demo_table_def)
  show ?thesis
    by (simp add: demo_old_kick_def demo_og_def demo_owner_def demo_gm_def state.map_sel onKickGroupMember_def KickGroupMemberBody_message_def
        member_uid_ok_def kMaxGroupCreateMemberCount_def kMaxGroupUidLength_def to_kick_def List.map_filter_def respond_def demo_run_simps gone)
qed

lemma demo_new_add_run:
  "run_state (handle_any demo_og demo_joiner (NewRequest demo_add)) (demo_table(7 := [''amy'' \<mapsto> ROLE_OWNER]))
    = (Some (Inl (Inr (200, None))), demo_table)"
  using demo_add_run by (simp add: demo_og_def state.map_sel map_prod_def split_beta)

theorem group_requests_refine_witness:
  "member_step ''amy'' None demo_table (demo_table(7 := [''amy'' \<mapsto> ROLE_OWNER]))"
  using group_requests_refine [OF demo_old_store demo_old_kick_run] by (simp add: demo_owner_def demo_old_kick_def)

theorem groups_keep_owner_witness:
  "serve demo_og [(demo_owner, demo_old_kick), (demo_joiner, NewRequest demo_add)] demo_table 7 ''bob'' = Some ROLE_MEMBER
    \<and> owned (serve demo_og [(demo_owner, demo_old_kick), (demo_joiner, NewRequest demo_add)] demo_table 7)"
proof
  show "serve demo_og [(demo_owner, demo_old_kick), (demo_joiner, NewRequest demo_add)] demo_table 7 ''bob'' = Some ROLE_MEMBER"
    by (simp add: demo_old_kick_run demo_new_add_run del: handle_any.simps) (simp add: demo_table_def)
  have "\<forall>gid. owned (demo_table gid)"
    by (auto simp: owned_def demo_table_def)
  moreover have "orderly demo_og (\<lambda>t. t) [(demo_owner, demo_old_kick), (demo_joiner, NewRequest demo_add)] demo_table"
    by (simp add: demo_old_kick_run del: handle_any.simps) (auto simp: demo_old_kick_def demo_add_def)
  ultimately show "owned (serve demo_og [(demo_owner, demo_old_kick), (demo_joiner, NewRequest demo_add)] demo_table 7)"
    by (rule groups_keep_owner [OF demo_old_store])
qed

theorem only_owner_changes_members_witness:
  "demo_table 7 ''bob'' = Some ROLE_MEMBER \<and> (demo_table(7 := [''amy'' \<mapsto> ROLE_OWNER])) 7 ''bob'' = None \<and> demo_table 7 ''amy'' = Some ROLE_OWNER"
  using only_owner_changes_members [OF demo_old_store demo_old_kick_run, of 7 "''bob''" ROLE_MEMBER]
  by (simp add: demo_owner_def demo_table_def counted_def)

theorem members_enter_by_members_witness:
  "(demo_table(7 := [''amy'' \<mapsto> ROLE_OWNER])) 7 ''bob'' = None \<and> demo_table 7 ''bob'' = Some ROLE_MEMBER
    \<and> (''bob'' = a_uid demo_joiner \<or> (demo_table(7 := [''amy'' \<mapsto> ROLE_OWNER])) 7 = Map.empty \<and> demo_table 7 (a_uid demo_joiner) = Some ROLE_OWNER
      \<or> a_uid demo_joiner = ''bcm_backend_manager''
      \<or> (\<exists>r \<in> counted. (demo_table(7 := [''amy'' \<mapsto> ROLE_OWNER])) 7 (a_uid demo_joiner) = Some r))"
  using members_enter_by_members [OF demo_old_store demo_new_add_run, of 7 "''bob''"] by (simp add: demo_table_def)

section \<open>What the older handlers allow\<close>

text \<open>A key or value beyond its limit is stored all the same.\<close>

lemma extension_limit_ignored:
  assumes "run_state (gm_users_getMemberRole (og_gm og) (ex_gid req) (a_uid account)) s = ((Dao_Success, ROLE_OWNER), s1)"
    and "ex_extensions req = [(key, text)]" and "128 * 1024 < length text"
    and "run_state (og_setExtensions og (ex_gid req) (ex_extensions req)) s1 = (Dao_Success, s2)"
  shows "run_state (onSetGroupExtensionInfo og account req) s = (Inr (200, None), s2)"
  using assms by (simp add: onSetGroupExtensionInfo_def status_only_def Let_def)

text \<open>A member who is not the owner puts a user in a group in which the owner has to confirm.\<close>

definition demo_confirm_og :: "member_table OldGroupManager" where
  "demo_confirm_og = demo_og\<lparr>og_gm := demo_gm\<lparr>gm_groups_get := (\<lambda>gid. demo_read (\<lambda>_. (Dao_Success, Group_new\<lparr>g_gid := gid, g_ownerConfirm := 1,
     g_shareQrCodeSetting := ''q'', g_shareSignature := ''s'', g_shareAndOwnerConfirmSignature := ''c''\<rparr>)))\<rparr>\<rparr>"

lemma upload_without_confirmation:
  "snd (run_state (onUploadPassword demo_confirm_og demo_joiner
     \<lparr>rl_gid = 7, rl_list = [\<lparr>r2_uid = ''eve'', r2_accepted = True, r2_groupSecret = [], r2_groupInfoSecret = [], r2_inviter = []\<rparr>]\<rparr>) demo_table) 7 ''eve''
   = Some ROLE_MEMBER"
  by (simp add: onUploadPassword_def demo_confirm_og_def demo_og_def demo_gm_def demo_joiner_def demo_table_def ReviewJoinResultList_check_def
      kMaxAccountUidLength_def kMaxGroupKeyLength_def kMaxGroupInfoSecretLength_def setting_present_def setting_verified_def verifyGroupSetting_def
      verifySignature_def distributeKeys_def distribute_insert_def invitees_V2_def set_of_def distribute_answer_def respond_def
      distribute_user_def put_user_def demo_run_simps)

end
