(* ===== verification/Online_Members.thy ===== *)
theory Online_Members
  imports Group_Manager
begin

text \<open>
  \<open>src/group/member_mgr_base.cpp\<close>, \<open>online_msg_member_mgr.cpp\<close>, \<open>group_msg_sub.cpp\<close> and
  \<open>group_event_sub.cpp\<close>: which devices connected to this server belong to which group. The table
  follows four kinds of events (a device connects or disconnects, a user enters or leaves a group) and asks
  the database for the groups of a user. A \<open>std::set<DispatchAddress>\<close> is a list sorted by serialized
  addresses. The handlers run on several threads; what each does between two locks or database calls is a
  phase, a handler is the composition of its phases, and the step relation interleaves the phases of any
  number of handlers.
\<close>

section \<open>Sets of addresses\<close>

type_synonym UserSet = "DispatchAddress list"

definition us_insert :: "DispatchAddress \<Rightarrow> UserSet \<Rightarrow> UserSet" where
  "us_insert u s = insort_insert_key getSerialized u s"

definition us_erase :: "DispatchAddress \<Rightarrow> UserSet \<Rightarrow> UserSet" where
  "us_erase u s = filter (\<lambda>v. v \<noteq> u) s"

definition us_ok :: "UserSet \<Rightarrow> bool" where
  "us_ok s \<longleftrightarrow> sorted (map getSerialized s) \<and> distinct s"

section \<open>State\<close>

text \<open>The calls of the Redis manager are a log.\<close>

datatype sub_call = SubscribeChannel string | UnsubscribeChannel string

record OnlineMsgMemberMgr =
  om_onlineUsers :: "(string \<times> UserSet) list"
  om_groupMembers :: "(u64 \<times> UserSet) list"
  om_groupSub :: bool
  om_calls :: "sub_call list"

definition OnlineMsgMemberMgr_new :: OnlineMsgMemberMgr where
  "OnlineMsgMemberMgr_new = \<lparr>om_onlineUsers = [], om_groupMembers = [], om_groupSub = False, om_calls = []\<rparr>"

definition addGroupMsgSubHandler :: "OnlineMsgMemberMgr \<Rightarrow> OnlineMsgMemberMgr" where
  "addGroupMsgSubHandler m = m\<lparr>om_groupSub := True\<rparr>"

section \<open>Channels of groups\<close>

definition group_channel :: "u64 \<Rightarrow> string" where
  "group_channel g = ''group_'' @ to_dec (unat g)"

definition subscribeGids :: "u64 list \<Rightarrow> OnlineMsgMemberMgr \<Rightarrow> OnlineMsgMemberMgr" where
  "subscribeGids gids m = m\<lparr>om_calls := om_calls m @ map (SubscribeChannel \<circ> group_channel) gids\<rparr>"

definition unsubcribeGids :: "u64 list \<Rightarrow> OnlineMsgMemberMgr \<Rightarrow> OnlineMsgMemberMgr" where
  "unsubcribeGids gids m = m\<lparr>om_calls := om_calls m @ map (UnsubscribeChannel \<circ> group_channel) gids\<rparr>"

text \<open>What the handlers do with the channels they have collected.\<close>

definition subscribe_chans :: "u64 list \<Rightarrow> OnlineMsgMemberMgr \<Rightarrow> OnlineMsgMemberMgr" where
  "subscribe_chans gids m = (if gids \<noteq> [] \<and> om_groupSub m then subscribeGids gids m else m)"

definition unsubscribe_chans :: "u64 list \<Rightarrow> OnlineMsgMemberMgr \<Rightarrow> OnlineMsgMemberMgr" where
  "unsubscribe_chans gids m = (if gids \<noteq> [] \<and> om_groupSub m then unsubcribeGids gids m else m)"

definition isGroupMessageChannel :: "string \<Rightarrow> bool" where
  "isGroupMessageChannel chan \<longleftrightarrow> take 6 chan = ''group_'' \<or> take 8 chan = ''instant_''"

section \<open>The base class\<close>

definition getGroupMembers :: "u64 \<Rightarrow> OnlineMsgMemberMgr \<Rightarrow> UserSet" where
  "getGroupMembers gid m = (case map_of (om_groupMembers m) gid of None \<Rightarrow> [] | Some users \<Rightarrow> users)"

definition getGroupMembers_into :: "u64 \<Rightarrow> UserSet \<Rightarrow> OnlineMsgMemberMgr \<Rightarrow> UserSet" where
  "getGroupMembers_into gid uids m =
     (case map_of (om_groupMembers m) gid of None \<Rightarrow> uids | Some users \<Rightarrow> fold us_insert users uids)"

definition isGroupExist :: "u64 \<Rightarrow> OnlineMsgMemberMgr \<Rightarrow> bool" where
  "isGroupExist gid m \<longleftrightarrow> map_of (om_groupMembers m) gid \<noteq> None"

definition removeGroupMemberNoLock :: "DispatchAddress \<Rightarrow> u64 \<Rightarrow> OnlineMsgMemberMgr \<Rightarrow> OnlineMsgMemberMgr" where
  "removeGroupMemberNoLock user gid m =
     (case map_of (om_groupMembers m) gid of
        None \<Rightarrow> m
      | Some users \<Rightarrow>
          (let users = us_erase user users
           in if users = [] then m\<lparr>om_groupMembers := sm_del gid (om_groupMembers m)\<rparr>
              else m\<lparr>om_groupMembers := sm_put gid users (om_groupMembers m)\<rparr>))"

definition removeGroupMembers :: "UserSet \<Rightarrow> u64 \<Rightarrow> OnlineMsgMemberMgr \<Rightarrow> OnlineMsgMemberMgr" where
  "removeGroupMembers users gid m = fold (\<lambda>user. removeGroupMemberNoLock user gid) users m"

definition removeMemberForGroups :: "DispatchAddress \<Rightarrow> u64 list \<Rightarrow> OnlineMsgMemberMgr \<Rightarrow> OnlineMsgMemberMgr" where
  "removeMemberForGroups user gids m = fold (removeGroupMemberNoLock user) gids m"

text \<open>\<open>m_groupMembers[gid].insert(user)\<close>.\<close>

definition insert_member :: "DispatchAddress \<Rightarrow> u64 \<Rightarrow> OnlineMsgMemberMgr \<Rightarrow> OnlineMsgMemberMgr" where
  "insert_member user gid m = m\<lparr>om_groupMembers := sm_put gid (us_insert user (getGroupMembers gid m)) (om_groupMembers m)\<rparr>"

section \<open>Connected devices\<close>

definition getOnlineUsers :: "string \<Rightarrow> OnlineMsgMemberMgr \<Rightarrow> UserSet" where
  "getOnlineUsers uid m = (case map_of (om_onlineUsers m) uid of None \<Rightarrow> [] | Some users \<Rightarrow> users)"

text \<open>The block of \<open>doHandleUserOnline\<close> under the lock of the connected users. \<open>False\<close>: the
  device was there already, and the handler returns.\<close>

definition online_add :: "DispatchAddress \<Rightarrow> OnlineMsgMemberMgr \<Rightarrow> bool \<times> OnlineMsgMemberMgr" where
  "online_add user m =
     (case map_of (om_onlineUsers m) (da_uid user) of
        None \<Rightarrow> (True, m\<lparr>om_onlineUsers := sm_put (da_uid user) [user] (om_onlineUsers m)\<rparr>)
      | Some users \<Rightarrow>
          if user \<in> set users then (False, m)
          else (True, m\<lparr>om_onlineUsers := sm_put (da_uid user) (us_insert user users) (om_onlineUsers m)\<rparr>))"

definition online_remove :: "DispatchAddress \<Rightarrow> OnlineMsgMemberMgr \<Rightarrow> OnlineMsgMemberMgr" where
  "online_remove user m =
     (case map_of (om_onlineUsers m) (da_uid user) of
        None \<Rightarrow> m
      | Some users \<Rightarrow>
          if user \<in> set users then m\<lparr>om_onlineUsers := sm_put (da_uid user) (us_erase user users) (om_onlineUsers m)\<rparr> else m)"

text \<open>A role with which a member receives the messages of a group. The numbers of the roles come from the
  generated code of the protocol.\<close>

definition receives :: "(Role \<Rightarrow> int) \<Rightarrow> Role \<Rightarrow> bool" where
  "receives roleNo r \<longleftrightarrow> roleNo ROLE_UNDEFINE < roleNo r \<and> roleNo r < roleNo ROLE_SUBSCRIBER"

text \<open>The loop over the groups of a user, under the lock of the members, with the channels to subscribe.\<close>

fun join_loop :: "(Role \<Rightarrow> int) \<Rightarrow> DispatchAddress \<Rightarrow> (u64 \<times> Role) list \<Rightarrow> u64 list \<Rightarrow> OnlineMsgMemberMgr \<Rightarrow> u64 list \<times> OnlineMsgMemberMgr" where
  "join_loop roleNo user [] chans m = (chans, m)"
| "join_loop roleNo user ((gid, role) # ds) chans m =
     (let chans = (if isGroupExist gid m then chans else chans @ [gid]);
          m = (if receives roleNo role then insert_member user gid m else m)
      in join_loop roleNo user ds chans m)"

text \<open>The answers of the database: the groups of a user with the roles, the groups, the role in one group.\<close>

record UserGroups =
  ug_getJoinedGroupsList :: "string \<Rightarrow> dao_code \<times> (u64 \<times> Role) list"
  ug_getJoinedGroups :: "string \<Rightarrow> dao_code \<times> u64 list"
  ug_getGroupDetailByGid :: "u64 \<Rightarrow> string \<Rightarrow> dao_code \<times> Role"

definition doHandleUserOnline :: "(Role \<Rightarrow> int) \<Rightarrow> UserGroups \<Rightarrow> DispatchAddress \<Rightarrow> OnlineMsgMemberMgr \<Rightarrow> OnlineMsgMemberMgr" where
  "doHandleUserOnline roleNo db user m =
     (let (added, m) = online_add user m
      in if \<not> added then m
         else case ug_getJoinedGroupsList db (da_uid user) of
                (ec, details) \<Rightarrow>
                  if ec \<noteq> Dao_Success then m
                  else let (chans, m) = join_loop roleNo user details [] m in subscribe_chans chans m)"

definition doHandleUserOffline :: "UserGroups \<Rightarrow> DispatchAddress \<Rightarrow> OnlineMsgMemberMgr \<Rightarrow> OnlineMsgMemberMgr" where
  "doHandleUserOffline db user m =
     (let m = online_remove user m
      in case ug_getJoinedGroups db (da_uid user) of
           (ec, gids) \<Rightarrow>
             if ec \<noteq> Dao_Success then m
             else let m = (if gids = [] then m else removeMemberForGroups user gids m)
                  in unsubscribe_chans (filter (\<lambda>d. \<not> isGroupExist d m) gids) m)"

text \<open>The block of \<open>doHandleUserEnterGroup\<close> under the lock of the members.\<close>

definition enter_members :: "UserSet \<Rightarrow> u64 \<Rightarrow> OnlineMsgMemberMgr \<Rightarrow> u64 list \<times> OnlineMsgMemberMgr" where
  "enter_members users gid m =
     (if isGroupExist gid m then [] else [gid], fold (\<lambda>user. insert_member user gid) users m)"

definition doHandleUserEnterGroup :: "(Role \<Rightarrow> int) \<Rightarrow> UserGroups \<Rightarrow> string \<Rightarrow> u64 \<Rightarrow> OnlineMsgMemberMgr \<Rightarrow> OnlineMsgMemberMgr" where
  "doHandleUserEnterGroup roleNo db uid gid m =
     (let users = getOnlineUsers uid m
      in if users = [] then m
         else case ug_getGroupDetailByGid db gid uid of
                (ec, role) \<Rightarrow>
                  if ec \<noteq> Dao_Success then m
                  else if receives roleNo role
                  then let (chans, m) = enter_members users gid m in subscribe_chans chans m
                  else m)"

definition doHandleUserLeaveGroup :: "string \<Rightarrow> u64 \<Rightarrow> OnlineMsgMemberMgr \<Rightarrow> OnlineMsgMemberMgr" where
  "doHandleUserLeaveGroup uid gid m =
     (let users = getOnlineUsers uid m
      in if users = [] then m
         else let m = removeGroupMembers users gid m
              in if isGroupExist gid m then m else unsubscribe_chans [gid] m)"

section \<open>Events of groups\<close>

text \<open>A message on a channel \<open>user_*\<close>, as it is published by the controllers; what does not parse is
  logged. The events that are not about entering or leaving have no effect.\<close>

definition handleEvent :: "(Role \<Rightarrow> int) \<Rightarrow> UserGroups \<Rightarrow> int \<Rightarrow> string \<Rightarrow> u64 \<Rightarrow> OnlineMsgMemberMgr \<Rightarrow> OnlineMsgMemberMgr" where
  "handleEvent roleNo db ty uid gid m =
     (if ty = INTERNAL_USER_ENTER_GROUP then doHandleUserEnterGroup roleNo db uid gid m
      else if ty = INTERNAL_USER_QUIT_GROUP then doHandleUserLeaveGroup uid gid m
      else m)"

definition onGroupEvent :: "(string \<Rightarrow> json option) \<Rightarrow> (Role \<Rightarrow> int) \<Rightarrow> UserGroups \<Rightarrow> string \<Rightarrow> OnlineMsgMemberMgr \<Rightarrow> OnlineMsgMemberMgr" where
  "onGroupEvent parse roleNo db msg m =
     (case Option.bind (parse msg) GroupEvent_from_json of
        None \<Rightarrow> m
      | Some e \<Rightarrow> handleEvent roleNo db (ge_type e) (ge_uid e) (ge_gid e) m)"

section \<open>Laws of the sets and tables\<close>

lemma set_us_insert [simp]: "set (us_insert u s) = insert u (set s)"
  by (auto simp: us_insert_def insort_insert_key_def set_insort_key)

lemma set_us_erase [simp]: "set (us_erase u s) = set s - {u}"
  by (auto simp: us_erase_def)

lemma us_insert_not_Nil [simp]: "us_insert u s \<noteq> []"
  by (metis empty_iff insertI1 list.set(1) set_us_insert)

lemma us_ok_simps [simp]: "us_ok []" "us_ok [u]"
  by (simp_all add: us_ok_def)

lemma us_ok_insert [inv_pres]: "us_ok s \<Longrightarrow> us_ok (us_insert u s)"
  by (simp add: us_ok_def us_insert_def sorted_insort_insert_key distinct_insort_insert)

lemma us_ok_erase [inv_pres]: "us_ok s \<Longrightarrow> us_ok (us_erase u s)"
  by (simp add: us_ok_def us_erase_def sorted_filter)

lemma set_fold_us_insert: "set (fold us_insert us s) = set us \<union> set s"
  by (induction us arbitrary: s) auto

lemma us_ok_fold_insert: "us_ok s \<Longrightarrow> us_ok (fold us_insert us s)"
  by (induction us arbitrary: s) (auto intro: us_ok_insert)

text \<open>Two sets with the same elements are the same list.\<close>

lemma us_ok_ext:
  assumes "us_ok s" and "us_ok t" and "set s = set t"
  shows "s = t"
proof -
  have "inj_on getSerialized A" for A by (rule inj_onI) simp
  then have "map getSerialized s = map getSerialized t"
    using assms by (intro sorted_distinct_set_unique) (simp_all add: us_ok_def distinct_map)
  then show ?thesis by (rule map_injective) (simp add: inj_def)
qed

lemma group_channel_inj [simp]: "group_channel g = group_channel h \<longleftrightarrow> g = h"
  by (simp add: group_channel_def to_dec_inj word_unat_eq_iff)

text \<open>What the operations leave alone.\<close>

lemma chans_frame [frame]:
  "om_onlineUsers (subscribe_chans gs m) = om_onlineUsers m" "om_groupMembers (subscribe_chans gs m) = om_groupMembers m"
  "om_onlineUsers (unsubscribe_chans gs m) = om_onlineUsers m" "om_groupMembers (unsubscribe_chans gs m) = om_groupMembers m"
  "om_groupSub (subscribe_chans gs m) = om_groupSub m" "om_groupSub (unsubscribe_chans gs m) = om_groupSub m"
  by (simp_all add: subscribe_chans_def unsubscribe_chans_def subscribeGids_def unsubcribeGids_def)

lemma remove_frame [frame]:
  "om_onlineUsers (removeGroupMemberNoLock u g m) = om_onlineUsers m" "om_groupSub (removeGroupMemberNoLock u g m) = om_groupSub m"
  "om_calls (removeGroupMemberNoLock u g m) = om_calls m"
  by (simp_all add: removeGroupMemberNoLock_def Let_def split: option.split)

lemma fold_remove_frame [frame]:
  "om_onlineUsers (removeGroupMembers us g m) = om_onlineUsers m" "om_groupSub (removeGroupMembers us g m) = om_groupSub m"
  "om_calls (removeGroupMembers us g m) = om_calls m"
  "om_onlineUsers (removeMemberForGroups u gs m) = om_onlineUsers m" "om_groupSub (removeMemberForGroups u gs m) = om_groupSub m"
  "om_calls (removeMemberForGroups u gs m) = om_calls m"
  unfolding removeGroupMembers_def removeMemberForGroups_def
  by (induction us arbitrary: m) (simp_all add: frame, (induction gs arbitrary: m, simp_all add: frame)+)

lemma insert_frame [frame]:
  "om_onlineUsers (insert_member u g m) = om_onlineUsers m" "om_groupSub (insert_member u g m) = om_groupSub m"
  "om_calls (insert_member u g m) = om_calls m"
  by (simp_all add: insert_member_def)

lemma fold_insert_frame [frame]:
  "om_onlineUsers (fold (\<lambda>u. insert_member u g) us m) = om_onlineUsers m"
  "om_groupSub (fold (\<lambda>u. insert_member u g) us m) = om_groupSub m" "om_calls (fold (\<lambda>u. insert_member u g) us m) = om_calls m"
  by (induction us arbitrary: m) (simp_all add: frame)

lemma join_loop_frame [frame]:
  "om_onlineUsers (snd (join_loop rn u ds cs m)) = om_onlineUsers m" "om_groupSub (snd (join_loop rn u ds cs m)) = om_groupSub m"
  "om_calls (snd (join_loop rn u ds cs m)) = om_calls m"
  by (induction rn u ds cs m rule: join_loop.induct) (simp_all add: frame Let_def)

lemma online_frame [frame]:
  "om_groupMembers (snd (online_add u m)) = om_groupMembers m" "om_groupSub (snd (online_add u m)) = om_groupSub m"
  "om_calls (snd (online_add u m)) = om_calls m"
  "om_groupMembers (online_remove u m) = om_groupMembers m" "om_groupSub (online_remove u m) = om_groupSub m"
  "om_calls (online_remove u m) = om_calls m"
  by (simp_all add: online_add_def online_remove_def split: option.split)

text \<open>What the tables hold afterwards.\<close>

lemma getGroupMembers_frame: "om_groupMembers m' = om_groupMembers m \<Longrightarrow> getGroupMembers g m' = getGroupMembers g m"
  by (simp add: getGroupMembers_def)

lemma getGroupMembers_remove:
  "getGroupMembers h (removeGroupMemberNoLock u g m) = (if h = g then us_erase u (getGroupMembers h m) else getGroupMembers h m)"
  by (auto simp: getGroupMembers_def removeGroupMemberNoLock_def Let_def us_erase_def split: option.split)

lemma getGroupMembers_insert:
  "getGroupMembers h (insert_member u g m) = (if h = g then us_insert u (getGroupMembers h m) else getGroupMembers h m)"
  by (simp add: getGroupMembers_def insert_member_def)

lemma members_removeGroupMembers:
  "set (getGroupMembers h (removeGroupMembers us g m)) = (if h = g then set (getGroupMembers h m) - set us else set (getGroupMembers h m))"
  unfolding removeGroupMembers_def by (induction us arbitrary: m) (auto simp: getGroupMembers_remove)

lemma members_removeMemberForGroups:
  "set (getGroupMembers h (removeMemberForGroups u gs m)) = (if h \<in> set gs then set (getGroupMembers h m) - {u} else set (getGroupMembers h m))"
  unfolding removeMemberForGroups_def by (induction gs arbitrary: m) (auto simp: getGroupMembers_remove)

lemma members_fold_insert:
  "set (getGroupMembers h (fold (\<lambda>u. insert_member u g) us m)) = (if h = g then set us \<union> set (getGroupMembers h m) else set (getGroupMembers h m))"
  by (induction us arbitrary: m) (auto simp: getGroupMembers_insert)

lemma members_join_loop:
  "set (getGroupMembers h (snd (join_loop rn u ds cs m)))
    = set (getGroupMembers h m) \<union> (if \<exists>r. (h, r) \<in> set ds \<and> receives rn r then {u} else {})"
  by (induction rn u ds cs m rule: join_loop.induct) (auto simp: getGroupMembers_insert Let_def)

lemma getOnlineUsers_add:
  "set (getOnlineUsers uid (snd (online_add u m))) = (if uid = da_uid u then insert u (set (getOnlineUsers uid m)) else set (getOnlineUsers uid m))"
  by (auto simp: online_add_def getOnlineUsers_def split: option.split)

lemma getOnlineUsers_remove:
  "set (getOnlineUsers uid (online_remove u m)) = (if uid = da_uid u then set (getOnlineUsers uid m) - {u} else set (getOnlineUsers uid m))"
  by (auto simp: online_remove_def getOnlineUsers_def split: option.split)

lemma getOnlineUsers_frame: "om_onlineUsers m' = om_onlineUsers m \<Longrightarrow> getOnlineUsers u m' = getOnlineUsers u m"
  by (simp add: getOnlineUsers_def)

section \<open>Interleaved handlers\<close>

text \<open>The phases in which a handler can be interrupted: it waits for an answer of the database, for a lock,
  or to call the Redis manager.\<close>

datatype member_event =
    ConnectEvent DispatchAddress
  | DisconnectEvent DispatchAddress
  | EnterEvent string u64
  | LeaveEvent string u64

datatype phase =
    OnlineReply DispatchAddress
  | OfflineReply DispatchAddress
  | OfflineCheck "u64 list" "u64 list"
  | EnterReply string u64 UserSet
  | LeaveRemove u64 UserSet
  | LeaveCheck u64
  | SubscribeLater "u64 list"
  | UnsubscribeLater "u64 list"

fun start_event :: "member_event \<Rightarrow> OnlineMsgMemberMgr \<Rightarrow> OnlineMsgMemberMgr \<times> phase list" where
  "start_event (ConnectEvent u) m = (let (added, m) = online_add u m in (m, if added then [OnlineReply u] else []))"
| "start_event (DisconnectEvent u) m = (online_remove u m, [OfflineReply u])"
| "start_event (EnterEvent uid gid) m =
     (m, if getOnlineUsers uid m = [] then [] else [EnterReply uid gid (getOnlineUsers uid m)])"
| "start_event (LeaveEvent uid gid) m = (m, if getOnlineUsers uid m = [] then [] else [LeaveRemove gid (getOnlineUsers uid m)])"

fun next_phase :: "(Role \<Rightarrow> int) \<Rightarrow> UserGroups \<Rightarrow> phase \<Rightarrow> OnlineMsgMemberMgr \<Rightarrow> OnlineMsgMemberMgr \<times> phase list" where
  "next_phase rn db (OnlineReply u) m =
     (case ug_getJoinedGroupsList db (da_uid u) of
        (ec, details) \<Rightarrow>
          if ec \<noteq> Dao_Success then (m, [])
          else let (chans, m) = join_loop rn u details [] m in (m, [SubscribeLater chans]))"
| "next_phase rn db (OfflineReply u) m =
     (case ug_getJoinedGroups db (da_uid u) of
        (ec, gids) \<Rightarrow>
          if ec \<noteq> Dao_Success then (m, [])
          else (if gids = [] then m else removeMemberForGroups u gids m, [OfflineCheck gids []]))"
| "next_phase rn db (OfflineCheck [] chans) m = (m, [UnsubscribeLater chans])"
| "next_phase rn db (OfflineCheck (g # gids) chans) m =
     (m, [OfflineCheck gids (if isGroupExist g m then chans else chans @ [g])])"
| "next_phase rn db (EnterReply uid gid users) m =
     (case ug_getGroupDetailByGid db gid uid of
        (ec, role) \<Rightarrow>
          if ec \<noteq> Dao_Success then (m, [])
          else if receives rn role then let (chans, m) = enter_members users gid m in (m, [SubscribeLater chans])
          else (m, []))"
| "next_phase rn db (LeaveRemove gid users) m = (removeGroupMembers users gid m, [LeaveCheck gid])"
| "next_phase rn db (LeaveCheck gid) m = (m, if isGroupExist gid m then [] else [UnsubscribeLater [gid]])"
| "next_phase rn db (SubscribeLater chans) m = (subscribe_chans chans m, [])"
| "next_phase rn db (UnsubscribeLater chans) m = (unsubscribe_chans chans m, [])"

inductive interleaved :: "(Role \<Rightarrow> int) \<Rightarrow> OnlineMsgMemberMgr \<Rightarrow> phase list \<Rightarrow> bool" for rn where
  created: "interleaved rn (addGroupMsgSubHandler OnlineMsgMemberMgr_new) []"
| event: "interleaved rn m ps \<Longrightarrow> start_event ev m = (m', qs) \<Longrightarrow> interleaved rn m' (ps @ qs)"
| phase: "interleaved rn m (ps @ p # rs) \<Longrightarrow> next_phase rn db p m = (m', qs) \<Longrightarrow> interleaved rn m' (ps @ qs @ rs)"

text \<open>Without interruption the phases are the handlers.\<close>

inductive run_alone :: "(Role \<Rightarrow> int) \<Rightarrow> UserGroups \<Rightarrow> OnlineMsgMemberMgr \<Rightarrow> phase list \<Rightarrow> OnlineMsgMemberMgr \<Rightarrow> bool" for rn db where
  over: "run_alone rn db m [] m"
| onward: "next_phase rn db p m = (m1, qs) \<Longrightarrow> run_alone rn db m1 (qs @ ps) m' \<Longrightarrow> run_alone rn db m (p # ps) m'"

inductive_simps run_alone_Nil [simp]: "run_alone rn db m [] m'"
inductive_simps run_alone_step: "run_alone rn db m (p # ps) m'"

lemma run_alone_Cons [simp]:
  "run_alone rn db m (p # ps) m' \<longleftrightarrow> run_alone rn db (fst (next_phase rn db p m)) (snd (next_phase rn db p m) @ ps) m'"
  by (subst run_alone_step) (metis fst_conv prod.collapse snd_conv)

lemma run_check: "run_alone rn db m [OfflineCheck gids chans] (unsubscribe_chans (chans @ filter (\<lambda>d. \<not> isGroupExist d m) gids) m)"
proof (induction gids arbitrary: chans)
  case (Cons g gids)
  then show ?case using Cons.IH [of "chans @ [g]"] Cons.IH [of chans] by (cases "isGroupExist g m") (simp_all del: run_alone_Cons add: run_alone_Cons [of rn db m "OfflineCheck (g # gids) chans"])
qed simp

lemma handlers_are_phases:
  "run_alone rn db (fst (start_event (ConnectEvent u) m)) (snd (start_event (ConnectEvent u) m)) (doHandleUserOnline rn db u m)"
  "run_alone rn db (fst (start_event (DisconnectEvent u) m)) (snd (start_event (DisconnectEvent u) m)) (doHandleUserOffline db u m)"
  "run_alone rn db (fst (start_event (EnterEvent uid gid) m)) (snd (start_event (EnterEvent uid gid) m)) (doHandleUserEnterGroup rn db uid gid m)"
  "run_alone rn db (fst (start_event (LeaveEvent uid gid) m)) (snd (start_event (LeaveEvent uid gid) m)) (doHandleUserLeaveGroup uid gid m)"
proof -
  show "run_alone rn db (fst (start_event (ConnectEvent u) m)) (snd (start_event (ConnectEvent u) m)) (doHandleUserOnline rn db u m)"
    by (simp add: doHandleUserOnline_def split: prod.split)
  show "run_alone rn db (fst (start_event (DisconnectEvent u) m)) (snd (start_event (DisconnectEvent u) m)) (doHandleUserOffline db u m)"
    using run_check [of rn db _ _ "[]"] run_check [of rn db "online_remove u m" "[]" "[]"]
    by (simp add: doHandleUserOffline_def Let_def split: prod.split del: run_alone_Cons) (simp add: run_alone_Cons [of rn db _ "OfflineReply u"] del: run_alone_Cons)
  show "run_alone rn db (fst (start_event (EnterEvent uid gid) m)) (snd (start_event (EnterEvent uid gid) m)) (doHandleUserEnterGroup rn db uid gid m)"
    by (simp add: doHandleUserEnterGroup_def Let_def split: prod.split)
  show "run_alone rn db (fst (start_event (LeaveEvent uid gid) m)) (snd (start_event (LeaveEvent uid gid) m)) (doHandleUserLeaveGroup uid gid m)"
    by (simp add: doHandleUserLeaveGroup_def Let_def)
qed

section \<open>The invariant\<close>

text \<open>Both tables are sorted maps of sorted sets; the devices under a user name are devices of that user; a
  group is in the table only with a member, and its members are devices of users the server has seen.\<close>

definition members_ok :: "OnlineMsgMemberMgr \<Rightarrow> bool" where
  "members_ok m \<longleftrightarrow> sm_ok (om_onlineUsers m) \<and> sm_ok (om_groupMembers m)
     \<and> (\<forall>uid us. map_of (om_onlineUsers m) uid = Some us \<longrightarrow> us_ok us \<and> (\<forall>u \<in> set us. da_uid u = uid))
     \<and> (\<forall>gid us. map_of (om_groupMembers m) gid = Some us \<longrightarrow> us_ok us \<and> us \<noteq> []
          \<and> (\<forall>u \<in> set us. da_uid u \<in> dom (map_of (om_onlineUsers m))))"

text \<open>What a phase has kept from before is about users the server has seen.\<close>

fun phase_ok :: "OnlineMsgMemberMgr \<Rightarrow> phase \<Rightarrow> bool" where
  "phase_ok m (OnlineReply u) = (da_uid u \<in> dom (map_of (om_onlineUsers m)))"
| "phase_ok m (EnterReply uid gid us) = (us_ok us \<and> us \<noteq> [] \<and> (\<forall>u \<in> set us. da_uid u \<in> dom (map_of (om_onlineUsers m))))"
| "phase_ok m p = True"

lemma members_okI:
  assumes "sm_ok (om_onlineUsers m)" and "sm_ok (om_groupMembers m)"
    and "\<And>uid us. map_of (om_onlineUsers m) uid = Some us \<Longrightarrow> us_ok us \<and> (\<forall>u \<in> set us. da_uid u = uid)"
    and "\<And>gid us. map_of (om_groupMembers m) gid = Some us \<Longrightarrow> us_ok us \<and> us \<noteq> [] \<and> (\<forall>u \<in> set us. da_uid u \<in> dom (map_of (om_onlineUsers m)))"
  shows "members_ok m"
  using assms by (simp add: members_ok_def)

lemma members_okD:
  assumes "members_ok m"
  shows "sm_ok (om_onlineUsers m)" "sm_ok (om_groupMembers m)"
    and "map_of (om_onlineUsers m) uid = Some us \<Longrightarrow> us_ok us" "map_of (om_onlineUsers m) uid = Some us \<Longrightarrow> u \<in> set us \<Longrightarrow> da_uid u = uid"
    and "map_of (om_groupMembers m) gid = Some vs \<Longrightarrow> us_ok vs" "map_of (om_groupMembers m) gid = Some vs \<Longrightarrow> vs \<noteq> []"
    and "map_of (om_groupMembers m) gid = Some vs \<Longrightarrow> u \<in> set vs \<Longrightarrow> da_uid u \<in> dom (map_of (om_onlineUsers m))"
  using assms unfolding members_ok_def by blast+

lemma members_ok_frame:
  "members_ok m \<Longrightarrow> om_onlineUsers m' = om_onlineUsers m \<Longrightarrow> om_groupMembers m' = om_groupMembers m \<Longrightarrow> members_ok m'"
  by (simp add: members_ok_def)

lemma members_ok_chans [inv_pres]: "members_ok m \<Longrightarrow> members_ok (subscribe_chans gs m)" "members_ok m \<Longrightarrow> members_ok (unsubscribe_chans gs m)"
  by (auto elim: members_ok_frame simp: frame)

lemma us_ok_getGroupMembers: "members_ok m \<Longrightarrow> us_ok (getGroupMembers g m)"
  by (auto simp: getGroupMembers_def members_okD(5) split: option.split)

lemma us_ok_getOnlineUsers: "members_ok m \<Longrightarrow> us_ok (getOnlineUsers uid m)"
  by (auto simp: getOnlineUsers_def members_okD(3) split: option.split)

lemma getOnlineUsers_uid: "members_ok m \<Longrightarrow> u \<in> set (getOnlineUsers uid m) \<Longrightarrow> da_uid u = uid \<and> uid \<in> dom (map_of (om_onlineUsers m))"
  by (cases "map_of (om_onlineUsers m) uid") (auto simp: getOnlineUsers_def members_okD(4))

lemma isGroupExist_iff: "members_ok m \<Longrightarrow> isGroupExist g m \<longleftrightarrow> getGroupMembers g m \<noteq> []"
  by (auto simp: isGroupExist_def getGroupMembers_def dest: members_okD(6) split: option.split)

lemma members_ok_insert [inv_pres]:
  assumes "members_ok m" and "da_uid u \<in> dom (map_of (om_onlineUsers m))"
  shows "members_ok (insert_member u g m)"
proof (rule members_okI, goal_cases)
  case (4 gid us)
  have "da_uid v \<in> dom (map_of (om_onlineUsers m))" if "v \<in> set (getGroupMembers g m)" for v
    using that members_okD(7) [OF assms(1)] by (cases "map_of (om_groupMembers m) g") (auto simp: getGroupMembers_def)
  then have "\<forall>v \<in> set (us_insert u (getGroupMembers g m)). da_uid v \<in> dom (map_of (om_onlineUsers m))"
    using assms(2) by simp
  with 4 show ?case
    using members_okD(5-7) [OF assms(1), of gid us] us_ok_insert [OF us_ok_getGroupMembers [OF assms(1), of g], of u] us_insert_not_Nil [of u "getGroupMembers g m"]
    by (cases "gid = g") (auto simp: insert_member_def)
qed (use members_okD [OF assms(1)] in \<open>auto simp: insert_member_def\<close>)

lemma members_ok_remove [inv_pres]:
  assumes "members_ok m"
  shows "members_ok (removeGroupMemberNoLock u g m)"
proof (rule members_okI, goal_cases)
  case (4 gid us)
  then show ?case
    using members_okD(5-7) [OF assms] us_ok_erase
    by (fastforce simp: removeGroupMemberNoLock_def Let_def us_erase_def split: option.splits if_splits)
qed (use members_okD [OF assms] in \<open>auto simp: frame, simp add: removeGroupMemberNoLock_def Let_def split: option.split\<close>)

lemma members_ok_folds [inv_pres]:
  "members_ok m \<Longrightarrow> members_ok (removeGroupMembers us g m)"
  "members_ok m \<Longrightarrow> members_ok (removeMemberForGroups u gs m)"
  "members_ok m \<Longrightarrow> \<forall>u \<in> set us. da_uid u \<in> dom (map_of (om_onlineUsers m)) \<Longrightarrow> members_ok (fold (\<lambda>u. insert_member u g) us m)"
proof -
  show "members_ok m \<Longrightarrow> members_ok (removeGroupMembers us g m)"
    unfolding removeGroupMembers_def by (induction us arbitrary: m) (simp_all add: inv_pres)
  show "members_ok m \<Longrightarrow> members_ok (removeMemberForGroups u gs m)"
    unfolding removeMemberForGroups_def by (induction gs arbitrary: m) (simp_all add: inv_pres)
  show "members_ok m \<Longrightarrow> \<forall>u \<in> set us. da_uid u \<in> dom (map_of (om_onlineUsers m)) \<Longrightarrow> members_ok (fold (\<lambda>u. insert_member u g) us m)"
    by (induction us arbitrary: m) (simp_all add: members_ok_insert frame)
qed

lemma members_ok_join [inv_pres]:
  "members_ok m \<Longrightarrow> da_uid u \<in> dom (map_of (om_onlineUsers m)) \<Longrightarrow> members_ok (snd (join_loop rn u ds cs m))"
  by (induction rn u ds cs m rule: join_loop.induct) (simp_all add: members_ok_insert frame Let_def)

lemma online_dom_add: "dom (map_of (om_onlineUsers (snd (online_add u m)))) = insert (da_uid u) (dom (map_of (om_onlineUsers m)))"
  by (auto simp: online_add_def split: option.split)

lemma online_dom_remove: "dom (map_of (om_onlineUsers (online_remove u m))) = dom (map_of (om_onlineUsers m))"
  by (auto simp: online_remove_def split: option.splits if_splits)

lemma members_ok_put_online:
  assumes "members_ok m" and "us_ok us" and "\<forall>u \<in> set us. da_uid u = uid"
  shows "members_ok (m\<lparr>om_onlineUsers := sm_put uid us (om_onlineUsers m)\<rparr>)"
proof (rule members_okI, goal_cases)
  case (3 v vs)
  then show ?case using assms members_okD(3,4) [OF assms(1), of v vs] by (cases "v = uid") simp_all
next
  case (4 gid vs)
  then show ?case using members_okD(5-7) [OF assms(1), of gid vs] by auto
qed (use members_okD(1,2) [OF assms(1)] in simp_all)

lemma members_ok_online [inv_pres]:
  assumes "members_ok m"
  shows "members_ok (snd (online_add u m))" "members_ok (online_remove u m)"
proof -
  show "members_ok (snd (online_add u m))"
  proof (cases "map_of (om_onlineUsers m) (da_uid u)")
    case None
    then show ?thesis using members_ok_put_online [OF assms, of "[u]" "da_uid u"] by (simp add: online_add_def)
  next
    case (Some vs)
    have "\<forall>v \<in> set (us_insert u vs). da_uid v = da_uid u" using members_okD(4) [OF assms Some] unfolding set_us_insert by blast
    from members_ok_put_online [OF assms us_ok_insert [OF members_okD(3) [OF assms Some]] this] show ?thesis
      using Some assms by (simp add: online_add_def)
  qed
  show "members_ok (online_remove u m)"
  proof (cases "map_of (om_onlineUsers m) (da_uid u)")
    case None
    then show ?thesis using assms by (simp add: online_remove_def)
  next
    case (Some vs)
    have "\<forall>v \<in> set (us_erase u vs). da_uid v = da_uid u" using members_okD(4) [OF assms Some] unfolding set_us_erase by blast
    from members_ok_put_online [OF assms us_ok_erase [OF members_okD(3) [OF assms Some]] this] show ?thesis
      using Some assms by (simp add: online_remove_def)
  qed
qed

lemma phase_ok_mono:
  "phase_ok m p \<Longrightarrow> dom (map_of (om_onlineUsers m)) \<subseteq> dom (map_of (om_onlineUsers m')) \<Longrightarrow> phase_ok m' p"
  by (cases p; simp only: phase_ok.simps; blast)

lemma start_event_ok:
  assumes "members_ok m" and "start_event ev m = (m', qs)"
  shows "members_ok m'" "\<forall>q \<in> set qs. phase_ok m' q" "dom (map_of (om_onlineUsers m)) \<subseteq> dom (map_of (om_onlineUsers m'))"
proof -
  have "members_ok (fst (start_event ev m))"
    using assms(1) by (cases ev) (simp_all add: inv_pres split_beta Let_def)
  then show "members_ok m'" using assms(2) by simp
  have "dom (map_of (om_onlineUsers m)) \<subseteq> dom (map_of (om_onlineUsers (fst (start_event ev m))))"
    by (cases ev) (simp_all only: start_event.simps split_beta Let_def fst_conv online_dom_add online_dom_remove, blast+)
  then show "dom (map_of (om_onlineUsers m)) \<subseteq> dom (map_of (om_onlineUsers m'))" using assms(2) by simp
  have "\<forall>q \<in> set (snd (start_event ev m)). phase_ok (fst (start_event ev m)) q"
  proof (cases ev)
    case (ConnectEvent u)
    have "da_uid u \<in> dom (map_of (om_onlineUsers (snd (online_add u m))))" by (simp only: online_dom_add) simp
    then show ?thesis by (simp add: ConnectEvent split_beta Let_def)
  next
    case (EnterEvent uid gid)
    have "\<forall>u \<in> set (getOnlineUsers uid m). da_uid u \<in> dom (map_of (om_onlineUsers m))"
      using getOnlineUsers_uid [OF assms(1)] by blast
    then show ?thesis using us_ok_getOnlineUsers [OF assms(1)] by (simp add: EnterEvent)
  qed simp_all
  then show "\<forall>q \<in> set qs. phase_ok m' q" using assms(2) by simp
qed

lemma next_phase_ok:
  assumes "members_ok m" and "phase_ok m p" and "next_phase rn db p m = (m', qs)"
  shows "members_ok m'" "\<forall>q \<in> set qs. phase_ok m' q" "om_onlineUsers m' = om_onlineUsers m"
proof -
  have "members_ok (fst (next_phase rn db p m)) \<and> om_onlineUsers (fst (next_phase rn db p m)) = om_onlineUsers m
    \<and> (\<forall>q \<in> set (snd (next_phase rn db p m)). phase_ok (fst (next_phase rn db p m)) q)"
    using assms(1,2)
    by (induction rn db p m rule: next_phase.induct) (simp_all add: inv_pres frame enter_members_def Let_def split_beta)
  then show "members_ok m'" "\<forall>q \<in> set qs. phase_ok m' q" "om_onlineUsers m' = om_onlineUsers m" using assms(3) by simp_all
qed

lemma interleaved_ok: "interleaved rn m ps \<Longrightarrow> members_ok m \<and> (\<forall>p \<in> set ps. phase_ok m p)"
proof (induction rule: interleaved.induct)
  case created
  show ?case by (simp add: members_ok_def addGroupMsgSubHandler_def OnlineMsgMemberMgr_new_def)
next
  case (event m ps ev m' qs)
  then show ?case using start_event_ok [of m ev m' qs] phase_ok_mono by (metis UnE set_append)
next
  case (phase m ps p rs db m' qs)
  from phase.IH have ok: "members_ok m" "phase_ok m p" "\<forall>q \<in> set (ps @ rs). phase_ok m q" by simp_all
  have "\<forall>q \<in> set (ps @ rs). phase_ok m' q"
    using ok(3) phase_ok_mono next_phase_ok(3) [OF ok(1,2) phase.hyps(2)] by (metis order_refl)
  then show ?case using next_phase_ok(1,2) [OF ok(1,2) phase.hyps(2)] by auto
qed

section \<open>Handlers in order\<close>

text \<open>The specification: who is connected, and the roles of the users in the groups. The database answers
  for the roles; every change of a membership is published and handled before the next one; a role that
  changes without an event keeps the right to receive messages.\<close>

type_synonym memberships = "u64 \<Rightarrow> string \<Rightarrow> Role option"

definition truthful :: "memberships \<Rightarrow> UserGroups \<Rightarrow> bool" where
  "truthful M db \<longleftrightarrow>
     (\<forall>uid. fst (ug_getJoinedGroupsList db uid) = Dao_Success \<and> set (snd (ug_getJoinedGroupsList db uid)) = {(g, r). M g uid = Some r}
        \<and> fst (ug_getJoinedGroups db uid) = Dao_Success \<and> set (snd (ug_getJoinedGroups db uid)) = {g. M g uid \<noteq> None})
     \<and> (\<forall>g uid r. M g uid = Some r \<longrightarrow> ug_getGroupDetailByGid db g uid = (Dao_Success, r))"

definition set_role :: "u64 \<Rightarrow> string \<Rightarrow> Role option \<Rightarrow> memberships \<Rightarrow> memberships" where
  "set_role g uid r M = M(g := (M g)(uid := r))"

definition receiving :: "(Role \<Rightarrow> int) \<Rightarrow> memberships \<Rightarrow> u64 \<Rightarrow> string \<Rightarrow> bool" where
  "receiving rn M g uid \<longleftrightarrow> (\<exists>r. M g uid = Some r \<and> receives rn r)"

inductive in_order :: "(Role \<Rightarrow> int) \<Rightarrow> DispatchAddress set \<Rightarrow> memberships \<Rightarrow> OnlineMsgMemberMgr \<Rightarrow> bool" for rn where
  created: "in_order rn {} M (addGroupMsgSubHandler OnlineMsgMemberMgr_new)"
| connect: "in_order rn C M m \<Longrightarrow> truthful M db \<Longrightarrow> in_order rn (insert u C) M (doHandleUserOnline rn db u m)"
| disconnect: "in_order rn C M m \<Longrightarrow> truthful M db \<Longrightarrow> in_order rn (C - {u}) M (doHandleUserOffline db u m)"
| enter: "in_order rn C M m \<Longrightarrow> truthful (set_role g uid (Some r) M) db \<Longrightarrow> receiving rn M g uid \<longrightarrow> receives rn r
    \<Longrightarrow> in_order rn C (set_role g uid (Some r) M) (handleEvent rn db INTERNAL_USER_ENTER_GROUP uid g m)"
| leave: "in_order rn C M m \<Longrightarrow> in_order rn C (set_role g uid None M) (handleEvent rn db INTERNAL_USER_QUIT_GROUP uid g m)"
| change: "in_order rn C M m \<Longrightarrow> receiving rn M g uid = receives rn r
    \<Longrightarrow> in_order rn C (set_role g uid (Some r) M) (handleEvent rn db INTERNAL_USER_CHANGE_ROLE uid g m)"

text \<open>The last call for a channel subscribed it.\<close>

definition call_effect :: "string \<Rightarrow> sub_call \<Rightarrow> bool \<Rightarrow> bool" where
  "call_effect ch c b = (case c of SubscribeChannel x \<Rightarrow> x = ch \<or> b | UnsubscribeChannel x \<Rightarrow> x \<noteq> ch \<and> b)"

definition subscribed :: "sub_call list \<Rightarrow> string \<Rightarrow> bool" where
  "subscribed cs ch = fold (call_effect ch) cs False"

lemma fold_call_effect:
  "fold (call_effect (group_channel g)) (map (SubscribeChannel \<circ> group_channel) gs) b \<longleftrightarrow> g \<in> set gs \<or> b"
  "fold (call_effect (group_channel g)) (map (UnsubscribeChannel \<circ> group_channel) gs) b \<longleftrightarrow> g \<notin> set gs \<and> b"
proof -
  show "fold (call_effect (group_channel g)) (map (SubscribeChannel \<circ> group_channel) gs) b \<longleftrightarrow> g \<in> set gs \<or> b"
    by (induction gs arbitrary: b) (auto simp: call_effect_def)
  show "fold (call_effect (group_channel g)) (map (UnsubscribeChannel \<circ> group_channel) gs) b \<longleftrightarrow> g \<notin> set gs \<and> b"
    by (induction gs arbitrary: b) (auto simp: call_effect_def)
qed

lemma subscribed_chans:
  assumes "om_groupSub m"
  shows "subscribed (om_calls (subscribe_chans gs m)) (group_channel g) \<longleftrightarrow> g \<in> set gs \<or> subscribed (om_calls m) (group_channel g)"
    and "subscribed (om_calls (unsubscribe_chans gs m)) (group_channel g) \<longleftrightarrow> g \<notin> set gs \<and> subscribed (om_calls m) (group_channel g)"
  using assms by (auto simp: subscribe_chans_def unsubscribe_chans_def subscribeGids_def unsubcribeGids_def subscribed_def fold_call_effect)

text \<open>The state follows the specification.\<close>

definition exact :: "(Role \<Rightarrow> int) \<Rightarrow> DispatchAddress set \<Rightarrow> memberships \<Rightarrow> OnlineMsgMemberMgr \<Rightarrow> bool" where
  "exact rn C M m \<longleftrightarrow> members_ok m \<and> om_groupSub m
     \<and> (\<forall>g. set (getGroupMembers g m) = {u \<in> C. receiving rn M g (da_uid u)})
     \<and> (\<forall>uid. set (getOnlineUsers uid m) = {u \<in> C. da_uid u = uid})
     \<and> (\<forall>g. isGroupExist g m \<longrightarrow> subscribed (om_calls m) (group_channel g))"

lemma exactD:
  assumes "exact rn C M m"
  shows "members_ok m" "om_groupSub m" "set (getGroupMembers g m) = {u \<in> C. receiving rn M g (da_uid u)}"
    "set (getOnlineUsers uid m) = {u \<in> C. da_uid u = uid}" "isGroupExist g m \<Longrightarrow> subscribed (om_calls m) (group_channel g)"
  using assms by (simp_all add: exact_def)

lemma isGroupExist_set: "members_ok m \<Longrightarrow> isGroupExist g m \<longleftrightarrow> set (getGroupMembers g m) \<noteq> {}"
  by (simp add: isGroupExist_iff)

lemma isGroupExist_frame: "om_groupMembers m' = om_groupMembers m \<Longrightarrow> isGroupExist g m' = isGroupExist g m"
  by (simp add: isGroupExist_def)

lemma join_loop_chans:
  "set cs \<subseteq> set (fst (join_loop rn u ds cs m)) \<and> (isGroupExist g (snd (join_loop rn u ds cs m)) \<longrightarrow> isGroupExist g m \<or> g \<in> set (fst (join_loop rn u ds cs m)))"
proof (induction rn u ds cs m rule: join_loop.induct)
  case (2 rn u gid role ds cs m)
  have "isGroupExist g (insert_member u gid m) \<longleftrightarrow> g = gid \<or> isGroupExist g m"
    by (simp add: isGroupExist_def insert_member_def)
  with 2 [OF refl refl] show ?case by (auto simp: Let_def)
qed simp

lemma online_add_fst: "fst (online_add u m) \<longleftrightarrow> u \<notin> set (getOnlineUsers (da_uid u) m)"
  by (simp add: online_add_def getOnlineUsers_def split: option.split)

lemma online_add_again: "u \<in> set (getOnlineUsers (da_uid u) m) \<Longrightarrow> online_add u m = (False, m)"
  by (cases "map_of (om_onlineUsers m) (da_uid u)") (simp_all add: online_add_def getOnlineUsers_def)

lemma exact_connect:
  assumes e: "exact rn C M m" and t: "truthful M db"
  shows "exact rn (insert u C) M (doHandleUserOnline rn db u m)"
proof (cases "u \<in> C")
  case True
  then have "doHandleUserOnline rn db u m = m"
    using exactD(4) [OF e, of "da_uid u"] online_add_again by (simp add: doHandleUserOnline_def)
  then show ?thesis using e True by (simp add: insert_absorb)
next
  case False
  define m1 where "m1 = snd (online_add u m)"
  obtain details where db: "ug_getJoinedGroupsList db (da_uid u) = (Dao_Success, details)" "set details = {(g, r). M g (da_uid u) = Some r}"
    using t unfolding truthful_def by (metis prod.collapse)
  define m2 where "m2 = snd (join_loop rn u details [] m1)"
  define chans where "chans = fst (join_loop rn u details [] m1)"
  have add: "online_add u m = (True, m1)"
    using False exactD(4) [OF e, of "da_uid u"] online_add_fst [of u m] unfolding m1_def by (cases "online_add u m") simp
  have eq: "doHandleUserOnline rn db u m = subscribe_chans chans m2"
    by (simp add: doHandleUserOnline_def add db chans_def m2_def split_beta)
  have ok1: "members_ok m1" unfolding m1_def by (rule members_ok_online(1) [OF exactD(1) [OF e]])
  have "da_uid u \<in> dom (map_of (om_onlineUsers m1))" unfolding m1_def online_dom_add by simp
  with ok1 have ok2: "members_ok m2" unfolding m2_def by (rule members_ok_join)
  have sub: "om_groupSub m2" using exactD(2) [OF e] by (simp add: m2_def m1_def frame)
  have members: "set (getGroupMembers g m2) = {v \<in> insert u C. receiving rn M g (da_uid v)}" for g
    unfolding m2_def members_join_loop using exactD(3) [OF e, of g] db(2)
    by (auto simp: m1_def getGroupMembers_frame [OF online_frame(1)] receiving_def)
  have online: "set (getOnlineUsers uid m2) = {v \<in> insert u C. da_uid v = uid}" for uid
    using exactD(4) [OF e, of uid] unfolding m2_def getOnlineUsers_frame [OF join_loop_frame(1)] m1_def getOnlineUsers_add by auto
  have "isGroupExist g m2 \<Longrightarrow> isGroupExist g m \<or> g \<in> set chans" for g
    using join_loop_chans [of "[]" rn u details m1 g] by (simp add: m2_def chans_def m1_def isGroupExist_frame [OF online_frame(1)])
  moreover have "om_calls m2 = om_calls m" by (simp add: m2_def m1_def frame)
  ultimately show ?thesis
    unfolding eq exact_def using ok2 sub members online exactD(5) [OF e]
    by (simp add: inv_pres chans_frame getGroupMembers_frame [OF chans_frame(2)] getOnlineUsers_frame [OF chans_frame(1)]
        isGroupExist_frame [OF chans_frame(2)] subscribed_chans) blast
qed

lemmas unsubscribe_frame = getGroupMembers_frame [OF chans_frame(4)] getOnlineUsers_frame [OF chans_frame(3)]
  isGroupExist_frame [OF chans_frame(4)]

lemma exact_disconnect:
  assumes e: "exact rn C M m" and t: "truthful M db"
  shows "exact rn (C - {u}) M (doHandleUserOffline db u m)"
proof -
  obtain gids where db: "ug_getJoinedGroups db (da_uid u) = (Dao_Success, gids)" "set gids = {g. M g (da_uid u) \<noteq> None}"
    using t unfolding truthful_def by (metis prod.collapse)
  define m1 where "m1 = removeMemberForGroups u gids (online_remove u m)"
  have eq: "doHandleUserOffline db u m = unsubscribe_chans (filter (\<lambda>d. \<not> isGroupExist d m1) gids) m1"
    by (simp add: doHandleUserOffline_def db m1_def Let_def removeMemberForGroups_def)
  have ok: "members_ok m1" unfolding m1_def by (intro inv_pres exactD(1) [OF e])
  have sub: "om_groupSub m1" "om_calls m1 = om_calls m" using exactD(2) [OF e] by (simp_all add: m1_def frame)
  have members: "set (getGroupMembers g m1) = {v \<in> C - {u}. receiving rn M g (da_uid v)}" for g
    unfolding m1_def members_removeMemberForGroups getGroupMembers_frame [OF online_frame(4)]
    using exactD(3) [OF e, of g] db(2) by (auto simp: receiving_def)
  have online: "set (getOnlineUsers uid m1) = {v \<in> C - {u}. da_uid v = uid}" for uid
    unfolding m1_def getOnlineUsers_frame [OF fold_remove_frame(4)] getOnlineUsers_remove using exactD(4) [OF e, of uid] by auto
  have "isGroupExist g m1 \<Longrightarrow> isGroupExist g m" for g
    unfolding isGroupExist_set [OF ok] isGroupExist_set [OF exactD(1) [OF e]] members exactD(3) [OF e] by auto
  then show ?thesis
    unfolding eq exact_def using ok sub members online exactD(5) [OF e]
    by (simp add: inv_pres chans_frame unsubscribe_frame subscribed_chans)
qed

lemma receiving_set_role: "receiving rn (set_role g uid r M) h v \<longleftrightarrow> (if h = g \<and> v = uid then (\<exists>x. r = Some x \<and> receives rn x) else receiving rn M h v)"
  by (auto simp: receiving_def set_role_def)

lemma exact_same:
  assumes "exact rn C M m" and "\<And>g u. u \<in> C \<Longrightarrow> receiving rn M' g (da_uid u) = receiving rn M g (da_uid u)"
  shows "exact rn C M' m"
proof -
  have "{u \<in> C. receiving rn M' g (da_uid u)} = {u \<in> C. receiving rn M g (da_uid u)}" for g using assms(2) by blast
  then show ?thesis using assms(1) by (simp add: exact_def)
qed

lemma exact_enter:
  assumes e: "exact rn C M m" and t: "truthful (set_role g uid (Some r) M) db" and keep: "receiving rn M g uid \<longrightarrow> receives rn r"
  shows "exact rn C (set_role g uid (Some r) M) (handleEvent rn db INTERNAL_USER_ENTER_GROUP uid g m)"
proof -
  let ?M = "set_role g uid (Some r) M" and ?users = "getOnlineUsers uid m"
  have db: "ug_getGroupDetailByGid db g uid = (Dao_Success, r)" using t by (simp add: truthful_def set_role_def)
  show ?thesis
  proof (cases "?users = [] \<or> \<not> receives rn r")
    case True
    then have "handleEvent rn db INTERNAL_USER_ENTER_GROUP uid g m = m"
      by (auto simp: handleEvent_def doHandleUserEnterGroup_def Let_def db)
    moreover have "exact rn C ?M m"
      using True keep exactD(4) [OF e, of uid] by (intro exact_same [OF e]) (auto simp: receiving_set_role)
    ultimately show ?thesis by simp
  next
    case False
    define m1 where "m1 = fold (\<lambda>u. insert_member u g) ?users m"
    have eq: "handleEvent rn db INTERNAL_USER_ENTER_GROUP uid g m = subscribe_chans (if isGroupExist g m then [] else [g]) m1"
      using False by (simp add: handleEvent_def doHandleUserEnterGroup_def Let_def db enter_members_def m1_def)
    have "\<forall>u \<in> set ?users. da_uid u \<in> dom (map_of (om_onlineUsers m))" using getOnlineUsers_uid [OF exactD(1) [OF e]] by blast
    then have ok: "members_ok m1" unfolding m1_def by (intro members_ok_folds(3) exactD(1) [OF e])
    have sub: "om_groupSub m1" "om_calls m1 = om_calls m" using exactD(2) [OF e] by (simp_all add: m1_def frame)
    have members: "set (getGroupMembers h m1) = {v \<in> C. receiving rn ?M h (da_uid v)}" for h
      unfolding m1_def members_fold_insert using exactD(3) [OF e, of h] exactD(4) [OF e, of uid] False by (auto simp: receiving_set_role)
    have online: "getOnlineUsers v m1 = getOnlineUsers v m" for v
      unfolding m1_def by (rule getOnlineUsers_frame) (rule fold_insert_frame)
    have "isGroupExist h m1 \<Longrightarrow> h \<noteq> g \<Longrightarrow> isGroupExist h m" for h
      unfolding isGroupExist_set [OF ok] isGroupExist_set [OF exactD(1) [OF e]] members exactD(3) [OF e] by (auto simp: receiving_set_role)
    then have "isGroupExist h m1 \<Longrightarrow> h \<in> set (if isGroupExist g m then [] else [g]) \<or> subscribed (om_calls m) (group_channel h)" for h
      using exactD(5) [OF e, of h] by (cases "h = g") auto
    then show ?thesis
      unfolding eq exact_def using ok sub members online exactD(4) [OF e]
      by (simp add: inv_pres chans_frame getGroupMembers_frame [OF chans_frame(2)] getOnlineUsers_frame [OF chans_frame(1)]
        isGroupExist_frame [OF chans_frame(2)] subscribed_chans)
  qed
qed

lemma exact_leave:
  assumes e: "exact rn C M m"
  shows "exact rn C (set_role g uid None M) (handleEvent rn db INTERNAL_USER_QUIT_GROUP uid g m)"
proof -
  let ?M = "set_role g uid None M" and ?users = "getOnlineUsers uid m"
  show ?thesis
  proof (cases "?users = []")
    case True
    then have "handleEvent rn db INTERNAL_USER_QUIT_GROUP uid g m = m"
      by (simp add: handleEvent_def doHandleUserLeaveGroup_def INTERNAL_USER_QUIT_GROUP_def INTERNAL_USER_ENTER_GROUP_def)
    moreover have "exact rn C ?M m"
      using True exactD(4) [OF e, of uid] by (intro exact_same [OF e]) (auto simp: receiving_set_role)
    ultimately show ?thesis by simp
  next
    case False
    define m1 where "m1 = removeGroupMembers ?users g m"
    have eq: "handleEvent rn db INTERNAL_USER_QUIT_GROUP uid g m = (if isGroupExist g m1 then m1 else unsubscribe_chans [g] m1)"
      using False by (simp add: handleEvent_def doHandleUserLeaveGroup_def Let_def m1_def INTERNAL_USER_QUIT_GROUP_def INTERNAL_USER_ENTER_GROUP_def)
    have ok: "members_ok m1" unfolding m1_def by (intro inv_pres exactD(1) [OF e])
    have sub: "om_groupSub m1" "om_calls m1 = om_calls m" using exactD(2) [OF e] by (simp_all add: m1_def frame)
    have members: "set (getGroupMembers h m1) = {v \<in> C. receiving rn ?M h (da_uid v)}" for h
      unfolding m1_def members_removeGroupMembers using exactD(3) [OF e, of h] exactD(4) [OF e, of uid] by (auto simp: receiving_set_role)
    have online: "getOnlineUsers v m1 = getOnlineUsers v m" for v
      unfolding m1_def by (rule getOnlineUsers_frame) (rule fold_remove_frame)
    have "isGroupExist h m1 \<Longrightarrow> isGroupExist h m" for h
      unfolding isGroupExist_set [OF ok] isGroupExist_set [OF exactD(1) [OF e]] members exactD(3) [OF e] by (auto simp: receiving_set_role split: if_splits)
    then show ?thesis
      unfolding eq exact_def using ok sub members online exactD(4,5) [OF e]
      by (auto simp: inv_pres chans_frame unsubscribe_frame subscribed_chans)
  qed
qed

lemma in_order_exact: "in_order rn C M m \<Longrightarrow> exact rn C M m"
proof (induction rule: in_order.induct)
  case (created M)
  show ?case
    by (simp add: exact_def members_ok_def addGroupMsgSubHandler_def OnlineMsgMemberMgr_new_def getGroupMembers_def getOnlineUsers_def isGroupExist_def)
next
  case (change C M m g uid r db)
  have "exact rn C (set_role g uid (Some r) M) m"
    by (rule exact_same [OF change.IH]) (use change.hyps(2) in \<open>auto simp: receiving_set_role\<close>)
  then show ?case
    by (simp add: handleEvent_def INTERNAL_USER_CHANGE_ROLE_def INTERNAL_USER_QUIT_GROUP_def INTERNAL_USER_ENTER_GROUP_def)
qed (blast intro: exact_connect exact_disconnect exact_enter exact_leave)+

section \<open>Properties\<close>

text \<open>C16. The tables stay well-formed whatever the database answers and however the handlers are interleaved:
  the members of a group are listed sorted and without duplicates, a group is in the table exactly when a
  member is, every member is a device of a user the server has seen, and the devices listed for a user are
  devices of that user.\<close>

theorem online_members_wellformed:
  assumes "interleaved rn m ps"
  shows "us_ok (getGroupMembers gid m) \<and> (isGroupExist gid m \<longleftrightarrow> getGroupMembers gid m \<noteq> [])
    \<and> da_uid ` set (getGroupMembers gid m) \<subseteq> dom (map_of (om_onlineUsers m))
    \<and> us_ok (getOnlineUsers uid m) \<and> da_uid ` set (getOnlineUsers uid m) \<subseteq> {uid}"
proof -
  have ok: "members_ok m" using interleaved_ok [OF assms] by simp
  have "da_uid ` set (getGroupMembers gid m) \<subseteq> dom (map_of (om_onlineUsers m))"
    using members_okD(7) [OF ok, of gid] by (cases "map_of (om_groupMembers m) gid") (auto simp: getGroupMembers_def)
  moreover have "da_uid ` set (getOnlineUsers uid m) \<subseteq> {uid}" using getOnlineUsers_uid [OF ok] by blast
  ultimately show ?thesis
    using us_ok_getGroupMembers [OF ok] us_ok_getOnlineUsers [OF ok] isGroupExist_iff [OF ok] by blast
qed

text \<open>Two users, one group, and the answers of a database.\<close>

definition demo_roleNo :: "Role \<Rightarrow> int" where
  "demo_roleNo r = (case r of ROLE_UNDEFINE \<Rightarrow> 0 | ROLE_OWNER \<Rightarrow> 1 | ROLE_ADMINISTROR \<Rightarrow> 2 | ROLE_MEMBER \<Rightarrow> 3 | ROLE_SUBSCRIBER \<Rightarrow> 4)"

definition demo_memberships :: memberships where
  "demo_memberships g uid = (if g = 5 \<and> uid = ''bob'' then Some ROLE_MEMBER else None)"

definition demo_user_groups :: UserGroups where
  "demo_user_groups = \<lparr>ug_getJoinedGroupsList = (\<lambda>uid. (Dao_Success, if uid = ''bob'' then [(5, ROLE_MEMBER)] else [])),
     ug_getJoinedGroups = (\<lambda>uid. (Dao_Success, if uid = ''bob'' then [5] else [])),
     ug_getGroupDetailByGid = (\<lambda>g uid. (Dao_Success, ROLE_MEMBER))\<rparr>"

definition demo_bob_device :: DispatchAddress where "demo_bob_device = \<lparr>da_uid = ''bob'', da_deviceid = 1\<rparr>"
definition demo_cat_device :: DispatchAddress where "demo_cat_device = \<lparr>da_uid = ''cat'', da_deviceid = 1\<rparr>"

lemmas demo_online_simps = demo_user_groups_def demo_bob_device_def demo_cat_device_def addGroupMsgSubHandler_def OnlineMsgMemberMgr_new_def
  online_add_def online_remove_def getOnlineUsers_def getGroupMembers_def isGroupExist_def receives_def demo_roleNo_def insert_member_def
  us_insert_def us_erase_def insort_insert_key_def subscribe_chans_def unsubscribe_chans_def subscribeGids_def unsubcribeGids_def
  removeMemberForGroups_def removeGroupMemberNoLock_def enter_members_def sm_del_def

lemma demo_truthful: "truthful demo_memberships demo_user_groups"
  by (auto simp: truthful_def demo_memberships_def demo_user_groups_def split: if_splits)

lemma demo_interleaved:
  "interleaved demo_roleNo (snd (online_add demo_bob_device (addGroupMsgSubHandler OnlineMsgMemberMgr_new))) [OnlineReply demo_bob_device]"
  using interleaved.event [OF interleaved.created, of "ConnectEvent demo_bob_device"]
  by (simp add: online_add_def addGroupMsgSubHandler_def OnlineMsgMemberMgr_new_def)

theorem online_members_wellformed_witness:
  "us_ok (getOnlineUsers ''bob'' (snd (online_add demo_bob_device (addGroupMsgSubHandler OnlineMsgMemberMgr_new))))
    \<and> getOnlineUsers ''bob'' (snd (online_add demo_bob_device (addGroupMsgSubHandler OnlineMsgMemberMgr_new))) = [demo_bob_device]"
  using online_members_wellformed [OF demo_interleaved, of 5 "''bob''"] by (simp add: demo_online_simps)

text \<open>C15. The table refines its specification: when the handlers run one after the other and the database
  answers for the memberships, the members listed for a group are exactly the connected devices of the users
  whose role receives messages, the devices listed for a user are exactly his connected devices, and the
  channel of every group with such a device is subscribed.\<close>

theorem online_members_exact:
  assumes "in_order rn C M m"
  shows "set (getGroupMembers g m) = {u \<in> C. receiving rn M g (da_uid u)}
    \<and> set (getOnlineUsers uid m) = {u \<in> C. da_uid u = uid}
    \<and> (getGroupMembers g m \<noteq> [] \<longrightarrow> subscribed (om_calls m) (group_channel g))"
  using exactD [OF in_order_exact [OF assms]] isGroupExist_iff [OF exactD(1) [OF in_order_exact [OF assms]]] by simp

theorem online_members_exact_witness:
  "getGroupMembers 5 (doHandleUserOnline demo_roleNo demo_user_groups demo_bob_device (addGroupMsgSubHandler OnlineMsgMemberMgr_new)) = [demo_bob_device]
    \<and> subscribed (om_calls (doHandleUserOnline demo_roleNo demo_user_groups demo_bob_device (addGroupMsgSubHandler OnlineMsgMemberMgr_new))) (group_channel 5)"
proof -
  let ?m = "doHandleUserOnline demo_roleNo demo_user_groups demo_bob_device (addGroupMsgSubHandler OnlineMsgMemberMgr_new)"
  have "in_order demo_roleNo (insert demo_bob_device {}) demo_memberships ?m"
    by (rule in_order.connect [OF in_order.created demo_truthful])
  from online_members_exact [OF this, of 5 "''bob''"] have "getGroupMembers 5 ?m \<noteq> [] \<longrightarrow> subscribed (om_calls ?m) (group_channel 5)" by blast
  moreover have "getGroupMembers 5 ?m = [demo_bob_device]" by (simp add: doHandleUserOnline_def demo_online_simps)
  ultimately show ?thesis by simp
qed

text \<open>A schedule: events that arrive, and the places of the handlers that go on.\<close>

fun schedule :: "(Role \<Rightarrow> int) \<Rightarrow> UserGroups \<Rightarrow> (member_event + nat) list \<Rightarrow> OnlineMsgMemberMgr \<times> phase list \<Rightarrow> OnlineMsgMemberMgr \<times> phase list" where
  "schedule rn db [] s = s"
| "schedule rn db (Inl ev # xs) (m, ps) = (let (m', qs) = start_event ev m in schedule rn db xs (m', ps @ qs))"
| "schedule rn db (Inr i # xs) (m, ps) =
     (if i < length ps then let (m', qs) = next_phase rn db (ps ! i) m in schedule rn db xs (m', take i ps @ qs @ drop (Suc i) ps)
      else (m, ps))"

lemma schedule_interleaved:
  "interleaved rn (fst s) (snd s) \<Longrightarrow> interleaved rn (fst (schedule rn db xs s)) (snd (schedule rn db xs s))"
proof (induction rn db xs s rule: schedule.induct)
  case (2 rn db ev xs m ps)
  then show ?case using interleaved.event [of rn m ps ev] by (simp add: Let_def split_beta)
next
  case (3 rn db i xs m ps)
  show ?case
  proof (cases "i < length ps")
    case True
    have "interleaved rn m (take i ps @ ps ! i # drop (Suc i) ps)" using 3(2) True by (simp add: id_take_nth_drop [symmetric])
    from interleaved.phase [OF this, of db] have "interleaved rn (fst (next_phase rn db (ps ! i) m)) (take i ps @ snd (next_phase rn db (ps ! i) m) @ drop (Suc i) ps)"
      by (metis prod.collapse)
    then show ?thesis using 3(1) [OF True] True by (simp add: Let_def split_beta)
  qed (use 3 in simp)
qed simp

text \<open>When handlers of different threads are interleaved the last part of the theorem fails: the handler of the
  last member who disconnects has seen the group empty when another member enters and subscribes the channel,
  and unsubscribes it afterwards. No handler is left to run, the group has a connected member, and its channel
  is not subscribed.\<close>

lemma group_without_channel:
  "\<exists>m. interleaved demo_roleNo m [] \<and> getGroupMembers 5 m = [demo_cat_device] \<and> \<not> subscribed (om_calls m) (group_channel 5)"
proof -
  let ?xs = "[Inl (ConnectEvent demo_bob_device), Inr 0, Inr 0, Inl (ConnectEvent demo_cat_device), Inr 0, Inr 0,
    Inl (DisconnectEvent demo_bob_device), Inr 0, Inr 0, Inr 0, Inl (EnterEvent ''cat'' 5), Inr 1, Inr 1, Inr 0]"
  let ?m = "\<lparr>om_onlineUsers = [(''bob'', []), (''cat'', [demo_cat_device])], om_groupMembers = [(5, [demo_cat_device])], om_groupSub = True,
    om_calls = [SubscribeChannel (group_channel 5), SubscribeChannel (group_channel 5), UnsubscribeChannel (group_channel 5)]\<rparr>"
  have "schedule demo_roleNo demo_user_groups ?xs (addGroupMsgSubHandler OnlineMsgMemberMgr_new, []) = (?m, [])"
    by (simp add: demo_online_simps)
  moreover have "interleaved demo_roleNo (fst (addGroupMsgSubHandler OnlineMsgMemberMgr_new, [])) (snd (addGroupMsgSubHandler OnlineMsgMemberMgr_new, [] :: phase list))"
    by (simp add: interleaved.created)
  ultimately have "interleaved demo_roleNo ?m []" by (metis schedule_interleaved fst_conv snd_conv)
  then show ?thesis by (intro exI [of _ ?m]) (simp add: getGroupMembers_def subscribed_def call_effect_def)
qed

text \<open>A database that fails when a device connects leaves it without its groups, and connecting again does
  not help: the device counts as connected already, and its groups are not read again until it disconnects.\<close>

lemma failed_connect_is_final:
  assumes "members_ok m" and "u \<notin> set (getOnlineUsers (da_uid u) m)" and "fst (ug_getJoinedGroupsList db (da_uid u)) \<noteq> Dao_Success"
  shows "om_groupMembers (doHandleUserOnline rn db u m) = om_groupMembers m"
    and "doHandleUserOnline rn db' u (doHandleUserOnline rn db u m) = doHandleUserOnline rn db u m"
proof -
  have m1: "doHandleUserOnline rn db u m = snd (online_add u m)"
    using assms(3) by (auto simp: doHandleUserOnline_def split_beta Let_def)
  show "om_groupMembers (doHandleUserOnline rn db u m) = om_groupMembers m" unfolding m1 by (rule online_frame)
  have "u \<in> set (getOnlineUsers (da_uid u) (snd (online_add u m)))" unfolding getOnlineUsers_add by simp
  then show "doHandleUserOnline rn db' u (doHandleUserOnline rn db u m) = doHandleUserOnline rn db u m"
    unfolding m1 using online_add_again by (simp add: doHandleUserOnline_def)
qed

end
