(* ===== verification/Online_Messages.thy ===== *)
theory Online_Messages
  imports Online_Members Dispatch_Manager
begin

text \<open>
  \<open>src/group/online_msg_handler.cpp\<close>, the handling of a message of a group by
  \<open>group_msg_service.cpp\<close>, and the choice of noise receivers in \<open>online_msg_member_mgr.cpp\<close>: a
  message published for a group is rebuilt for the clients, sent to the members of the group connected to this
  server through the dispatch manager, and recorded in Redis for the offline server; with noise on, a message
  that looks the same goes to some devices outside the group. Protocol buffers, the numbers of their
  enumerations and the JSON parser are arguments (\<open>GroupWire\<close>). A \<open>std::exception\<close> is
  \<open>None\<close>.
\<close>

section \<open>Messages for the clients\<close>

record GroupChatMsg =
  cm_gid :: u64
  cm_mid :: u64
  cm_fromUid :: string
  cm_text :: string
  cm_status :: int
  cm_createTime :: u64
  cm_atAll :: bool
  cm_atList :: "string list"
  cm_sourceExtra :: string

record GroupInfoUpdate =
  iu_gid :: u64
  iu_mid :: u64
  iu_fromUid :: string
  iu_lastMid :: u64
  iu_intro :: string
  iu_broadcast :: int
  iu_createTime :: u64
  iu_updateTime :: u64
  iu_channel :: string
  iu_name :: string
  iu_icon :: string
  iu_encryptedName :: string
  iu_encryptedIcon :: string

record GroupSwitchGroupKeys =
  sk_gid :: u64
  sk_mid :: u64
  sk_fromUid :: string
  sk_version :: u64

record GroupUpdateGroupKeysRequest =
  uk_gid :: u64
  uk_mid :: u64
  uk_fromUid :: string
  uk_keysMode :: int

record GroupMemberUpdate =
  mu_gid :: u64
  mu_mid :: u64
  mu_fromUid :: string
  mu_action :: int
  mu_members :: "(string \<times> string \<times> int) list"

record GroupRecallMsg =
  rc_gid :: u64
  rc_mid :: u64
  rc_fromUid :: string
  rc_recalledMid :: u64
  rc_sourceExtra :: string

record GroupWire =
  gw_chat :: int
  gw_channel :: int
  gw_infoUpdate :: int
  gw_memberUpdate :: int
  gw_recall :: int
  gw_switchKeys :: int
  gw_updateKeys :: int
  gw_noise :: int
  gw_master :: u32
  gw_parse :: "string \<Rightarrow> json option"
  gw_dump :: "json \<Rightarrow> string"
  gw_chatBytes :: "GroupChatMsg \<Rightarrow> string"
  gw_infoBytes :: "GroupInfoUpdate \<Rightarrow> string"
  gw_switchBytes :: "GroupSwitchGroupKeys \<Rightarrow> string"
  gw_updateBytes :: "GroupUpdateGroupKeysRequest \<Rightarrow> string"
  gw_memberBytes :: "GroupMemberUpdate \<Rightarrow> string"
  gw_recallBytes :: "GroupRecallMsg \<Rightarrow> string"
  gw_outBytes :: "int \<Rightarrow> string \<Rightarrow> string"

text \<open>\<open>j.at(k).get<T>()\<close> for the types that are used.\<close>

definition at_u64 :: "json \<Rightarrow> string \<Rightarrow> u64 option" where
  "at_u64 j k = do { v \<leftarrow> jfind j k; map_option word_of_int (get_int v) }"

definition at_int :: "json \<Rightarrow> string \<Rightarrow> int option" where
  "at_int j k = do { v \<leftarrow> jfind j k; map_option to_i32 (get_int v) }"

definition at_string :: "json \<Rightarrow> string \<Rightarrow> string option" where
  "at_string j k = do { v \<leftarrow> jfind j k; get_string v }"

text \<open>The values an iteration over a JSON value visits.\<close>

fun jelements :: "json \<Rightarrow> json list" where
  "jelements (JArray js) = js"
| "jelements (JObject m) = map snd m"
| "jelements JNull = []"
| "jelements j = [j]"

definition buildOutMessage :: "GroupWire \<Rightarrow> int \<Rightarrow> bool \<Rightarrow> string \<Rightarrow> string" where
  "buildOutMessage W ty isNoise body = gw_outBytes W (if isNoise then gw_noise W else ty) body"

text \<open>The sender of a chat message or a recall: the encrypted form when there is one.\<close>

definition from_uid :: "json \<Rightarrow> string option" where
  "from_uid j = (if jfind j ''from_uid_extra'' = None then at_string j ''from_uid'' else at_string j ''from_uid_extra'')"

definition source_extra :: "json \<Rightarrow> string option" where
  "source_extra j = (if jfind j ''source_extra'' = None then Some [] else at_string j ''source_extra'')"

definition buildChatMessageBody :: "GroupWire \<Rightarrow> json \<Rightarrow> string option" where
  "buildChatMessageBody W j = do {
     gid \<leftarrow> at_u64 j ''gid'';
     mid \<leftarrow> at_u64 j ''mid'';
     from \<leftarrow> from_uid j;
     text \<leftarrow> at_string j ''text'';
     status \<leftarrow> at_int j ''status'';
     createTime \<leftarrow> at_u64 j ''create_time'';
     atAll \<leftarrow> at_int j ''at_all'';
     atList \<leftarrow> at_string j ''at_list'';
     uids \<leftarrow> (if atList = [] then Some [] else do { arr \<leftarrow> gw_parse W atList; get_list get_string arr });
     se \<leftarrow> source_extra j;
     Some (gw_chatBytes W \<lparr>cm_gid = gid, cm_mid = mid, cm_fromUid = from, cm_text = text, cm_status = status, cm_createTime = createTime,
       cm_atAll = (atAll = 1), cm_atList = uids, cm_sourceExtra = se\<rparr>) }"

definition buildChatMessage :: "GroupWire \<Rightarrow> json \<Rightarrow> bool \<Rightarrow> string option" where
  "buildChatMessage W j isNoise = map_option (buildOutMessage W (gw_chat W) isNoise) (buildChatMessageBody W j)"

definition buildChannelMessage :: "GroupWire \<Rightarrow> json \<Rightarrow> bool \<Rightarrow> string option" where
  "buildChannelMessage W j isNoise = map_option (buildOutMessage W (gw_channel W) isNoise) (buildChatMessageBody W j)"

text \<open>The other messages carry a JSON object as their text; without text the message stays empty.\<close>

definition with_text :: "GroupWire \<Rightarrow> json \<Rightarrow> (json \<Rightarrow> string option) \<Rightarrow> string option" where
  "with_text W j f = do { text \<leftarrow> at_string j ''text''; if text = [] then Some [] else do { t \<leftarrow> gw_parse W text; f t } }"

definition buildInfoUpdateMessage :: "GroupWire \<Rightarrow> json \<Rightarrow> bool \<Rightarrow> string option" where
  "buildInfoUpdateMessage W j isNoise = do {
     gid \<leftarrow> at_u64 j ''gid'';
     mid \<leftarrow> at_u64 j ''mid'';
     from \<leftarrow> at_string j ''from_uid'';
     with_text W j (\<lambda>t. do {
       lastMid \<leftarrow> at_u64 t ''last_mid'';
       intro \<leftarrow> at_string t ''intro'';
       broadcast \<leftarrow> at_int t ''broadcast'';
       createTime \<leftarrow> at_u64 t ''create_time'';
       updateTime \<leftarrow> at_u64 t ''update_time'';
       channel \<leftarrow> at_string t ''channel'';
       name \<leftarrow> toString t ''name'' OPTIONAL [];
       icon \<leftarrow> toString t ''icon'' OPTIONAL [];
       encryptedName \<leftarrow> toString t ''encrypted_name'' OPTIONAL [];
       encryptedIcon \<leftarrow> toString t ''encrypted_icon'' OPTIONAL [];
       Some (buildOutMessage W (gw_infoUpdate W) isNoise (gw_infoBytes W
         \<lparr>iu_gid = gid, iu_mid = mid, iu_fromUid = from, iu_lastMid = lastMid, iu_intro = intro, iu_broadcast = broadcast,
          iu_createTime = createTime, iu_updateTime = updateTime, iu_channel = channel, iu_name = name, iu_icon = icon,
          iu_encryptedName = encryptedName, iu_encryptedIcon = encryptedIcon\<rparr>)) }) }"

definition buildGroupSwitchGroupKeysMessage :: "GroupWire \<Rightarrow> json \<Rightarrow> bool \<Rightarrow> string option" where
  "buildGroupSwitchGroupKeysMessage W j isNoise = do {
     gid \<leftarrow> at_u64 j ''gid'';
     mid \<leftarrow> at_u64 j ''mid'';
     from \<leftarrow> at_string j ''from_uid'';
     with_text W j (\<lambda>t. do {
       version \<leftarrow> at_u64 t ''version'';
       Some (buildOutMessage W (gw_switchKeys W) isNoise (gw_switchBytes W
         \<lparr>sk_gid = gid, sk_mid = mid, sk_fromUid = from, sk_version = version\<rparr>)) }) }"

definition buildGroupUpdateGroupKeysRequestMessage :: "GroupWire \<Rightarrow> json \<Rightarrow> bool \<Rightarrow> string option" where
  "buildGroupUpdateGroupKeysRequestMessage W j isNoise = do {
     gid \<leftarrow> at_u64 j ''gid'';
     mid \<leftarrow> at_u64 j ''mid'';
     from \<leftarrow> at_string j ''from_uid'';
     with_text W j (\<lambda>t. do {
       mode \<leftarrow> at_int t ''group_keys_mode'';
       Some (buildOutMessage W (gw_updateKeys W) isNoise (gw_updateBytes W
         \<lparr>uk_gid = gid, uk_mid = mid, uk_fromUid = from, uk_keysMode = mode\<rparr>)) }) }"

definition member_of_json :: "json \<Rightarrow> (string \<times> string \<times> int) option" where
  "member_of_json e = do { uid \<leftarrow> at_string e ''uid''; nick \<leftarrow> at_string e ''nick''; role \<leftarrow> at_int e ''role''; Some (uid, nick, role) }"

definition buildMemberUpdateMessage :: "GroupWire \<Rightarrow> json \<Rightarrow> bool \<Rightarrow> string option" where
  "buildMemberUpdateMessage W j isNoise = do {
     gid \<leftarrow> at_u64 j ''gid'';
     mid \<leftarrow> at_u64 j ''mid'';
     from \<leftarrow> at_string j ''from_uid'';
     with_text W j (\<lambda>t. do {
       action \<leftarrow> at_int t ''action'';
       arr \<leftarrow> jfind t ''members'';
       members \<leftarrow> those (map member_of_json (jelements arr));
       Some (buildOutMessage W (gw_memberUpdate W) isNoise (gw_memberBytes W
         \<lparr>mu_gid = gid, mu_mid = mid, mu_fromUid = from, mu_action = action, mu_members = members\<rparr>)) }) }"

definition buildRecallMessage :: "GroupWire \<Rightarrow> json \<Rightarrow> bool \<Rightarrow> string option" where
  "buildRecallMessage W j isNoise = do {
     gid \<leftarrow> at_u64 j ''gid'';
     mid \<leftarrow> at_u64 j ''mid'';
     from \<leftarrow> from_uid j;
     with_text W j (\<lambda>t. do {
       recalled \<leftarrow> at_u64 t ''recalled_mid'';
       se \<leftarrow> source_extra j;
       Some (buildOutMessage W (gw_recall W) isNoise (gw_recallBytes W
         \<lparr>rc_gid = gid, rc_mid = mid, rc_fromUid = from, rc_recalledMid = recalled, rc_sourceExtra = se\<rparr>)) }) }"

section \<open>Record for the offline server\<close>

record GroupUserMessageIdInfo =
  gi_lastMid :: u64
  gi_gcmId :: string
  gi_umengId :: string
  gi_osType :: u32
  gi_osVersion :: string
  gi_bcmBuildCode :: u64
  gi_phoneModel :: string
  gi_apnId :: string
  gi_apnType :: string
  gi_voipApnId :: string
  gi_targetAddress :: string
  gi_cfgFlag :: int

definition GroupUserMessageIdInfo_new :: GroupUserMessageIdInfo where
  "GroupUserMessageIdInfo_new = \<lparr>gi_lastMid = 0, gi_gcmId = [], gi_umengId = [], gi_osType = 0, gi_osVersion = [], gi_bcmBuildCode = 0,
     gi_phoneModel = [], gi_apnId = [], gi_apnType = [], gi_voipApnId = [], gi_targetAddress = [], gi_cfgFlag = 0\<rparr>"

definition GroupUserMessageIdInfo_to_string :: "(json \<Rightarrow> string) \<Rightarrow> GroupUserMessageIdInfo \<Rightarrow> string" where
  "GroupUserMessageIdInfo_to_string dump i = dump (jobj
     [(''last_mid'', ju64 (gi_lastMid i)), (''cfgFlag'', JInt (gi_cfgFlag i)), (''gcmId'', JString (gi_gcmId i)),
      (''umengId'', JString (gi_umengId i)), (''osType'', JInt (uint (gi_osType i))), (''osVersion'', JString (gi_osVersion i)),
      (''bcmBuildCode'', ju64 (gi_bcmBuildCode i)), (''phoneModel'', JString (gi_phoneModel i)), (''apnId'', JString (gi_apnId i)),
      (''apnType'', JString (gi_apnType i)), (''voipApnId'', JString (gi_voipApnId i)), (''targetAddress'', JString (gi_targetAddress i))])"

text \<open>\<open>from_string\<close> overwrites what the text has; the text of what the other fields of the record hold
  is parsed with the conversions \<open>lex64\<close>, \<open>lex32\<close> and \<open>lexInt\<close> for numbers written as strings. A
  failure is \<open>None\<close> (the record is then partly overwritten in the source).\<close>

definition present :: "json \<Rightarrow> string \<Rightarrow> (string \<Rightarrow> string option) \<Rightarrow> string \<Rightarrow> string option" where
  "present j k get old = (if jfind j k = None then Some old else get old)"

definition GroupUserMessageIdInfo_from_string ::
  "(string \<Rightarrow> json option) \<Rightarrow> (string \<Rightarrow> u64 option) \<Rightarrow> (string \<Rightarrow> u32 option) \<Rightarrow> (string \<Rightarrow> int option)
    \<Rightarrow> string \<Rightarrow> GroupUserMessageIdInfo \<Rightarrow> GroupUserMessageIdInfo option" where
  "GroupUserMessageIdInfo_from_string parse lex64 lex32 lexInt str i = do {
     j \<leftarrow> parse str;
     lastMid \<leftarrow> toNumber lex64 word_of_int j ''last_mid'' OPTIONAL (gi_lastMid i);
     cfgFlag \<leftarrow> toNumber lexInt to_i32 j ''cfgFlag'' OPTIONAL (gi_cfgFlag i);
     gcmId \<leftarrow> present j ''gcmId'' (toString j ''gcmId'' REQUIRE) (gi_gcmId i);
     umengId \<leftarrow> present j ''umengId'' (toString j ''umengId'' REQUIRE) (gi_umengId i);
     apnId \<leftarrow> present j ''apnId'' (toString j ''apnId'' REQUIRE) (gi_apnId i);
     apnType \<leftarrow> present j ''apnId'' (toString j ''apnType'' REQUIRE) (gi_apnType i);
     voipApnId \<leftarrow> present j ''apnId'' (toString j ''voipApnId'' REQUIRE) (gi_voipApnId i);
     osType \<leftarrow> toNumber lex32 word_of_int j ''osType'' OPTIONAL (gi_osType i);
     build \<leftarrow> toNumber lex64 word_of_int j ''bcmBuildCode'' OPTIONAL (gi_bcmBuildCode i);
     phoneModel \<leftarrow> toString j ''phoneModel'' OPTIONAL (gi_phoneModel i);
     osVersion \<leftarrow> toString j ''osVersion'' OPTIONAL (gi_osVersion i);
     target \<leftarrow> toString j ''targetAddress'' OPTIONAL (gi_targetAddress i);
     Some \<lparr>gi_lastMid = lastMid, gi_gcmId = gcmId, gi_umengId = umengId, gi_osType = osType, gi_osVersion = osVersion,
       gi_bcmBuildCode = build, gi_phoneModel = phoneModel, gi_apnId = apnId, gi_apnType = apnType, gi_voipApnId = voipApnId,
       gi_targetAddress = target, gi_cfgFlag = cfgFlag\<rparr> }"

section \<open>Handling a message\<close>

text \<open>The devices of the users a member update names, added to the receivers. An exception ends the loop
  and keeps what is there.\<close>

fun add_named :: "OnlineMsgMemberMgr \<Rightarrow> json list \<Rightarrow> UserSet \<Rightarrow> UserSet" where
  "add_named m [] targets = targets"
| "add_named m (e # es) targets =
     (case at_string e ''uid'' of None \<Rightarrow> targets | Some uid \<Rightarrow> add_named m es (fold us_insert (getOnlineUsers uid m) targets))"

definition named_targets :: "GroupWire \<Rightarrow> json \<Rightarrow> OnlineMsgMemberMgr \<Rightarrow> UserSet \<Rightarrow> UserSet" where
  "named_targets W j m targets =
     (case at_string j ''text'' of
        None \<Rightarrow> targets
      | Some text \<Rightarrow>
          if text = [] then targets
          else case Option.bind (gw_parse W text) (\<lambda>t. jfind t ''members'') of
                 None \<Rightarrow> targets
               | Some arr \<Rightarrow> add_named m (jelements arr) targets)"

text \<open>The switch over the type of the message: the message for the clients and the receivers.\<close>

definition build_for_type :: "GroupWire \<Rightarrow> int \<Rightarrow> json \<Rightarrow> u64 \<Rightarrow> OnlineMsgMemberMgr \<Rightarrow> (UserSet \<times> string) option" where
  "build_for_type W ty j gid m =
     (let members = getGroupMembers_into gid [] m;
          to_members = map_option (Pair members)
      in if ty = gw_chat W then to_members (buildChatMessage W j False)
         else if ty = gw_channel W then to_members (buildChannelMessage W j False)
         else if ty = gw_infoUpdate W then to_members (buildInfoUpdateMessage W j False)
         else if ty = gw_memberUpdate W then map_option (Pair (named_targets W j m members)) (buildMemberUpdateMessage W j False)
         else if ty = gw_recall W then to_members (buildRecallMessage W j False)
         else if ty = gw_switchKeys W then to_members (buildGroupSwitchGroupKeysMessage W j False)
         else if ty = gw_updateKeys W then to_members (buildGroupUpdateGroupKeysRequestMessage W j False)
         else Some ([], []))"

text \<open>A write to Redis: the group, the key, and the fields.\<close>

type_synonym hmset_call = "u64 \<times> string \<times> (string \<times> string) list"

definition handleGroupMessage :: "GroupWire \<Rightarrow> json \<Rightarrow> OnlineMsgMemberMgr \<Rightarrow> (UserSet \<times> string \<times> hmset_call list) option" where
  "handleGroupMessage W j m = do {
     ty \<leftarrow> at_int j ''type'';
     gid \<leftarrow> at_u64 j ''gid'';
     (targets, message) \<leftarrow> build_for_type W ty j gid m;
     if targets = [] then Some (targets, message, [])
     else do {
       mid \<leftarrow> at_u64 j ''mid'';
       let val = GroupUserMessageIdInfo_to_string (gw_dump W) (GroupUserMessageIdInfo_new\<lparr>gi_lastMid := mid\<rparr>);
       Some (targets, message,
         [(gid, ''group_user_msg_'' @ to_dec (unat gid), map (\<lambda>u. (da_uid u, val)) (filter (\<lambda>u. da_deviceid u = gw_master W) targets))]) } }"

section \<open>Noise\<close>

text \<open>One batch of connected devices outside the group, from a position in the table of connected users on:
  at most \<open>b\<close> devices.\<close>

fun batch_devices :: "DispatchAddress set \<Rightarrow> DispatchAddress list \<Rightarrow> nat \<Rightarrow> UserSet \<Rightarrow> nat \<times> UserSet" where
  "batch_devices excluded [] b users = (b, users)"
| "batch_devices excluded (u # us) b users =
     (let (b, users) = (if u \<in> excluded then (b, users) else (b - 1, us_insert u users))
      in if b = 0 then (b, users) else batch_devices excluded us b users)"

fun batch :: "DispatchAddress set \<Rightarrow> (string \<times> UserSet) list \<Rightarrow> nat \<Rightarrow> string \<Rightarrow> UserSet \<Rightarrow> string \<times> UserSet" where
  "batch excluded [] b pos users = (pos, users)"
| "batch excluded ((uid, us) # rest) b pos users =
     (if b = 0 then (pos, users)
      else let (b, users) = batch_devices excluded us b users in batch excluded rest b uid users)"

text \<open>The candidates go to the result, until it is full or a candidate is met again.\<close>

fun collect :: "nat \<Rightarrow> UserSet \<Rightarrow> UserSet \<Rightarrow> string \<Rightarrow> bool \<times> UserSet \<times> string" where
  "collect count [] result lastUid = (False, result, lastUid)"
| "collect count (u # us) result lastUid =
     (if u \<in> set result then (True, result, lastUid)
      else if count \<le> length (us_insert u result) then (True, us_insert u result, da_uid u)
      else collect count us (us_insert u result) (da_uid u))"

text \<open>The loop of \<open>getOnlineUsers\<close>; \<open>None\<close>: it does not end while the table of users stays as it is.\<close>

partial_function (option) noise_loop ::
  "(string \<times> UserSet) list \<Rightarrow> DispatchAddress set \<Rightarrow> (DispatchAddress \<Rightarrow> bool) \<Rightarrow> nat \<Rightarrow> string
    \<Rightarrow> string \<Rightarrow> bool \<Rightarrow> UserSet \<Rightarrow> string \<Rightarrow> (UserSet \<times> string) option" where
  "noise_loop online excluded eligible count start pos startOver result lastUid =
     (if startOver \<and> start \<le> pos then Some (result, lastUid)
      else if online = [] then Some ([], lastUid)
      else let (pos', users) = batch excluded (sm_upper_bound pos online) count pos []
           in if users = [] then noise_loop online excluded eligible count start [] True result lastUid
              else let (stop, result', lastUid') = collect count (filter eligible users) result lastUid
                   in if stop then Some (result', lastUid')
                      else noise_loop online excluded eligible count start pos' startOver result' lastUid')"

text \<open>A device may get noise when it is connected here with a client that is new enough. The account of a
  session is kept by the transport.\<close>

definition versionSupported :: "nat \<Rightarrow> nat \<Rightarrow> u64 \<times> u64 \<Rightarrow> ClientVersion \<Rightarrow> bool" where
  "versionSupported ios android vers target =
     (if cv_osType target = ios then fst vers \<le> cv_bcmBuildCode target
      else if cv_osType target = android then snd vers \<le> cv_bcmBuildCode target
      else False)"

record NoiseEnv =
  ne_ios :: nat
  ne_android :: nat
  ne_session :: "u64 \<Rightarrow> Account option"

definition noise_eligible :: "NoiseEnv \<Rightarrow> u64 \<times> u64 \<Rightarrow> 's Manager \<Rightarrow> DispatchAddress \<Rightarrow> bool" where
  "noise_eligible E vers dm user =
     (case getDispatcher user dm of
        None \<Rightarrow> False
      | Some k \<Rightarrow>
          (case ne_session E k of
             None \<Rightarrow> False
           | Some account \<Rightarrow>
               (case getAuthDevice account of
                  None \<Rightarrow> False
                | Some dev \<Rightarrow>
                    (case d_clientVersion dev of None \<Rightarrow> False | Some v \<Rightarrow> versionSupported (ne_ios E) (ne_android E) vers v))))"

text \<open>\<open>getOnlineUsers\<close> with a count.\<close>

definition getNoiseUsers :: "NoiseEnv \<Rightarrow> u64 \<times> u64 \<Rightarrow> string \<Rightarrow> u64 \<Rightarrow> nat \<Rightarrow> OnlineMsgMemberMgr \<Rightarrow> 's Manager \<Rightarrow> UserSet \<Rightarrow> string
    \<Rightarrow> (UserSet \<times> string) option" where
  "getNoiseUsers E vers start excludedGid count m dm result lastUid =
     noise_loop (om_onlineUsers m) (set (getGroupMembers_into excludedGid [] m)) (noise_eligible E vers dm) count start start False result lastUid"

text \<open>\<open>percentage * n\<close> rounded down is \<open>nc_part n\<close>. The lambda that compares versions is static: it
  keeps the versions of its first use.\<close>

record NoiseConfig =
  nc_enabled :: bool
  nc_part :: "nat \<Rightarrow> nat"
  nc_iosSupportedVersion :: u64
  nc_androidSupportedVersion :: u64

record OnlineMsgHandler =
  oh_noiseCfg :: NoiseConfig
  oh_lastNoiseUid :: string
  oh_static :: "(u64 \<times> u64) option"

definition pickNoiseReceivers :: "NoiseEnv \<Rightarrow> u64 \<Rightarrow> UserSet \<Rightarrow> OnlineMsgMemberMgr \<Rightarrow> 's Manager \<Rightarrow> OnlineMsgHandler
    \<Rightarrow> (UserSet \<times> OnlineMsgHandler) option" where
  "pickNoiseReceivers E gid onlineUids m dm h =
     (let cfg = oh_noiseCfg h
      in if \<not> nc_enabled cfg then Some ([], h)
         else let n = nc_part cfg (length onlineUids);
                  nReceivers = (if n = 0 \<and> onlineUids \<noteq> [] then 1 else n)
              in if nReceivers = 0 then Some ([], h)
                 else let vers = (case oh_static h of None \<Rightarrow> (nc_iosSupportedVersion cfg, nc_androidSupportedVersion cfg) | Some v \<Rightarrow> v)
                      in map_option (\<lambda>(targets, uid).
                           (targets, h\<lparr>oh_static := Some vers, oh_lastNoiseUid := (if targets = [] then oh_lastNoiseUid h else uid)\<rparr>))
                         (getNoiseUsers E vers (oh_lastNoiseUid h) gid nReceivers m dm [] []))"

text \<open>The switch of \<open>generateNoiseForGroupMessage\<close>; \<open>Some None\<close>: the type has no noise.\<close>

definition build_noise :: "GroupWire \<Rightarrow> int \<Rightarrow> json \<Rightarrow> string option option" where
  "build_noise W ty j =
     (if ty = gw_chat W then map_option Some (buildChatMessage W j True)
      else if ty = gw_channel W then map_option Some (buildChannelMessage W j True)
      else if ty = gw_infoUpdate W then map_option Some (buildInfoUpdateMessage W j True)
      else if ty = gw_memberUpdate W then map_option Some (buildMemberUpdateMessage W j True)
      else if ty = gw_recall W then map_option Some (buildRecallMessage W j True)
      else Some None)"

text \<open>With the handler of exceptions around it: the receivers and the message of the noise. \<open>None\<close>: it
  does not end.\<close>

definition generateNoiseForGroupMessage :: "GroupWire \<Rightarrow> NoiseEnv \<Rightarrow> json \<Rightarrow> UserSet \<Rightarrow> OnlineMsgMemberMgr \<Rightarrow> 's Manager \<Rightarrow> OnlineMsgHandler
    \<Rightarrow> (UserSet \<times> string \<times> OnlineMsgHandler) option" where
  "generateNoiseForGroupMessage W E j onlineUsers m dm h =
     (case (do { ty \<leftarrow> at_int j ''type''; gid \<leftarrow> at_u64 j ''gid''; msg \<leftarrow> build_noise W ty j; Some (gid, msg) }) of
        None \<Rightarrow> Some ([], [], h)
      | Some (gid, None) \<Rightarrow> Some ([], [], h)
      | Some (gid, Some message) \<Rightarrow> map_option (\<lambda>(targets, h). (targets, message, h)) (pickNoiseReceivers E gid onlineUsers m dm h))"

section \<open>The service\<close>

text \<open>The group service: the threads of its pool (a thread whose handler throws has left its loop), the table of
  members, the handler of messages, the dispatch manager, and what was written to Redis.\<close>

record 's GroupService =
  gs_threads :: "bool list"
  gs_members :: OnlineMsgMemberMgr
  gs_handler :: OnlineMsgHandler
  gs_dispatch :: "'s Manager"
  gs_redis :: "hmset_call list"

definition getIoCtxByGid :: "u64 \<Rightarrow> bool list \<Rightarrow> nat option" where
  "getIoCtxByGid gid iocs = (if iocs = [] then None else Some (unat gid mod length iocs))"

text \<open>The function posted for a message of group \<open>gid\<close>. Outer \<open>None\<close>: it does not end; inner
  \<open>None\<close>: it throws.\<close>

definition deliver_message :: "GroupWire \<Rightarrow> NoiseEnv \<Rightarrow> json \<Rightarrow> 's GroupService \<Rightarrow> 's GroupService option option" where
  "deliver_message W E j s =
     (case handleGroupMessage W j (gs_members s) of
        None \<Rightarrow> Some None
      | Some (targets, msg, calls) \<Rightarrow>
          let messages = (if targets = [] then [] else [(Some targets, Some msg)]);
              s = s\<lparr>gs_redis := gs_redis s @ calls\<rparr>
          in if \<not> nc_enabled (oh_noiseCfg (gs_handler s))
             then Some (Some (s\<lparr>gs_dispatch := sendGroupMessages messages (gs_dispatch s)\<rparr>))
             else map_option (\<lambda>(noise, noiseMsg, h).
                    Some (s\<lparr>gs_handler := h,
                      gs_dispatch := sendGroupMessages (messages @ (if noise = [] then [] else [(Some noise, Some noiseMsg)])) (gs_dispatch s)\<rparr>))
                  (generateNoiseForGroupMessage W E j targets (gs_members s) (gs_dispatch s) (gs_handler s)))"

text \<open>\<open>handleMessage\<close> of the service and of the handler: what does not parse is logged; otherwise the
  function runs on the thread of the group, if that thread still runs.\<close>

definition handleMessage :: "GroupWire \<Rightarrow> NoiseEnv \<Rightarrow> string \<Rightarrow> string \<Rightarrow> 's GroupService \<Rightarrow> 's GroupService option" where
  "handleMessage W E chan msg s =
     (if \<not> isGroupMessageChannel chan then Some s
      else case Option.bind (gw_parse W msg) (\<lambda>j. map_option (Pair j) (at_u64 j ''gid'')) of
             None \<Rightarrow> Some s
           | Some (j, gid) \<Rightarrow>
               (case getIoCtxByGid gid (gs_threads s) of
                  None \<Rightarrow> Some s
                | Some i \<Rightarrow>
                    if \<not> gs_threads s ! i then Some s
                    else case deliver_message W E j s of
                           None \<Rightarrow> None
                         | Some None \<Rightarrow> Some (s\<lparr>gs_threads := (gs_threads s)[i := False]\<rparr>)
                         | Some (Some s') \<Rightarrow> Some s'))"

section \<open>Batches\<close>

lemma batch_devices_set:
  "set users \<subseteq> set (snd (batch_devices ex us b users)) \<and> set (snd (batch_devices ex us b users)) \<subseteq> set users \<union> (set us - ex)"
proof (induction us arbitrary: b users)
  case (Cons u us)
  then show ?case by (fastforce simp: Let_def split: if_splits)
qed simp

lemma batch_devices_ok: "us_ok users \<Longrightarrow> us_ok (snd (batch_devices ex us b users))"
  by (induction us arbitrary: b users) (auto simp: Let_def us_ok_insert)

text \<open>A batch takes a device of a user as long as it is not full, and is full only with some device.\<close>

lemma batch_devices_takes:
  assumes "0 < b" and "u \<in> set us" and "u \<notin> ex"
  shows "\<exists>v \<in> set us - ex. v \<in> set (snd (batch_devices ex us b users))"
  using assms
proof (induction us arbitrary: b users)
  case (Cons w us)
  show ?case
  proof (cases "w \<in> ex")
    case True
    with Cons show ?thesis by (fastforce simp: Let_def)
  next
    case False
    then show ?thesis using batch_devices_set [of "us_insert w users" ex us "b - 1"] by (auto simp: Let_def intro!: bexI [of _ w])
  qed
qed simp

lemma batch_devices_full: "0 < b \<Longrightarrow> fst (batch_devices ex us b users) = 0 \<Longrightarrow> snd (batch_devices ex us b users) \<noteq> []"
proof (induction us arbitrary: b users)
  case (Cons u us)
  then show ?case by (cases "u \<in> ex"; cases "b = 1") (simp_all add: Let_def)
qed simp

lemma batch_set:
  "set users \<subseteq> set (snd (batch ex l b pos users)) \<and> set (snd (batch ex l b pos users)) \<subseteq> set users \<union> (\<Union> (set ` snd ` set l) - ex)"
proof (induction ex l b pos users rule: batch.induct)
  case (2 ex uid us rest b pos users)
  let ?d = "batch_devices ex us b users"
  show ?case
  proof (cases "b = 0")
    case False
    have "set (snd ?d) \<subseteq> set (snd (batch ex rest (fst ?d) uid (snd ?d)))"
      "set (snd (batch ex rest (fst ?d) uid (snd ?d))) \<subseteq> set (snd ?d) \<union> (\<Union> (set ` snd ` set rest) - ex)"
      using 2 [OF False, of ?d "fst ?d" "snd ?d"] by simp_all
    moreover have "set users \<subseteq> set (snd ?d)" "set (snd ?d) \<subseteq> set users \<union> (set us - ex)" using batch_devices_set [of users ex us b] by simp_all
    ultimately show ?thesis using False by (simp add: Let_def split_beta) blast
  qed simp
qed simp

lemma batch_ok: "us_ok users \<Longrightarrow> us_ok (snd (batch ex l b pos users))"
  by (induction ex l b pos users rule: batch.induct) (simp_all add: Let_def split_beta batch_devices_ok)

lemma batch_pos: "fst (batch ex l b pos users) \<in> insert pos (fst ` set l)"
  by (induction ex l b pos users rule: batch.induct) (auto simp: Let_def split_beta)

lemma batch_pos_moves: "snd (batch ex l b pos users) \<noteq> users \<Longrightarrow> fst (batch ex l b pos users) \<in> fst ` set l"
proof (induction l)
  case (Cons e rest)
  obtain uid us where e: "e = (uid, us)" by (cases e)
  show ?case
    using Cons.prems batch_pos [of ex rest "fst (batch_devices ex us b users)" uid "snd (batch_devices ex us b users)"]
    by (cases "b = 0") (simp_all add: e Let_def split_beta)
qed simp

lemma batch_full [simp]: "batch ex l 0 pos users = (pos, users)"
  by (cases l; cases "hd l") auto

text \<open>A user ahead with a device outside the group: the batch is not empty, and when it goes as far as the user
  it holds a device of his.\<close>

lemma batch_reaches:
  assumes "sm_ok l" and "(g, us) \<in> set l" and "u \<in> set us" and "u \<notin> ex" and "0 < b"
  shows "snd (batch ex l b pos users) \<noteq> []
    \<and> (fst (batch ex l b pos users) < g \<or> (\<exists>v \<in> set us - ex. v \<in> set (snd (batch ex l b pos users))))"
  using assms
proof (induction ex l b pos users rule: batch.induct)
  case (2 ex uid vs rest b pos users)
  let ?d = "batch_devices ex vs b users"
  have rest: "set (snd ?d) \<subseteq> set (snd (batch ex rest (fst ?d) uid (snd ?d)))" using batch_set by blast
  show ?case
  proof (cases "uid = g \<and> vs = us")
    case True
    with batch_devices_takes [of b u us ex users] 2(3-6) rest show ?thesis by (fastforce simp: Let_def split_beta)
  next
    case False
    with 2(2,3) have less: "uid < g" and mem: "(g, us) \<in> set rest" by (auto simp: sm_ok_Cons)
    show ?thesis
    proof (cases "fst ?d = 0")
      case True
      then show ?thesis using 2(6) less batch_devices_full by (simp add: Let_def split_beta)
    next
      case False
      have "sm_ok rest" using 2(2) by (simp add: sm_ok_Cons)
      with 2(1) [of ?d "fst ?d" "snd ?d"] 2(4-6) mem False show ?thesis by (simp add: Let_def split_beta)
    qed
  qed
qed simp

section \<open>The loop over the batches\<close>

lemma length_us_insert: "length (us_insert u s) = (if u \<in> set s then length s else Suc (length s))"
  by (auto simp: us_insert_def insort_insert_key_def length_insort)

lemma collect_set:
  "set (fst (snd (collect count us r l))) \<subseteq> set us \<union> set r" "us_ok r \<Longrightarrow> us_ok (fst (snd (collect count us r l)))"
proof -
  show "set (fst (snd (collect count us r l))) \<subseteq> set us \<union> set r"
    by (induction count us r l rule: collect.induct) auto
  show "us_ok r \<Longrightarrow> us_ok (fst (snd (collect count us r l)))"
    by (induction count us r l rule: collect.induct) (auto simp: us_ok_insert)
qed

lemma collect_length:
  assumes "length r < count"
  shows "length (fst (snd (collect count us r l))) \<le> count" "\<not> fst (collect count us r l) \<Longrightarrow> length (fst (snd (collect count us r l))) < count"
    "\<not> fst (collect count us r l) \<Longrightarrow> length r + length us = length (fst (snd (collect count us r l)))"
proof -
  show "length (fst (snd (collect count us r l))) \<le> count"
    using assms by (induction count us r l rule: collect.induct) (auto simp: length_us_insert)
  show "\<not> fst (collect count us r l) \<Longrightarrow> length (fst (snd (collect count us r l))) < count"
    using assms by (induction count us r l rule: collect.induct) (auto simp: length_us_insert split: if_splits)
  show "\<not> fst (collect count us r l) \<Longrightarrow> length r + length us = length (fst (snd (collect count us r l)))"
    using assms by (induction count us r l rule: collect.induct) (auto simp: length_us_insert split: if_splits)
qed

text \<open>Whatever it returns are eligible connected devices outside the group, not more than asked for.\<close>

lemma noise_loop_sound:
  assumes "noise_loop online ex el count start pos ov r l = Some res"
  shows "length r < count \<longrightarrow> us_ok r \<longrightarrow> set r \<subseteq> {u \<in> \<Union> (set ` snd ` set online). u \<notin> ex \<and> el u}
    \<longrightarrow> us_ok (fst res) \<and> length (fst res) \<le> count \<and> set (fst res) \<subseteq> {u \<in> \<Union> (set ` snd ` set online). u \<notin> ex \<and> el u}"
  using assms
proof (rule noise_loop.raw_induct [rotated], goal_cases)
  case (1 loop online ex el count start pos ov r l res)
  let ?ok = "\<lambda>r. set r \<subseteq> {u \<in> \<Union> (set ` snd ` set online). u \<notin> ex \<and> el u}"
  let ?users = "snd (batch ex (sm_upper_bound pos online) count pos [])"
  let ?c = "collect count (filter el ?users) r l"
  show ?case
  proof (intro impI)
    assume pre: "length r < count" "us_ok r" "?ok r"
    have "set ?users \<subseteq> \<Union> (set ` snd ` set online) - ex"
      using batch_set [of "[]" ex "sm_upper_bound pos online" count pos] by (auto dest: sm_upper_bound_sub)
    then have c: "?ok (fst (snd ?c))" using collect_set(1) [of count "filter el ?users" r l] pre(3) unfolding set_filter by blast
    have c': "us_ok (fst (snd ?c))" "length (fst (snd ?c)) \<le> count" "\<not> fst ?c \<Longrightarrow> length (fst (snd ?c)) < count"
      using collect_set(2) [OF pre(2)] collect_length(1,2) [OF pre(1)] by simp_all
    show "us_ok (fst res) \<and> length (fst res) \<le> count \<and> ?ok (fst res)"
      using 1(2) pre c c' 1(1) [of online ex el count start _ _ _ _ res]
      by (auto simp: Let_def split_beta split: if_splits)
  qed
qed

text \<open>The position moves forward with every batch that is not empty.\<close>

definition keys_after :: "string \<Rightarrow> (string \<times> UserSet) list \<Rightarrow> nat" where
  "keys_after pos online = length (sm_upper_bound pos online)"

lemma batch_advances:
  assumes "sm_ok online" and "snd (batch ex (sm_upper_bound pos online) count pos []) \<noteq> []"
  shows "pos < fst (batch ex (sm_upper_bound pos online) count pos [])"
    and "keys_after (fst (batch ex (sm_upper_bound pos online) count pos [])) online < keys_after pos online"
proof -
  let ?p = "fst (batch ex (sm_upper_bound pos online) count pos [])"
  have p: "?p \<in> fst ` set (sm_upper_bound pos online)" by (rule batch_pos_moves [OF assms(2)])
  then show "pos < ?p" by (auto simp: sm_upper_bound_eq [OF assms(1)])
  have "length (filter (\<lambda>e. ?p < fst e) online) < length (filter (\<lambda>e. pos < fst e) online)"
  proof -
    obtain e where e: "e \<in> set online" "fst e = ?p" using p by (auto dest: sm_upper_bound_sub)
    have "filter (\<lambda>e. ?p < fst e) online = filter (\<lambda>e. ?p < fst e) (filter (\<lambda>e. pos < fst e) online)"
      using \<open>pos < ?p\<close> by (auto intro: filter_cong)
    also have "length \<dots> < length (filter (\<lambda>e. pos < fst e) online)"
      by (rule length_filter_less [of e]) (use e \<open>pos < ?p\<close> in auto)
    finally show ?thesis .
  qed
  then show "keys_after ?p online < keys_after pos online" by (simp add: keys_after_def sm_upper_bound_eq [OF assms(1)])
qed

text \<open>One turn of the loop.\<close>

lemma noise_loop_step:
  assumes "\<not> (ov \<and> start \<le> pos)" and "online \<noteq> []"
    and "batch ex (sm_upper_bound pos online) count pos [] = (pos', users)" and "collect count (filter el users) r l = (stop, r', l')"
  shows "noise_loop online ex el count start pos ov r l
    = (if users = [] then noise_loop online ex el count start [] True r l
       else if stop then Some (r', l') else noise_loop online ex el count start pos' ov r' l')"
  using assms by (subst noise_loop.simps) auto

text \<open>Without a start position one pass is enough.\<close>

lemma noise_loop_one_pass:
  assumes "sm_ok online"
  shows "\<exists>res. noise_loop online ex el count [] pos ov r l = Some res"
proof (induction "keys_after pos online" arbitrary: pos ov r l rule: less_induct)
  case less
  obtain pos' users where b: "batch ex (sm_upper_bound pos online) count pos [] = (pos', users)" by fastforce
  obtain stop r' l' where c: "collect count (filter el users) r l = (stop, r', l')" by (metis prod_cases3)
  show ?case
  proof (cases "ov \<or> online = []")
    case True
    then show ?thesis by (subst noise_loop.simps) auto
  next
    case False
    have over: "\<exists>res. noise_loop online ex el count [] [] True r l = Some res" by (subst noise_loop.simps) simp
    have onw: "users \<noteq> [] \<Longrightarrow> \<exists>res. noise_loop online ex el count [] pos' ov r' l' = Some res"
      using less [of pos' ov r' l'] batch_advances(2) [OF assms, of ex pos count] b by simp
    show ?thesis
      using over onw False by (cases "users = []"; cases stop) (simp_all add: noise_loop_step [OF _ _ b c])
  qed
qed

text \<open>With an eligible user outside the group the loop ends from every position: until the user is met the
  position moves forward, then the result grows or is complete, and it can grow only as far as the count.\<close>

lemma noise_loop_ends:
  assumes ok: "sm_ok online" and g: "(g, us) \<in> set online" "g \<noteq> []" "u \<in> set us" "u \<notin> ex" "\<forall>v \<in> set us. v \<notin> ex \<longrightarrow> el v"
    and "length r < count"
  shows "\<exists>res. noise_loop online ex el count start pos ov r l = Some res"
  using assms(7)
proof (induction "(pos, ov, r, l)" arbitrary: pos ov r l rule: wf_induct_rule [OF wf_measures [of
      "[\<lambda>(pos, ov, r, l). count - length r, \<lambda>(pos, ov, r, l). if pos < g then 0 else 1, \<lambda>(pos, ov, r, l). keys_after pos online]"]])
  case (1 pos ov r l)
  note IH = 1(1) and len = 1(2)
  obtain pos' users where b: "batch ex (sm_upper_bound pos online) count pos [] = (pos', users)" by fastforce
  obtain stop r' l' where c: "collect count (filter el users) r l = (stop, r', l')" by (metis prod_cases3)
  have reach: "users \<noteq> [] \<and> (pos' < g \<or> (\<exists>v \<in> set us - ex. v \<in> set users))" if "pos < g"
    using batch_reaches [of "sm_upper_bound pos online" g us u ex count pos "[]"] that b g len ok
    by (simp add: sm_upper_bound_eq sm_ok_filter)
  have restart: "\<exists>res. noise_loop online ex el count start [] True r l = Some res" if "users = []"
  proof (rule IH)
    have "\<not> pos < g" using reach that by blast
    moreover have "[] < g" using g(2) by (cases g) auto
    ultimately show "(([], True, r, l), (pos, ov, r, l)) \<in> measures [\<lambda>(pos, ov, r, l). count - length r,
        \<lambda>(pos, ov, r, l). if pos < g then 0 else 1, \<lambda>(pos, ov, r, l). keys_after pos online]" by simp
  qed (rule len)
  have onward: "\<exists>res. noise_loop online ex el count start pos' ov r' l' = Some res" if u: "users \<noteq> []" and s: "\<not> stop"
  proof (rule IH)
    have r': "length r' < count" "length r' = length r + length (filter el users)" 
      using collect_length(2,3) [OF len, of "filter el users" l] c s by simp_all
    then show "length r' < count" by simp
    have le: "length r \<le> length r'" using r'(2) by simp
    have adv: "pos < pos'" "keys_after pos' online < keys_after pos online" using batch_advances [OF ok, of ex pos count] u b by simp_all
    have "length r < length r'" if p: "pos < g" "\<not> pos' < g"
    proof -
      obtain v where "v \<in> set users" "v \<in> set us" "v \<notin> ex" using reach [OF p(1)] p(2) by blast
      then have "filter el users \<noteq> []" using g(5) by (auto simp: filter_empty_conv)
      then show ?thesis using r'(2) by simp
    qed
    then show "((pos', ov, r', l'), (pos, ov, r, l)) \<in> measures [\<lambda>(pos, ov, r, l). count - length r,
        \<lambda>(pos, ov, r, l). if pos < g then 0 else 1, \<lambda>(pos, ov, r, l). keys_after pos online]"
      using adv r'(1) le by (cases "length r < length r'"; cases "pos < g"; cases "pos' < g") auto
  qed
  show ?case
  proof (cases "(ov \<and> start \<le> pos) \<or> online = []")
    case True
    then show ?thesis by (subst noise_loop.simps) auto
  next
    case False
    then show ?thesis
      using restart onward by (cases "users = []"; cases stop) (simp_all add: noise_loop_step [OF _ _ b c])
  qed
qed

text \<open>When every connected device belongs to the group and there is a start position, the loop never ends.\<close>

lemma noise_loop_stuck:
  assumes "online \<noteq> []" and "\<forall>(uid, us) \<in> set online. set us \<subseteq> ex" and "start \<noteq> []"
  shows "noise_loop online ex el count start start False r l = None"
proof (rule ccontr)
  assume "noise_loop online ex el count start start False r l \<noteq> None"
  then obtain res where "noise_loop online ex el count start start False r l = Some res" by auto
  then have "\<not> (online \<noteq> [] \<and> (\<forall>(uid, us) \<in> set online. set us \<subseteq> ex) \<and> start \<noteq> [] \<and> (False \<longrightarrow> start < start))"
  proof (rule noise_loop.raw_induct [rotated, where P = "\<lambda>online ex el count start pos ov r l res.
      \<not> (online \<noteq> [] \<and> (\<forall>(uid, us) \<in> set online. set us \<subseteq> ex) \<and> start \<noteq> [] \<and> (ov \<longrightarrow> pos < start))"], goal_cases)
    case (1 loop online ex el count start pos ov r l res)
    show ?case
    proof
      assume a: "online \<noteq> [] \<and> (\<forall>(uid, us) \<in> set online. set us \<subseteq> ex) \<and> start \<noteq> [] \<and> (ov \<longrightarrow> pos < start)"
      have empty: "\<Union> (set ` snd ` set (sm_upper_bound pos online)) - ex = {}" using a by (fastforce dest: sm_upper_bound_sub)
      have "set (snd (batch ex (sm_upper_bound pos online) count pos [])) = {}"
        using batch_set [of "[]" ex "sm_upper_bound pos online" count pos] unfolding empty by simp
      then have "loop online ex el count start [] True r l = Some res"
        using 1(2) a by (auto simp: Let_def split_beta split: if_splits)
      moreover have "[] < start" using a by (cases start) auto
      ultimately show False using 1(1) [of online ex el count start "[]" True r l res] a by blast
    qed
  qed
  then show False using assms by simp
qed

section \<open>Receivers\<close>

lemma set_getGroupMembers_into: "set (getGroupMembers_into gid us m) = set (getGroupMembers gid m) \<union> set us"
  by (auto simp: getGroupMembers_into_def getGroupMembers_def set_fold_us_insert split: option.split)

lemma us_ok_getGroupMembers_into: "us_ok us \<Longrightarrow> us_ok (getGroupMembers_into gid us m)"
  by (auto simp: getGroupMembers_into_def us_ok_fold_insert split: option.split)

lemma add_named_set: "set ts \<subseteq> set (add_named m es ts)" "us_ok ts \<Longrightarrow> us_ok (add_named m es ts)"
proof -
  show "set ts \<subseteq> set (add_named m es ts)"
    by (induction m es ts rule: add_named.induct) (auto simp: set_fold_us_insert split: option.split)
  show "us_ok ts \<Longrightarrow> us_ok (add_named m es ts)"
    by (induction m es ts rule: add_named.induct) (auto simp: us_ok_fold_insert split: option.split)
qed

lemma named_targets_set: "set ts \<subseteq> set (named_targets W j m ts)" "us_ok ts \<Longrightarrow> us_ok (named_targets W j m ts)"
  using add_named_set by (auto simp: named_targets_def split: option.split)

definition group_types :: "GroupWire \<Rightarrow> int set" where
  "group_types W = {gw_chat W, gw_channel W, gw_infoUpdate W, gw_memberUpdate W, gw_recall W, gw_switchKeys W, gw_updateKeys W}"

text \<open>The receivers of a message are at least the members of the group.\<close>

lemma build_for_type_targets:
  assumes "build_for_type W ty j gid m = Some (targets, out)"
  shows "us_ok targets" "ty \<in> group_types W \<Longrightarrow> set (getGroupMembers gid m) \<subseteq> set targets"
proof -
  have "set (getGroupMembers gid m) \<subseteq> set (named_targets W j m (getGroupMembers_into gid [] m))"
    using named_targets_set(1) [of "getGroupMembers_into gid [] m" W j m] by (simp add: set_getGroupMembers_into)
  then show "ty \<in> group_types W \<Longrightarrow> set (getGroupMembers gid m) \<subseteq> set targets"
    using assms by (auto simp: build_for_type_def Let_def group_types_def set_getGroupMembers_into split: if_splits)
  show "us_ok targets"
    using assms us_ok_getGroupMembers_into [of "[]" gid m] named_targets_set(2) by (auto simp: build_for_type_def Let_def split: if_splits)
qed

lemma handleGroupMessage_targets:
  assumes "handleGroupMessage W j m = Some (targets, out, calls)" and "at_u64 j ''gid'' = Some gid"
  shows "us_ok targets" "at_int j ''type'' = Some ty \<Longrightarrow> ty \<in> group_types W \<Longrightarrow> set (getGroupMembers gid m) \<subseteq> set targets"
proof -
  obtain ty' where ty: "at_int j ''type'' = Some ty'" "build_for_type W ty' j gid m = Some (targets, out)"
    using assms by (auto simp: handleGroupMessage_def Let_def split: bind_splits if_splits)
  show "us_ok targets" by (rule build_for_type_targets(1) [OF ty(2)])
  show "at_int j ''type'' = Some ty \<Longrightarrow> ty \<in> group_types W \<Longrightarrow> set (getGroupMembers gid m) \<subseteq> set targets"
    using ty build_for_type_targets(2) [OF ty(2)] by simp
qed

section \<open>Noise receivers\<close>

lemma online_devices: "members_ok m \<Longrightarrow> u \<in> \<Union> (set ` snd ` set (om_onlineUsers m)) \<Longrightarrow> u \<in> set (getOnlineUsers (da_uid u) m)"
proof -
  assume ok: "members_ok m" and "u \<in> \<Union> (set ` snd ` set (om_onlineUsers m))"
  then obtain uid us where e: "(uid, us) \<in> set (om_onlineUsers m)" "u \<in> set us" by auto
  then have "map_of (om_onlineUsers m) uid = Some us" using sm_ok_distinct [OF members_okD(1) [OF ok]] by simp
  then show ?thesis using members_okD(4) [OF ok] e(2) by (simp add: getOnlineUsers_def)
qed

lemma getNoiseUsers_sound:
  assumes "getNoiseUsers E vers start gid count m dm [] l = Some (targets, uid)" and "members_ok m" and "0 < count"
  shows "us_ok targets" "length targets \<le> count" "set targets \<inter> set (getGroupMembers gid m) = {}"
    "u \<in> set targets \<Longrightarrow> u \<in> set (getOnlineUsers (da_uid u) m) \<and> noise_eligible E vers dm u"
proof -
  note sound = noise_loop_sound [OF assms(1) [unfolded getNoiseUsers_def]]
  show "us_ok targets" "length targets \<le> count" using sound assms(3) by simp_all
  have sub: "set targets \<subseteq> {u \<in> \<Union> (set ` snd ` set (om_onlineUsers m)). u \<notin> set (getGroupMembers gid m) \<and> noise_eligible E vers dm u}"
    using sound assms(3) by (simp add: set_getGroupMembers_into)
  then show "set targets \<inter> set (getGroupMembers gid m) = {}" by blast
  show "u \<in> set targets \<Longrightarrow> u \<in> set (getOnlineUsers (da_uid u) m) \<and> noise_eligible E vers dm u"
    using sub online_devices [OF assms(2), of u] by blast
qed

text \<open>Someone outside the group whose devices outside it are all eligible.\<close>

definition noise_user :: "NoiseEnv \<Rightarrow> u64 \<times> u64 \<Rightarrow> u64 \<Rightarrow> OnlineMsgMemberMgr \<Rightarrow> 's Manager \<Rightarrow> string \<Rightarrow> bool" where
  "noise_user E vers gid m dm uid \<longleftrightarrow> uid \<noteq> [] \<and> \<not> set (getOnlineUsers uid m) \<subseteq> set (getGroupMembers gid m)
     \<and> (\<forall>u \<in> set (getOnlineUsers uid m) - set (getGroupMembers gid m). noise_eligible E vers dm u)"

lemma getNoiseUsers_ends:
  assumes "members_ok m" and "0 < count" and "start = [] \<or> noise_user E vers gid m dm uid"
  shows "\<exists>res. getNoiseUsers E vers start gid count m dm [] l = Some res"
proof (cases "start = []")
  case True
  then show ?thesis unfolding getNoiseUsers_def using noise_loop_one_pass [OF members_okD(1) [OF assms(1)]] by simp
next
  case False
  with assms(3) have n: "noise_user E vers gid m dm uid" by simp
  then obtain us where us: "map_of (om_onlineUsers m) uid = Some us"
    by (cases "map_of (om_onlineUsers m) uid") (auto simp: noise_user_def getOnlineUsers_def)
  with n obtain u where u: "u \<in> set us" "u \<notin> set (getGroupMembers gid m)" by (auto simp: noise_user_def getOnlineUsers_def)
  show ?thesis
    unfolding getNoiseUsers_def
    by (rule noise_loop_ends [OF members_okD(1) [OF assms(1)] map_of_SomeD [OF us] _ u(1)])
      (use n us u assms(2) in \<open>auto simp: noise_user_def getOnlineUsers_def set_getGroupMembers_into\<close>)
qed

text \<open>The versions in force.\<close>

definition versions_of :: "OnlineMsgHandler \<Rightarrow> u64 \<times> u64" where
  "versions_of h = (case oh_static h of None \<Rightarrow> (nc_iosSupportedVersion (oh_noiseCfg h), nc_androidSupportedVersion (oh_noiseCfg h)) | Some v \<Rightarrow> v)"

lemma pickNoiseReceivers_cases:
  obtains "pickNoiseReceivers E gid us m dm h = Some ([], h)"
  | n where "0 < n" "n \<le> max 1 (nc_part (oh_noiseCfg h) (length us))" "nc_enabled (oh_noiseCfg h)"
    "pickNoiseReceivers E gid us m dm h = map_option (\<lambda>(targets, uid).
        (targets, h\<lparr>oh_static := Some (versions_of h), oh_lastNoiseUid := (if targets = [] then oh_lastNoiseUid h else uid)\<rparr>))
      (getNoiseUsers E (versions_of h) (oh_lastNoiseUid h) gid n m dm [] [])"
  by (cases "nc_enabled (oh_noiseCfg h)"; cases "nc_part (oh_noiseCfg h) (length us) = 0"; cases "us = []")
    (auto simp: pickNoiseReceivers_def Let_def versions_of_def intro: that)

section \<open>Properties\<close>

lemma pickNoiseReceivers_sound:
  assumes "members_ok m" and "pickNoiseReceivers E gid us m dm h = Some (targets, h')"
  shows "us_ok targets" "set targets \<inter> set (getGroupMembers gid m) = {}" "length targets \<le> max 1 (nc_part (oh_noiseCfg h) (length us))"
    "u \<in> set targets \<Longrightarrow> u \<in> set (getOnlineUsers (da_uid u) m) \<and> noise_eligible E (versions_of h) dm u"
proof -
  consider "targets = []" | n uid where "0 < n" "n \<le> max 1 (nc_part (oh_noiseCfg h) (length us))"
      "getNoiseUsers E (versions_of h) (oh_lastNoiseUid h) gid n m dm [] [] = Some (targets, uid)"
    using assms(2) by (cases rule: pickNoiseReceivers_cases [of E gid us m dm h]) auto
  then have "us_ok targets \<and> set targets \<inter> set (getGroupMembers gid m) = {} \<and> length targets \<le> max 1 (nc_part (oh_noiseCfg h) (length us))
    \<and> (\<forall>u \<in> set targets. u \<in> set (getOnlineUsers (da_uid u) m) \<and> noise_eligible E (versions_of h) dm u)"
  proof cases
    case 2
    note sound = getNoiseUsers_sound [OF 2(3) assms(1) 2(1)]
    have "\<forall>u \<in> set targets. u \<in> set (getOnlineUsers (da_uid u) m) \<and> noise_eligible E (versions_of h) dm u"
      using sound(4) by blast
    then show ?thesis using sound(1-3) 2(2) le_trans by blast
  qed simp
  then show "us_ok targets" "set targets \<inter> set (getGroupMembers gid m) = {}" "length targets \<le> max 1 (nc_part (oh_noiseCfg h) (length us))"
    "u \<in> set targets \<Longrightarrow> u \<in> set (getOnlineUsers (da_uid u) m) \<and> noise_eligible E (versions_of h) dm u" by blast+
qed

text \<open>C22. Noise goes to the right devices: whatever the order of events before, the receivers chosen for the noise
  of a group message are connected devices outside the group, listed once, each served by a dispatcher of this
  server, and not more than the configured part of the receivers of the message, or one.\<close>

theorem noise_receivers_outside:
  assumes "interleaved rn m ps" and "pickNoiseReceivers E gid us m dm h = Some (targets, h')"
  shows "distinct targets \<and> set targets \<inter> set (getGroupMembers gid m) = {}
    \<and> length targets \<le> max 1 (nc_part (oh_noiseCfg h) (length us))
    \<and> (\<forall>u \<in> set targets. u \<in> set (getOnlineUsers (da_uid u) m) \<and> getDispatcher u dm \<noteq> None)"
proof -
  have ok: "members_ok m" using interleaved_ok [OF assms(1)] by simp
  have "getDispatcher u dm \<noteq> None" if "u \<in> set targets" for u
    using pickNoiseReceivers_sound(4) [OF ok assms(2) that] by (auto simp: noise_eligible_def split: option.splits)
  moreover have "distinct targets" using pickNoiseReceivers_sound(1) [OF ok assms(2)] by (simp add: us_ok_def)
  ultimately show ?thesis
    using pickNoiseReceivers_sound(2,3) [OF ok assms(2)] pickNoiseReceivers_sound(4) [OF ok assms(2)] by blast
qed

lemma pickNoiseReceivers_ends:
  assumes "members_ok m" and "oh_lastNoiseUid h = [] \<or> noise_user E (versions_of h) gid m dm uid"
  shows "\<exists>res. pickNoiseReceivers E gid us m dm h = Some res"
proof (cases rule: pickNoiseReceivers_cases [of E gid us m dm h])
  case (2 n)
  then show ?thesis using getNoiseUsers_ends [OF assms(1) 2(1) assms(2), of "[]"] by auto
qed simp


text \<open>It does not end after a successful search when every connected device belongs to the group: the thread of
  the group is lost in the loop.\<close>

lemma noise_search_stuck:
  assumes "om_onlineUsers m \<noteq> []" and "\<forall>(uid, us) \<in> set (om_onlineUsers m). set us \<subseteq> set (getGroupMembers gid m)"
    and "oh_lastNoiseUid h \<noteq> []" and "nc_enabled (oh_noiseCfg h)" and "us \<noteq> []"
  shows "pickNoiseReceivers E gid us m dm h = None"
  using assms noise_loop_stuck [of "om_onlineUsers m" "set (getGroupMembers_into gid [] m)" "oh_lastNoiseUid h"]
  by (simp add: pickNoiseReceivers_def Let_def getNoiseUsers_def set_getGroupMembers_into)

text \<open>What a message that is not understood does: the function throws, the thread of the group leaves its loop,
  and from then on no message of any group of that thread is handled.\<close>

lemma bad_message_ends_thread:
  assumes "isGroupMessageChannel chan" and "gw_parse W msg = Some j" and "at_u64 j ''gid'' = Some gid" and "at_int j ''type'' = None"
    and "gs_threads s \<noteq> []" and "gs_threads s ! (unat gid mod length (gs_threads s))"
  shows "\<exists>s'. handleMessage W E chan msg s = Some s' \<and> gs_dispatch s' = gs_dispatch s
    \<and> (\<forall>chan' msg' j' gid'. gw_parse W msg' = Some j' \<longrightarrow> at_u64 j' ''gid'' = Some gid'
        \<longrightarrow> unat gid' mod length (gs_threads s) = unat gid mod length (gs_threads s) \<longrightarrow> handleMessage W E chan' msg' s' = Some s')"
proof -
  have "deliver_message W E j s = Some None" using assms(4) by (simp add: deliver_message_def handleGroupMessage_def)
  then have "handleMessage W E chan msg s = Some (s\<lparr>gs_threads := (gs_threads s)[unat gid mod length (gs_threads s) := False]\<rparr>)"
    using assms by (simp add: handleMessage_def getIoCtxByGid_def)
  moreover have "unat gid mod length (gs_threads s) < length (gs_threads s)" using assms(5) by simp
  ultimately show ?thesis using assms(5) by (auto simp: handleMessage_def getIoCtxByGid_def)
qed

section \<open>Delivery\<close>

lemma filter_target: "distinct ts \<Longrightarrow> filter (\<lambda>e. snd e = a) (map (\<lambda>d. (msg, d)) ts) = (if a \<in> set ts then [(msg, a)] else [])"
  by (induction ts) auto

text \<open>A message that is understood is posted once to every member, and noise does not disturb it.\<close>

lemma deliver_message_posts:
  assumes msg: "handleGroupMessage W j (gs_members s) = Some (targets, out, calls)" "at_u64 j ''gid'' = Some gid"
    "at_int j ''type'' = Some ty" "ty \<in> group_types W"
    and ok: "members_ok (gs_members s)" and a: "a \<in> set (getGroupMembers gid (gs_members s))"
    and ends: "oh_lastNoiseUid (gs_handler s) = [] \<or> noise_user E (versions_of (gs_handler s)) gid (gs_members s) (gs_dispatch s) uid"
    and server: "reachable X (gs_dispatch s)" "dm_queue (gs_dispatch s) = []" "getDispatcher a (gs_dispatch s) = Some k"
      "dm_channels (gs_dispatch s) k = Some c" "c_available c"
  shows "\<exists>s'. deliver_message W E j s = Some (Some s') \<and> gs_redis s' = gs_redis s @ calls
    \<and> dm_channels (dispatch_batch X (gs_dispatch s')) k = Some (post_task (SendGroup out) c)"
proof -
  have targets: "distinct targets" "a \<in> set targets"
    using handleGroupMessage_targets(1) [OF msg(1,2)] handleGroupMessage_targets(2) [OF msg] a by (auto simp: us_ok_def)
  then have nonempty: "targets \<noteq> []" by auto
  have posts: "dm_channels (dispatch_batch X (sendGroupMessages ((Some targets, Some out) # rest) (gs_dispatch s))) k = Some (post_task (SendGroup out) c)"
    if "filter (\<lambda>e. snd e = a) (group_deliveries rest) = []" for rest
    using group_messages_posted [OF server, of "(Some targets, Some out) # rest"] that targets
    by (simp add: group_deliveries_def filter_target post_task_def)
  show ?thesis
  proof (cases "nc_enabled (oh_noiseCfg (gs_handler s))")
    case False
    then show ?thesis using msg(1) nonempty posts [of "[]"] by (simp add: deliver_message_def Let_def group_deliveries_def)
  next
    case True
    obtain noise noiseMsg h' where noise: "generateNoiseForGroupMessage W E j targets (gs_members s) (gs_dispatch s) (gs_handler s) = Some (noise, noiseMsg, h')"
        "a \<notin> set noise"
    proof (cases "build_noise W ty j")
      case (Some m)
      obtain t h' where t: "pickNoiseReceivers E gid targets (gs_members s) (gs_dispatch s) (gs_handler s) = Some (t, h')"
        using pickNoiseReceivers_ends [OF ok ends] by fastforce
      have "a \<notin> set t" using pickNoiseReceivers_sound(2) [OF ok t] a by blast
      with Some t that show ?thesis by (cases m) (auto simp: generateNoiseForGroupMessage_def msg)
    qed (use that in \<open>auto simp: generateNoiseForGroupMessage_def msg\<close>)
    have "filter (\<lambda>e. snd e = a) (group_deliveries (if noise = [] then [] else [(Some noise, Some noiseMsg)])) = []"
      using noise(2) by (auto simp: group_deliveries_def filter_empty_conv)
    from posts [OF this] show ?thesis using True msg(1) nonempty noise(1) by (simp add: deliver_message_def Let_def)
  qed
qed


text \<open>A server to which the device of \<open>demo_bob\<close> is connected, and a chat message of group 5.\<close>

definition demo_chat :: json where
  "demo_chat = jobj [(''gid'', JInt 5), (''mid'', JInt 9), (''type'', JInt 1), (''from_uid'', JString ''amy''), (''text'', JString ''hi''),
     (''status'', JInt 1), (''create_time'', JInt 7), (''at_all'', JInt 0), (''at_list'', JString [])]"

definition demo_gw :: GroupWire where
  "demo_gw = \<lparr>gw_chat = 1, gw_channel = 2, gw_infoUpdate = 3, gw_memberUpdate = 4, gw_recall = 5, gw_switchKeys = 6, gw_updateKeys = 7, gw_noise = 8,
     gw_master = 1, gw_parse = (\<lambda>_. Some demo_chat), gw_dump = (\<lambda>_. ''info''), gw_chatBytes = cm_text, gw_infoBytes = iu_intro,
     gw_switchBytes = sk_fromUid, gw_updateBytes = uk_fromUid, gw_memberBytes = mu_fromUid, gw_recallBytes = rc_fromUid,
     gw_outBytes = (\<lambda>_ b. b)\<rparr>"

definition demo_noise_account :: Account where
  "demo_noise_account = Account_new\<lparr>a_devices := [Device_new\<lparr>d_id := 1, d_clientVersion := Some \<lparr>cv_osType = 1, cv_osVersion = [], cv_phoneModel = [],
     cv_bcmVersion = [], cv_bcmBuildCode = 30, cv_areaCode = 0, cv_langCode = []\<rparr>\<rparr>], a_authDeviceId := 1\<rparr>"

definition demo_noise_env :: NoiseEnv where
  "demo_noise_env = \<lparr>ne_ios = 1, ne_android = 2, ne_session = (\<lambda>_. Some demo_noise_account)\<rparr>"

definition demo_noise_handler :: "string \<Rightarrow> OnlineMsgHandler" where
  "demo_noise_handler start = \<lparr>oh_noiseCfg = \<lparr>nc_enabled = True, nc_part = (\<lambda>n. n div 2), nc_iosSupportedVersion = 20, nc_androidSupportedVersion = 20\<rparr>,
     oh_lastNoiseUid = start, oh_static = None\<rparr>"

definition demo_online :: OnlineMsgMemberMgr where
  "demo_online = doHandleUserOnline demo_roleNo demo_user_groups demo_bob (addGroupMsgSubHandler OnlineMsgMemberMgr_new)"

definition demo_service :: "StoredMessage option GroupService" where
  "demo_service = \<lparr>gs_threads = replicate 5 True, gs_members = demo_online, gs_handler = demo_noise_handler [], gs_dispatch = demo_manager, gs_redis = []\<rparr>"

lemma demo_online_eq:
  "demo_online = \<lparr>om_onlineUsers = [(''bob'', [demo_bob])], om_groupMembers = [(5, [demo_bob])], om_groupSub = True,
    om_calls = [SubscribeChannel (group_channel 5)]\<rparr>"
  by (simp add: demo_online_def doHandleUserOnline_def demo_online_simps demo_bob_def)

lemma demo_in_order: "in_order demo_roleNo {demo_bob} demo_memberships demo_online"
  unfolding demo_online_def by (rule in_order.connect [OF in_order.created demo_truthful])

lemma demo_online_interleaved: "\<exists>ps. interleaved demo_roleNo demo_online ps"
proof -
  have "interleaved demo_roleNo (fst (schedule demo_roleNo demo_user_groups [Inl (ConnectEvent demo_bob), Inr 0, Inr 0] (addGroupMsgSubHandler OnlineMsgMemberMgr_new, [])))
      (snd (schedule demo_roleNo demo_user_groups [Inl (ConnectEvent demo_bob), Inr 0, Inr 0] (addGroupMsgSubHandler OnlineMsgMemberMgr_new, [])))"
    by (rule schedule_interleaved) (simp add: interleaved.created)
  then show ?thesis by (auto simp: demo_online_eq demo_online_simps demo_bob_def)
qed

lemma demo_bob_dispatcher: "getDispatcher demo_bob demo_manager = Some 4096"
  by (simp add: getDispatcher_def demo_manager_state demo_bob_serialized)

lemma demo_bob_eligible: "noise_eligible demo_noise_env (20, 20) demo_manager demo_bob"
  by (simp add: noise_eligible_def demo_bob_dispatcher demo_noise_env_def demo_noise_account_def getAuthDevice_def Account_new_def versionSupported_def)

theorem noise_receivers_outside_witness:
  "\<exists>h'. pickNoiseReceivers demo_noise_env 6 [demo_cat_device] demo_online demo_manager (demo_noise_handler []) = Some ([demo_bob], h')
    \<and> set [demo_bob] \<inter> set (getGroupMembers 6 demo_online) = {}"
proof -
  obtain ps where i: "interleaved demo_roleNo demo_online ps" using demo_online_interleaved by blast
  have "\<exists>h'. pickNoiseReceivers demo_noise_env 6 [demo_cat_device] demo_online demo_manager (demo_noise_handler []) = Some ([demo_bob], h')"
    using demo_bob_eligible
    by (simp add: pickNoiseReceivers_def demo_noise_handler_def getNoiseUsers_def noise_loop.simps sm_upper_bound_def demo_online_eq getGroupMembers_into_def
        us_insert_def insort_insert_key_def)
  then obtain h' where p: "pickNoiseReceivers demo_noise_env 6 [demo_cat_device] demo_online demo_manager (demo_noise_handler []) = Some ([demo_bob], h')" ..
  with noise_receivers_outside [OF i p] show ?thesis by blast
qed



section \<open>What the controllers publish\<close>

text \<open>The system message with which the group manager announces a change of members is understood: it is built
  for the clients and goes to the members connected here and to the connected devices of the users it names (who
  may have left the group already).\<close>

definition system_message :: "u64 \<Rightarrow> u64 \<Rightarrow> int \<Rightarrow> string \<Rightarrow> u64 \<Rightarrow> string \<Rightarrow> json" where
  "system_message gid mid ty uid now text = jobj [(''gid'', ju64 gid), (''mid'', ju64 mid), (''type'', JInt ty), (''from_uid'', JString uid),
     (''create_time'', ju64 now), (''text'', JString text)]"

lemma those_members:
  assumes "\<And>r. to_i32 (rn r) = rn r"
  shows "those (map member_of_json (map (SimpleGroupMemberInfo_to_json rn) infos)) = Some (map (\<lambda>i. (si_uid i, si_nick i, rn (si_role i))) infos)"
  by (induction infos) (simp_all add: member_of_json_def SimpleGroupMemberInfo_to_json_def at_string_def at_int_def assms)

lemma add_named_infos:
  "set (add_named m (map (SimpleGroupMemberInfo_to_json rn) infos) ts) = set ts \<union> (\<Union>i \<in> set infos. set (getOnlineUsers (si_uid i) m))"
  by (induction infos arbitrary: ts) (auto simp: SimpleGroupMemberInfo_to_json_def at_string_def set_fold_us_insert)

lemma member_update_understood:
  assumes parse: "gw_parse W (gm_dump gm x) = Some x" and nonempty: "gm_dump gm x \<noteq> []"
    and x: "x = GroupSysMsgBody_to_json (gm_roleNo gm) \<lparr>sm_action = action, sm_members = infos\<rparr>"
    and roles: "\<And>r. to_i32 (gm_roleNo gm r) = gm_roleNo gm r"
    and ty: "gw_memberUpdate W \<notin> {gw_chat W, gw_channel W, gw_infoUpdate W}" "to_i32 (gw_memberUpdate W) = gw_memberUpdate W"
  shows "\<exists>targets calls. handleGroupMessage W (system_message gid mid (gw_memberUpdate W) uid now (sys_text gm action infos)) m
      = Some (targets, gw_outBytes W (gw_memberUpdate W) (gw_memberBytes W \<lparr>mu_gid = gid, mu_mid = mid, mu_fromUid = uid, mu_action = action_no action,
          mu_members = map (\<lambda>i. (si_uid i, si_nick i, gm_roleNo gm (si_role i))) infos\<rparr>), calls)
    \<and> set targets = set (getGroupMembers gid m) \<union> (\<Union>i \<in> set infos. set (getOnlineUsers (si_uid i) m))"
proof -
  let ?j = "system_message gid mid (gw_memberUpdate W) uid now (sys_text gm action infos)"
  have j: "at_int ?j ''type'' = Some (gw_memberUpdate W)" "at_u64 ?j ''gid'' = Some gid" "at_u64 ?j ''mid'' = Some mid"
    "at_string ?j ''from_uid'' = Some uid" "at_string ?j ''text'' = Some (gm_dump gm x)"
    by (simp_all add: system_message_def at_int_def at_u64_def at_string_def ju64_def ty(2) sys_text_def x)
  have t: "at_int x ''action'' = Some (action_no action)" "jfind x ''members'' = Some (JArray (map (SimpleGroupMemberInfo_to_json (gm_roleNo gm)) infos))"
    by (cases action; simp add: x GroupSysMsgBody_to_json_def at_int_def to_i32_id)+
  have named: "set (named_targets W ?j m (getGroupMembers_into gid [] m)) = set (getGroupMembers gid m) \<union> (\<Union>i \<in> set infos. set (getOnlineUsers (si_uid i) m))"
    by (simp add: named_targets_def j nonempty parse t add_named_infos set_getGroupMembers_into)
  have "buildMemberUpdateMessage W ?j False = Some (gw_outBytes W (gw_memberUpdate W) (gw_memberBytes W \<lparr>mu_gid = gid, mu_mid = mid, mu_fromUid = uid,
      mu_action = action_no action, mu_members = map (\<lambda>i. (si_uid i, si_nick i, gm_roleNo gm (si_role i))) infos\<rparr>))"
    by (simp add: buildMemberUpdateMessage_def with_text_def j nonempty parse t those_members [OF roles, simplified] buildOutMessage_def)
  with named ty(1) show ?thesis
    by (auto simp: handleGroupMessage_def j build_for_type_def Let_def)
qed

text \<open>The record for the offline server reads back.\<close>

lemma GroupUserMessageIdInfo_roundtrip:
  assumes "\<And>j. parse (dump j) = Some j" and "to_i32 (gi_cfgFlag i) = gi_cfgFlag i"
  shows "GroupUserMessageIdInfo_from_string parse lex64 lex32 lexInt (GroupUserMessageIdInfo_to_string dump i) old = Some i"
  by (simp add: GroupUserMessageIdInfo_from_string_def GroupUserMessageIdInfo_to_string_def assms toNumber_def toString_def skip_optional_def present_def ju64_def)

end
