(* ===== verification/Spec2Isabelle.thy ===== *)
theory Spec2Isabelle
  imports Codec Bit_Vector Consistent_Hash Limiter_Executor Http_Router Dispatch_Manager Message_Controller Group_Key_Updates Fifo_Cache Group_Members_V2 Online_Messages
begin

text \<open>
  A verification library of the BCM messaging server (C++, \<open>src/\<close>).

  \<^bold>\<open>The program.\<close> A client talks to the server with HTTP requests and over one websocket per
  device. A request is routed (\<open>src/http\<close>), its credentials are checked (\<open>src/auth\<close>) against
  the accounts (\<open>src/store\<close>), rate limiters (\<open>src/limiters\<close>) accept or refuse it, and a
  controller (\<open>src/controllers\<close>) handles it over the database (\<open>src/dao\<close>) and Redis
  (\<open>src/redis\<close>). Messages for a connected device go through the dispatch manager to the channel of
  the device (\<open>src/dispatcher\<close>); messages for other devices are stored and announced by a push
  (\<open>src/push\<close>). Groups are spread over servers with a consistent hash ring (\<open>src/utils\<close>).

  \<^bold>\<open>Conventions.\<close> Machine integers are words of their width (\<open>u8\<close>, \<open>u32\<close>, \<open>u64\<close>,
  \<open>i32\<close>, \<open>i64\<close> of \<open>Bcm_Prelude\<close>). Structures are records, enumerations datatypes,
  \<open>std::string\<close> is \<open>string\<close>. \<open>std::map\<close> is a sorted association list where its order
  shows (\<open>Std_Map\<close>) and a map otherwise. Exceptions, out-of-range accesses and divisions by zero are
  values of \<open>cpp_error\<close>. Code outside the repository (OpenSSL, Beast's base64, protocol buffers, the
  database and Redis servers) and the clock are arguments; what a theorem needs of them is among its
  hypotheses. Logging and metrics are left out.

  \<^bold>\<open>The theories.\<close>

  \<^item> \<open>Bcm_Prelude\<close>: machine types, \<open>boost::split\<close>, \<open>join\<close>, prefix and
    substring tests, decimal parsing and printing, shared lemmas.
  \<^item> \<open>Bit_Vector\<close>: the bit array kept in a \<open>std::vector<uint8_t>\<close>, with the locale
    \<open>bit_array\<close> (the last write to a position is what a test reads).
  \<^item> \<open>Std_Map\<close>: ordered maps with their invariant, lookup laws and lower and upper bound.
  \<^item> \<open>Codec\<close>: \<open>crypto/hex_encoder.cpp\<close>, \<open>url_encoder.cpp\<close>, \<open>base64.cpp\<close>,
    \<open>any_base.cpp\<close>; round trips and the inputs on which decoding fails.
  \<^item> \<open>Consistent_Hash\<close>: \<open>utils/consistent_hash.h\<close>; who owns a key, which keys move when a
    server joins or leaves.
  \<^item> \<open>Api_Matcher\<close>, \<open>Limiter\<close>, \<open>Qps_Limiter\<close>, \<open>Distributed_Limiter\<close>,
    \<open>Limiter_Config\<close>, \<open>Limiter_Executor\<close>: \<open>limiters/*.cpp\<close>. The locale
    \<open>limiter\<close> states the interface; the window counter is shown to grant at most twice its count in
    any period, the distributed limiter at most its count in a slot for the whole fleet; a configuration
    reload refines the specification that every registered limiter follows its rule; the executor's answer
    is given on every branch.
  \<^item> \<open>Auth_Header\<close>, \<open>Accounts\<close>, \<open>Authenticator\<close>: \<open>auth/*.cpp\<close> and
    \<open>store/accounts_manager.cpp\<close>. Soundness of authentication; after any sequence of modifications
    of an account the field mask records every difference.
  \<^item> \<open>Http_Router\<close>: \<open>http/http_route.cpp\<close>, \<open>http_router.cpp\<close>. Routes, their parameters,
    the query parser, the reverse search of the route table and the invocation of a handler with its
    authentication.
  \<^item> \<open>Dispatch_Address\<close>, \<open>Push_Notification\<close>, \<open>Messages_Manager\<close>,
    \<open>Dispatch_Channel\<close>, \<open>Dispatch_Manager\<close>: \<open>dispatcher/*.cpp\<close>,
    \<open>push/push_notification.cpp\<close>, \<open>store/messages_manager.cpp\<close>. A channel is a record with a
    queue of posted tasks; every task is split at its asynchronous call in the request it sends and the
    reaction to the response. An inductive step relation interleaves tasks, responses and events in any
    order; over it no stored message is lost. The manager keeps the channels in a store by identity; in
    every reachable state at most one channel is live for an address.
  \<^item> \<open>Bloom_Filters\<close>: \<open>crypto/murmurhash3.cpp\<close>, \<open>bloom/*.cpp\<close>, \<open>features/*.cpp\<close>.
    The hash agrees with a reference definition; a filter has no false negatives; a feature set is
    determined by the last writes.
  \<^item> \<open>Message_Controller\<close>: \<open>controllers/message_controller.cpp\<close> and the encryption of the
    sender. What a request does on every branch; an accepted request reaches every active device.
  \<^item> \<open>Keys\<close>: \<open>store/keys_manager.cpp\<close>, \<open>controllers/keys_controller.cpp\<close>. A one-time key is
    handed out once; the keys a device uploads are what the next request gets.
  \<^item> \<open>Json\<close>, \<open>State_Wp\<close>, \<open>Group_Entities\<close>, \<open>Group_Manager\<close>,
    \<open>Group_Members\<close>, \<open>Group_Key_Updates\<close>: \<open>utils/jsonable.h\<close>,
    \<open>controllers/group_manager_entities.h\<close> and \<open>.cpp\<close>,
    \<open>controllers/group_manager_controller_V3.cpp\<close>. The handlers of groups are programs of the state
    monad over a world of any type, with rules for weakest preconditions. They refine a step relation on the
    table of members whatever database calls fail; every group keeps an owner; only an owner removes others.
    The loop that selects who distributes new keys ends; cached and stored keys read back.

  \<^bold>\<open>Bounds and fuel.\<close> All definitions are total. Loops that follow the input recurse over it;
  \<open>AnyBase::encode\<close> recurses on the number it divides. The only counter that stands for time is the
  number of steps in the step relations, which is not bounded. The loop of
  \<open>selectKeyDistributionCandidates\<close> is a partial function whose termination is a theorem.

  \<^bold>\<open>Not modelled.\<close> Sockets, TLS and parsers of the HTTP and websocket transports, fibers and event
  loops, the network clients of Redis, the database and the push services, the metrics library, logging and
  the test tools: they have no logic of their own beyond third-party calls. Threads are modelled as
  interleavings of atomic handlers, as the code runs each handler on one fiber under a lock or on one event
  loop. Not yet modelled, in the order of the plan: the older versions of the
  group handlers, the table of online group members, the offline server, the push service and its resend queue, the
  account, device, profile and contact controllers, the database cache.
\<close>

section \<open>From the sender to the connected device\<close>

text \<open>A message published to the address of an available channel and dispatched by the server of that
  channel is posted there as a task.\<close>

lemma deliver_posts:
  assumes "dm_queue A = []" and "getDispatcher a A = Some k" and "dm_channels A k = Some c" and "c_available c"
    and "CHR '':'' \<notin> set (da_uid a)" and "msg \<noteq> []"
    and "cx_parsePubsub (X k) msg = Some (DELIVER, t)" and "cx_parseEnvelope (X k) t = Some e"
  shows "dm_channels (dispatch_batch X (onMessage (getSerialized a) msg A)) k = Some (post_task (SendP2p e None False) c)"
proof -
  have "dm_queue (onMessage (getSerialized a) msg A) = [\<lparr>mg_type = TYPE_REDIS_MESSAGE, mg_address = Some a, mg_content = msg\<rparr>]"
    using assms deserialize_getSerialized by (simp add: onMessage_def enqueueMessage_def getSerialized_def)
  with assms show ?thesis
    by (simp add: dispatch_batch_def dispatch_message_def getDispatcher_def on_channel_channels onDispatchRedisMessage_def)
qed


text \<open>A world that is the log of what was published, and the server to which the device of
  \<open>demo_receiver\<close> is connected.\<close>

definition demo_log_dao :: "(string \<times> string) list StoredMessages" where
  "demo_log_dao = \<lparr>sd_set = (\<lambda>m s. (Dao_Error, 0, s)), sd_get = (\<lambda>d dev n s. (Dao_NoSuchData, [])),
     sd_del = (\<lambda>d ids s. (Dao_Success, s)), sd_clear = (\<lambda>d s. (Dao_Success, s)), sd_clearDevice = (\<lambda>d dev s. (Dao_Success, s))\<rparr>"

definition demo_envelope :: "string \<Rightarrow> Envelope" where
  "demo_envelope extra = Envelope_new\<lparr>env_timestamp := 9, env_source := ''bob'', env_sourceDevice := 1, env_sourceRegistration := 7,
     env_sourceExtra := extra, env_content := replicate 60 (CHR ''k'')\<rparr>"

definition demo_log_cx :: "(string \<times> string) list Context" where
  "demo_log_cx = (demo_cx demo_log_dao)\<lparr>cx_publish := (\<lambda>uid ch m s. (1, (ch, m) # s)), cx_pubsub := (\<lambda>ty t. CHR ''D'' # t),
     cx_parsePubsub := (\<lambda>w. Some (DELIVER, tl w)), cx_envelope := env_sourceExtra, cx_parseEnvelope := (\<lambda>w. Some (demo_envelope w))\<rparr>"

definition demo_log_mc :: "(string \<times> string) list MessageController" where
  "demo_log_mc = \<lparr>mc_cx = demo_log_cx, mc_getAccount = (\<lambda>uid. (Dao_Success, Some demo_receiver)), mc_deleted = 1, mc_normal = 0,
     mc_b64enc = id, mc_eFrom = (\<lambda>_ e i s. s), mc_signal = mc_signal demo_mc,
     mc_messageSize = 100, mc_needUpgrade = False, mc_multiDevice = 0\<rparr>"

definition demo_amy :: DispatchAddress where
  "demo_amy = \<lparr>da_uid = ''amy'', da_deviceid = 1\<rparr>"

definition demo_amy_channel :: Channel where
  "demo_amy_channel = (DispatchChannel_new 7 demo_amy True)\<lparr>c_available := True\<rparr>"

definition demo_amy_server :: "(string \<times> string) list Manager" where
  "demo_amy_server = (Manager_new [])\<lparr>dm_dispatchers := [(getSerialized demo_amy, 7)], dm_channels := (\<lambda>_. Some demo_amy_channel)\<rparr>"


end
